(* ===== verification/Prelude.thy ===== *)
theory Prelude
  imports Main "HOL-Library.Word" "HOL-Library.AList"
begin

text \<open>
  Shared vocabulary of the development: the machine types of the C++ sources
  (\<open>size_t\<close>, \<open>uint32_t\<close>, bytes, socket handles, object addresses), the
  fact collections that carry the component proofs, and the generic lemmas on
  lists, words and association lists that more than one component uses.

  An \<open>std::unordered_map\<close> is an association list here: the order of the list
  stands for the (unspecified) iteration order of the container, and every
  operation that looks a key up uses \<open>map_of\<close>.  An object held by
  \<open>shared_ptr\<close> is named by its index in the store that owns it (\<open>addr\<close>).
\<close>

type_synonym byte = "8 word"
type_synonym size_t = "64 word"
type_synonym uint32 = "32 word"
type_synonym uint64 = "64 word"
type_synonym int64 = "64 word"
type_synonym SocketHandle = "64 word"
type_synonym addr = nat

text \<open>An \<open>int64_t\<close> is the same word as a \<open>uint64_t\<close>, read with \<^const>\<open>sint\<close>.\<close>

text \<open>Fact collections: \<open>inv_intros\<close> holds the preservation lemmas of the
  components' invariants, \<open>word_arith\<close> the reading of word operations as
  operations on natural numbers, \<open>outcome\<close> the case equations of fallible
  operations.\<close>

named_theorems inv_intros
named_theorems word_arith
named_theorems outcome

section \<open>Lists\<close>

text \<open>Overwriting a stretch of an array (\<open>memcpy\<close> into \<open>buf + off\<close>).\<close>

definition write_at :: "nat \<Rightarrow> 'a list \<Rightarrow> 'a list \<Rightarrow> 'a list" where
  "write_at off data buf = take off buf @ data @ drop (off + length data) buf"

lemma length_write_at [simp]:
  "off + length data \<le> length buf \<Longrightarrow> length (write_at off data buf) = length buf"
  by (simp add: write_at_def)

lemma take_write_at:
  "off + length data \<le> length buf
    \<Longrightarrow> take (off + length data) (write_at off data buf) = take off buf @ data"
  by (simp add: write_at_def)

lemma take_write_at_zero:
  "length data \<le> length buf \<Longrightarrow> take (length data) (write_at 0 data buf) = data"
  by (simp add: write_at_def)

lemma take_append_split:
  "n \<le> length xs \<Longrightarrow> take n (xs @ ys) = take n xs"
  "n \<le> length xs \<Longrightarrow> drop n (xs @ ys) = drop n xs @ ys"
  by simp_all

lemma length_ge_4E:
  assumes "4 \<le> length xs"
  obtains a b c d r where "xs = a # b # c # d # r"
  using assms
  by (cases xs; cases "tl xs"; cases "tl (tl xs)"; cases "tl (tl (tl xs))") auto

lemma length_filter_update:
  "i < length xs \<Longrightarrow> length (filter P (xs[i := y])) + (if P (xs ! i) then 1 else 0)
    = length (filter P xs) + (if P y then 1 else 0)"
proof (induction xs arbitrary: i)
  case (Cons a xs)
  show ?case
  proof (cases i)
    case (Suc k)
    then show ?thesis using Cons.IH [of k] Cons.prems by (auto split: if_splits)
  qed simp
qed simp

text \<open>A measure that every step of a fold changes by a fixed amount.\<close>

lemma fold_sum_list:
  fixes f :: "'s \<Rightarrow> 'a::comm_monoid_add"
  assumes "\<And>e s. f (step e s) = f s + w e"
  shows "f (fold step es s) = f s + sum_list (map w es)"
  by (induction es arbitrary: s) (simp_all add: assms add.assoc)

section \<open>Machine integers\<close>

lemma unat_of_nat64 [word_arith]:
  "n < 2 ^ 64 \<Longrightarrow> unat (of_nat n :: 64 word) = n"
  by (simp add: unat_of_nat take_bit_nat_eq_self)

lemma unat_of_nat32 [word_arith]:
  "n < 2 ^ 32 \<Longrightarrow> unat (of_nat n :: 32 word) = n"
  by (simp add: unat_of_nat take_bit_nat_eq_self)

lemma unat_lt64: "unat (w :: 64 word) < 2 ^ 64"
  using unsigned_less [of w] by simp

lemma unat_lt32: "unat (w :: 32 word) < 2 ^ 32"
  using unsigned_less [of w] by simp

lemma unat_minus_one_64: "unat (- 1 :: 64 word) = 2 ^ 64 - 1"
  by (simp add: unsigned_minus_1_eq_mask mask_eq_exp_minus_1)

lemma unat_minus_one_32: "unat (- 1 :: 32 word) = 2 ^ 32 - 1"
  by (simp add: unsigned_minus_1_eq_mask mask_eq_exp_minus_1)

lemma unat_plus_one_le: "unat (w + 1) \<le> Suc (unat w)" for w :: "'a::len word"
proof (cases "1 + w = 0")
  case False
  then show ?thesis using unatSuc [of w] by (simp add: add.commute)
qed (simp add: add.commute)

lemma unat_ucast_32_64 [simp]: "unat (ucast (x :: uint32) :: uint64) = unat x"
proof -
  have "unat x < 2 ^ 64" using unat_lt32 [of x] by simp
  then show ?thesis by (simp add: unsigned_ucast_eq take_bit_nat_eq_self)
qed

lemma ucast_32_64_inject [simp]: "(ucast (x :: uint32) :: uint64) = ucast y \<longleftrightarrow> x = y"
  by (metis unat_ucast_32_64 word_unat_eq_iff)

lemma ucast_down_up [simp]: "ucast (ucast (x :: uint32) :: uint64) = x"
proof -
  have narrow: "unat (ucast y :: uint32) = take_bit 32 (unat y)" for y :: uint64
    by (simp only: unsigned_ucast_eq) (simp add: unsigned_take_bit_eq)
  have "unat (ucast (ucast x :: uint64) :: uint32) = take_bit 32 (unat (ucast x :: uint64))" by (rule narrow)
  also have "\<dots> = unat x" using unat_lt32 [of x] by (simp add: take_bit_nat_eq_self)
  finally show ?thesis by (simp only: word_unat_eq_iff)
qed

lemma ucast_ucast_small:
  assumes "unat (x :: uint64) < 2 ^ 32"
  shows "ucast (ucast x :: uint32) = x"
proof -
  have "unat (ucast x :: uint32) = unat x"
    using assms unfolding unsigned_ucast_eq by (simp add: unsigned_take_bit_eq take_bit_nat_eq_self)
  then show ?thesis by (metis unat_ucast_32_64 word_unat_eq_iff)
qed

section \<open>Association lists\<close>

text \<open>Insertion without overwriting (\<open>unordered_map::emplace\<close>): an existing
  key keeps its entry.\<close>

definition alist_emplace :: "'k \<Rightarrow> 'v \<Rightarrow> ('k \<times> 'v) list \<Rightarrow> ('k \<times> 'v) list" where
  "alist_emplace k v m = (case map_of m k of None \<Rightarrow> m @ [(k, v)] | Some _ \<Rightarrow> m)"

text \<open>Assignment through \<open>operator[]\<close>: an existing key keeps its place.\<close>

abbreviation alist_assign :: "'k \<Rightarrow> 'v \<Rightarrow> ('k \<times> 'v) list \<Rightarrow> ('k \<times> 'v) list" where
  "alist_assign \<equiv> AList.update"

text \<open>Erasure by key.\<close>

abbreviation alist_erase :: "'k \<Rightarrow> ('k \<times> 'v) list \<Rightarrow> ('k \<times> 'v) list" where
  "alist_erase \<equiv> AList.delete"

definition keys :: "('k \<times> 'v) list \<Rightarrow> 'k list" where
  "keys m = map fst m"

lemma keys_simps [simp]:
  "keys [] = []" "keys ((k, v) # m) = k # keys m" "keys (a @ b) = keys a @ keys b"
  by (simp_all add: keys_def)

lemma set_keys: "set (keys m) = dom (map_of m)"
  by (simp add: keys_def dom_map_of_conv_image_fst)

lemma map_of_eq_None_keys: "map_of m k = None \<longleftrightarrow> k \<notin> set (keys m)"
  by (auto simp: set_keys domIff)

lemma map_of_alist_emplace:
  "map_of (alist_emplace k v m) k' =
    (if k' = k \<and> map_of m k = None then Some v else map_of m k')"
  by (auto simp: alist_emplace_def map_add_def split: option.splits)

lemma map_of_alist_erase [simp]:
  "map_of (alist_erase k m) k' = (if k' = k then None else map_of m k')"
  by (simp add: AList.delete_conv')

lemma distinct_keys_emplace [intro]:
  "distinct (keys m) \<Longrightarrow> distinct (keys (alist_emplace k v m))"
  by (auto simp: alist_emplace_def map_of_eq_None_keys split: option.splits)

lemma distinct_keys_erase [intro]:
  "distinct (keys m) \<Longrightarrow> distinct (keys (alist_erase k m))"
  by (simp add: keys_def AList.distinct_delete)

lemma distinct_keys_assign [intro]:
  "distinct (keys m) \<Longrightarrow> distinct (keys (alist_assign k v m))"
  by (simp add: keys_def AList.distinct_update)

lemma keys_erase: "keys (alist_erase k m) = filter (\<lambda>x. x \<noteq> k) (keys m)"
  by (simp add: keys_def AList.delete_keys removeAll_filter_not_eq eq_commute)

lemma set_alist_erase_subset: "set (alist_erase k m) \<subseteq> set m"
  by (auto simp: AList.delete_eq)

lemma alist_update_append: "map_of m k = None \<Longrightarrow> alist_assign k v m = m @ [(k, v)]"
  by (induction m) (auto split: if_splits)

lemma unat_plus_one_less: "(w :: 'a::len word) \<noteq> - 1 \<Longrightarrow> unat w < unat (w + 1)"
proof -
  assume "w \<noteq> - 1"
  then have "1 + w \<noteq> 0" by (metis add_eq_0_iff)
  then show ?thesis using unatSuc [of w] by (simp add: add.commute)
qed

lemma length_erase_present:
  "distinct (keys m) \<Longrightarrow> map_of m k \<noteq> None
    \<Longrightarrow> Suc (length (alist_erase k m)) = length m"
proof (induction m)
  case (Cons p m)
  obtain a b where p: "p = (a, b)" by (cases p)
  show ?case
  proof (cases "a = k")
    case True
    then have "k \<notin> fst ` set m" using Cons.prems(1) by (simp add: p keys_def)
    then show ?thesis using True by (simp add: p AList.delete_notin_dom)
  next
    case False
    then show ?thesis using Cons by (simp add: p)
  qed
qed simp

end
