(* ===== verification/Toml.thy ===== *)
theory Toml
  imports Prelude "HOL-Library.Monad_Syntax"
begin

text \<open>
  The configuration reader: string helpers, TOML parser and accessors of
  lib/inc/config/runTime and lib/inc/config/compileTime, and the server's
  \<open>NetworkCfg\<close> (network/inc/config/NetworkCfg.h).

  A \<open>std::string\<close> or \<open>string_view\<close> is a list of characters.  Signed overflow is
  undefined in C++, so an integer parse is a value of type \<open>'a may_ub\<close>: \<open>None\<close>
  when the accumulation overflows, \<open>Some r\<close> when the function returns \<open>r\<close>.
  \<open>int\<close> and (on Windows) \<open>long\<close> have 32 bits.
\<close>

type_synonym 'a may_ub = "'a option"

definition CPP_INT_MAX :: int where "CPP_INT_MAX = 2147483647"

section \<open>Run-time string helpers\<close>

definition IsWhitespace :: "char \<Rightarrow> bool" where
  "IsWhitespace c = (c = CHR '' '' \<or> c = CHR 0x09 \<or> c = CHR 0x0D \<or> c = CHR 0x0A)"

definition IsDigit :: "char \<Rightarrow> bool" where
  "IsDigit c = (c \<in> set ''0123456789'')"

definition digit_value :: "char \<Rightarrow> int" where
  "digit_value c = int (of_char c) - 48"

definition TrimLeft :: "string \<Rightarrow> string" where
  "TrimLeft s = dropWhile IsWhitespace s"

definition TrimRight :: "string \<Rightarrow> string" where
  "TrimRight s = rev (dropWhile IsWhitespace (rev s))"

definition Trim :: "string \<Rightarrow> string" where
  "Trim s = TrimRight (TrimLeft s)"

fun Find :: "string \<Rightarrow> char \<Rightarrow> nat option" where
  "Find [] c = None"
| "Find (x # xs) c = (if x = c then Some 0 else map_option Suc (Find xs c))"

definition StartsWith :: "string \<Rightarrow> string \<Rightarrow> bool" where
  "StartsWith s pre = (if length pre > length s then False else take (length pre) s = pre)"

text \<open>The accumulation loop of \<open>ParseInt\<close> and \<open>ParseLong\<close>.\<close>

fun parse_digits :: "int \<Rightarrow> string \<Rightarrow> int option may_ub" where
  "parse_digits acc [] = Some (Some acc)"
| "parse_digits acc (c # cs) =
     (if \<not> IsDigit c then Some None
      else if acc * 10 + digit_value c > CPP_INT_MAX then None
      else parse_digits (acc * 10 + digit_value c) cs)"

definition ParseInt :: "string \<Rightarrow> int option may_ub" where
  "ParseInt str0 =
     (let str = Trim str0 in
      if str = [] then Some None
      else
        let negative = (hd str = CHR ''-'');
            start = (if hd str = CHR ''-'' \<or> hd str = CHR ''+'' then 1 else 0)
        in if start \<ge> length str then Some None
           else map_option (map_option (\<lambda>result. if negative then - result else result))
                  (parse_digits 0 (drop start str)))"

definition ParseLong :: "string \<Rightarrow> int option may_ub" where
  "ParseLong str0 =
     (let str = Trim str0 in
      if str = [] then Some None
      else
        let negative = (hd str = CHR ''-'');
            start = (if hd str = CHR ''-'' \<or> hd str = CHR ''+'' then 1 else 0)
        in if start \<ge> length str then Some None
           else map_option (map_option (\<lambda>result. if negative then - result else result))
                  (parse_digits 0 (drop start str)))"

definition ParseBool :: "string \<Rightarrow> bool option" where
  "ParseBool str0 =
     (let str = Trim str0 in
      if str = ''true'' then Some True else if str = ''false'' then Some False else None)"

definition Unquote :: "string \<Rightarrow> string" where
  "Unquote str0 =
     (let str = Trim str0 in
      if length str \<ge> 2
         \<and> ((hd str = CHR 0x22 \<and> last str = CHR 0x22) \<or> (hd str = CHR 0x27 \<and> last str = CHR 0x27))
      then take (length str - 2) (drop 1 str) else str)"

section \<open>Entries and the parser\<close>

datatype TomlValueType = TString | TInteger | TBoolean

record TomlEntry =
  te_section :: string
  te_key :: string
  te_value :: string
  te_ioType :: TomlValueType

definition Matches :: "string \<Rightarrow> string \<Rightarrow> TomlEntry \<Rightarrow> bool" where
  "Matches sec k e = (te_section e = sec \<and> te_key e = k)"

definition MatchesFullKey :: "string \<Rightarrow> TomlEntry \<Rightarrow> bool" where
  "MatchesFullKey fullKey e =
     (case Find fullKey (CHR ''.'') of
        None \<Rightarrow> te_section e = [] \<and> te_key e = fullKey
      | Some dotPos \<Rightarrow> Matches (take dotPos fullKey) (drop (dotPos + 1) fullKey) e)"

type_synonym TomlParseResult = "TomlEntry list"

definition FindString :: "string \<Rightarrow> TomlParseResult \<Rightarrow> string option" where
  "FindString fullKey es = map_option (\<lambda>e. Unquote (te_value e)) (find (MatchesFullKey fullKey) es)"

definition FindInt :: "string \<Rightarrow> TomlParseResult \<Rightarrow> int option may_ub" where
  "FindInt fullKey es =
     (case find (MatchesFullKey fullKey) es of None \<Rightarrow> Some None | Some e \<Rightarrow> ParseInt (te_value e))"

definition FindLong :: "string \<Rightarrow> TomlParseResult \<Rightarrow> int option may_ub" where
  "FindLong fullKey es =
     (case find (MatchesFullKey fullKey) es of None \<Rightarrow> Some None | Some e \<Rightarrow> ParseLong (te_value e))"

definition FindBool :: "string \<Rightarrow> TomlParseResult \<Rightarrow> bool option" where
  "FindBool fullKey es =
     (case find (MatchesFullKey fullKey) es of None \<Rightarrow> None | Some e \<Rightarrow> ParseBool (te_value e))"

definition ParseSection :: "string \<Rightarrow> string" where
  "ParseSection line =
     (if length line < 3 \<or> hd line \<noteq> CHR ''['' then []
      else case Find line (CHR '']'') of
        None \<Rightarrow> []
      | Some closeBracket \<Rightarrow> Trim (take (closeBracket - 1) (drop 1 line)))"

definition value_type :: "string \<Rightarrow> TomlValueType" where
  "value_type v =
     (if v = ''true'' \<or> v = ''false'' then TBoolean
      else if v \<noteq> [] \<and> (IsDigit (hd v) \<or> hd v = CHR ''-'' \<or> hd v = CHR ''+'') then TInteger
      else TString)"

definition ParseKeyValue :: "string \<Rightarrow> string \<Rightarrow> TomlEntry option" where
  "ParseKeyValue line currentSection =
     (case Find line (CHR ''='') of
        None \<Rightarrow> None
      | Some eqPos \<Rightarrow>
          let key = Trim (take eqPos line);
              value0 = Trim (drop (eqPos + 1) line);
              v = (case Find value0 (CHR ''#'') of None \<Rightarrow> value0 | Some commentPos \<Rightarrow> Trim (take commentPos value0))
          in Some \<lparr>te_section = currentSection, te_key = key, te_value = v, te_ioType = value_type v\<rparr>)"

text \<open>One line: the new section and the entry it yields, if any.\<close>

definition parse_line :: "string \<Rightarrow> string \<Rightarrow> string \<times> TomlEntry option" where
  "parse_line currentSection rawLine =
     (let noCr = (if rawLine \<noteq> [] \<and> last rawLine = CHR 0x0D then butlast rawLine else rawLine);
          line = Trim noCr
      in if line \<noteq> [] \<and> hd line \<noteq> CHR ''#'' then
           if hd line = CHR ''['' then (ParseSection line, None)
           else (currentSection, ParseKeyValue line currentSection)
         else (currentSection, None))"

function parse_lines :: "string \<Rightarrow> TomlEntry list \<Rightarrow> string \<Rightarrow> TomlEntry list" where
  "parse_lines sec acc content =
     (if content = [] then acc
      else
        let rawLine = takeWhile (\<lambda>c. c \<noteq> CHR 0x0A) content;
            rest = drop (length rawLine + 1) content;
            (sec', entry) = parse_line sec rawLine
        in parse_lines sec' (acc @ (case entry of None \<Rightarrow> [] | Some e \<Rightarrow> [e])) rest)"
  by pat_completeness auto
termination
  by (relation "measure (\<lambda>(sec, acc, content). length content)") auto

declare parse_lines.simps [simp del]

definition Parse :: "string \<Rightarrow> TomlParseResult" where
  "Parse content = parse_lines [] [] content"

section \<open>Config\<close>

record Config =
  cfg_result :: TomlParseResult

text \<open>\<open>content\<close> is the text of the file, or \<open>None\<close> when it cannot be opened.\<close>

definition Config_FromFile :: "string option \<Rightarrow> Config option" where
  "Config_FromFile content = map_option (\<lambda>c. \<lparr>cfg_result = Parse c\<rparr>) content"

definition Config_FromString :: "string \<Rightarrow> Config" where
  "Config_FromString content = \<lparr>cfg_result = Parse content\<rparr>"

definition Reload :: "string option \<Rightarrow> Config \<Rightarrow> bool \<times> Config" where
  "Reload content cfg =
     (case Config_FromFile content of
        None \<Rightarrow> (False, cfg)
      | Some newConfig \<Rightarrow> (True, cfg\<lparr>cfg_result := cfg_result newConfig\<rparr>))"

text \<open>\<open>env\<close> is the environment: the value of a variable, empty when unset.
  \<open>value_or\<close> the default.\<close>

type_synonym environment = "string \<Rightarrow> string"

definition Config_Str :: "environment \<Rightarrow> string \<Rightarrow> string \<Rightarrow> string option \<Rightarrow> Config \<Rightarrow> string" where
  "Config_Str env key defaultValue envVar cfg =
     (let e = (case envVar of None \<Rightarrow> [] | Some v \<Rightarrow> env v) in
      if e \<noteq> [] then e
      else case FindString key (cfg_result cfg) of None \<Rightarrow> defaultValue | Some v \<Rightarrow> v)"

text \<open>The shape \<open>Int\<close>, \<open>Long\<close> and \<open>Bool\<close> share: an environment value that
  parses wins, then the file, then the default.\<close>

definition lookup_with ::
  "(string \<Rightarrow> 'v option may_ub) \<Rightarrow> (string \<Rightarrow> TomlParseResult \<Rightarrow> 'v option may_ub)
    \<Rightarrow> environment \<Rightarrow> string \<Rightarrow> 'v \<Rightarrow> string option \<Rightarrow> Config \<Rightarrow> 'v may_ub" where
  "lookup_with parse look env key defaultValue envVar cfg =
     (let e = (case envVar of None \<Rightarrow> [] | Some v \<Rightarrow> env v);
          file = map_option (\<lambda>v. case v of None \<Rightarrow> defaultValue | Some x \<Rightarrow> x) (look key (cfg_result cfg))
      in if e \<noteq> [] then
           (case parse e of
              None \<Rightarrow> None
            | Some (Some x) \<Rightarrow> Some x
            | Some None \<Rightarrow> file)
         else file)"

definition Config_Int :: "environment \<Rightarrow> string \<Rightarrow> int \<Rightarrow> string option \<Rightarrow> Config \<Rightarrow> int may_ub" where
  "Config_Int = lookup_with ParseInt FindInt"

definition Config_Long :: "environment \<Rightarrow> string \<Rightarrow> int \<Rightarrow> string option \<Rightarrow> Config \<Rightarrow> int may_ub" where
  "Config_Long = lookup_with ParseLong FindLong"

definition Config_Bool :: "environment \<Rightarrow> string \<Rightarrow> bool \<Rightarrow> string option \<Rightarrow> Config \<Rightarrow> bool may_ub" where
  "Config_Bool = lookup_with (\<lambda>s. Some (ParseBool s)) (\<lambda>k r. Some (FindBool k r))"

definition EntryCount :: "Config \<Rightarrow> nat" where
  "EntryCount cfg = length (cfg_result cfg)"

definition IsLoaded :: "Config \<Rightarrow> bool" where
  "IsLoaded cfg = (length (cfg_result cfg) > 0)"

section \<open>NetworkCfg\<close>

record NetworkCfg =
  nc_port :: int
  nc_maxClients :: int
  nc_backlog :: int
  nc_tickMs :: int
  nc_maxCapacity :: int
  nc_maxWorkerThreadMultiplier :: int
  nc_maxAcceptorThreadCount :: int
  nc_desirableIocpThreadCount :: int

definition WithDefaults :: NetworkCfg where
  "WithDefaults =
     \<lparr>nc_port = 8080, nc_maxClients = 1000, nc_backlog = 10, nc_tickMs = 16,
      nc_maxCapacity = 100,
      nc_maxWorkerThreadMultiplier = 2, nc_maxAcceptorThreadCount = 2, nc_desirableIocpThreadCount = - 1\<rparr>"

definition FromCfg :: "environment \<Rightarrow> Config \<Rightarrow> NetworkCfg may_ub" where
  "FromCfg env cfg = do {
     port \<leftarrow> Config_Int env ''server.port'' 8080 (Some ''SERVER_PORT'') cfg;
     maxClients \<leftarrow> Config_Int env ''server.max_clients'' 1000 (Some ''SERVER_MAX_CLIENTS'') cfg;
     backlog \<leftarrow> Config_Int env ''server.backlog'' 10 (Some ''SERVER_BACKLOG'') cfg;
     tickMs \<leftarrow> Config_Int env ''server.tick_ms'' 16 (Some ''SERVER_TICK_MS'') cfg;
     maxCapacity \<leftarrow> Config_Int env ''room.max_capacity'' 100 (Some ''ROOM_MAX_CAPACITY'') cfg;
     multiplier \<leftarrow> Config_Int env ''thread.max_worker_thread_multiplier'' 2
       (Some ''THREAD_MAX_WORKER_THREAD_MULTIPLIER'') cfg;
     acceptors \<leftarrow> Config_Int env ''thread.max_acceptor_thread_count'' 2
       (Some ''THREAD_MAX_ACCEPTOR_THREAD_COUNT'') cfg;
     iocp \<leftarrow> Config_Int env ''thread.desirable_iocp_thread_count'' (- 1)
       (Some ''THREAD_DESIRABLE_IOCP_THREAD_COUNT'') cfg;
     Some \<lparr>nc_port = port, nc_maxClients = maxClients, nc_backlog = backlog, nc_tickMs = tickMs,
           nc_maxCapacity = maxCapacity, nc_maxWorkerThreadMultiplier = multiplier,
           nc_maxAcceptorThreadCount = acceptors, nc_desirableIocpThreadCount = iocp\<rparr>
   }"

text \<open>\<open>FromFile\<close> throws when the file cannot be read (\<open>Inl\<close>).\<close>

datatype config_error = ConfigFileNotLoaded

definition NetworkCfg_FromFile :: "environment \<Rightarrow> string option \<Rightarrow> config_error + NetworkCfg may_ub" where
  "NetworkCfg_FromFile env content =
     (case Config_FromFile content of
        None \<Rightarrow> Inl ConfigFileNotLoaded
      | Some cfg \<Rightarrow> Inr (FromCfg env cfg))"

section \<open>Integers: parsing inverts printing\<close>

definition all_ws :: "string \<Rightarrow> bool" where
  "all_ws s = list_all IsWhitespace s"

definition trimmed :: "string \<Rightarrow> bool" where
  "trimmed s = (s = [] \<or> \<not> IsWhitespace (hd s) \<and> \<not> IsWhitespace (last s))"

lemma Trim_pad:
  assumes "all_ws w1" and "all_ws w2" and "trimmed s"
  shows "Trim (w1 @ s @ w2) = s"
proof -
  have 1: "dropWhile IsWhitespace (w1 @ r) = dropWhile IsWhitespace r" for r
    using assms(1) by (simp add: all_ws_def list_all_iff dropWhile_append2)
  have 2: "dropWhile IsWhitespace (rev w2 @ r) = dropWhile IsWhitespace r" for r
    using assms(2) by (intro dropWhile_append2) (simp add: all_ws_def list_all_iff)
  show ?thesis
  proof (cases s)
    case Nil
    then show ?thesis
      using assms(2) 1 [of w2]
      by (auto simp: Trim_def TrimLeft_def TrimRight_def all_ws_def list_all_iff dest: set_dropWhileD)
  next
    case (Cons a r)
    then have "dropWhile IsWhitespace (s @ w2) = s @ w2" using assms(3) by (simp add: trimmed_def)
    moreover have "dropWhile IsWhitespace (rev s) = rev s"
      using assms(3) Cons by (simp add: dropWhile_eq_self_iff hd_rev trimmed_def del: rev.simps)
    ultimately show ?thesis
      by (simp add: Trim_def TrimLeft_def TrimRight_def 1 2)
  qed
qed

lemma Trim_trimmed: "trimmed s \<Longrightarrow> Trim s = s"
  using Trim_pad [of "[]" "[]" s] by (simp add: all_ws_def)

definition digits_value :: "int \<Rightarrow> string \<Rightarrow> int" where
  "digits_value acc ds = foldl (\<lambda>a c. a * 10 + digit_value c) acc ds"

lemma IsDigit_value: "IsDigit c \<Longrightarrow> 0 \<le> digit_value c \<and> digit_value c \<le> 9"
  by (auto simp: IsDigit_def digit_value_def)

lemma IsDigit_not_ws: "IsDigit c \<Longrightarrow> \<not> IsWhitespace c \<and> c \<noteq> CHR ''-'' \<and> c \<noteq> CHR ''+''"
  by (auto simp: IsDigit_def IsWhitespace_def)

lemma digits_value_ge: "0 \<le> acc \<Longrightarrow> list_all IsDigit ds \<Longrightarrow> acc \<le> digits_value acc ds"
proof (induction ds arbitrary: acc)
  case (Cons c ds)
  have "acc \<le> acc * 10 + digit_value c" using Cons.prems IsDigit_value [of c] by simp
  then show ?case
    using Cons.IH [of "acc * 10 + digit_value c"] Cons.prems by (simp add: digits_value_def)
qed (simp add: digits_value_def)

lemma parse_digits_exact:
  "0 \<le> acc \<Longrightarrow> acc \<le> CPP_INT_MAX \<Longrightarrow> list_all IsDigit ds \<Longrightarrow>
   parse_digits acc ds = (if digits_value acc ds \<le> CPP_INT_MAX then Some (Some (digits_value acc ds)) else None)"
proof (induction ds arbitrary: acc)
  case (Cons c ds)
  let ?a = "acc * 10 + digit_value c"
  have a: "0 \<le> ?a" "list_all IsDigit ds" using Cons.prems IsDigit_value [of c] by auto
  show ?case
  proof (cases "?a > CPP_INT_MAX")
    case True
    then show ?thesis
      using Cons.prems digits_value_ge [OF a] by (auto simp: digits_value_def)
  next
    case False
    then show ?thesis using Cons.IH [OF a(1) _ a(2)] Cons.prems by (simp add: digits_value_def)
  qed
qed (simp add: digits_value_def)

lemma ParseInt_digits:
  assumes "all_ws w1" and "all_ws w2" and "ds \<noteq> []" and "list_all IsDigit ds" and "sign \<in> {[], ''-'', ''+''}"
  shows "ParseInt (w1 @ (sign @ ds) @ w2) =
    (if digits_value 0 ds \<le> CPP_INT_MAX
     then Some (Some (if sign = ''-'' then - digits_value 0 ds else digits_value 0 ds)) else None)"
proof -
  have d: "IsDigit (hd ds)" "IsDigit (last ds)" using assms(3,4) by (auto simp: list_all_iff)
  then have "trimmed (sign @ ds)"
    using assms(3,5) IsDigit_not_ws by (auto simp: trimmed_def IsWhitespace_def)
  then have "Trim (w1 @ (sign @ ds) @ w2) = sign @ ds" by (rule Trim_pad [OF assms(1,2)])
  moreover have "hd ds \<noteq> CHR ''-''" "hd ds \<noteq> CHR ''+''" using IsDigit_not_ws [OF d(1)] by auto
  moreover have "parse_digits 0 ds = (if digits_value 0 ds \<le> CPP_INT_MAX then Some (Some (digits_value 0 ds)) else None)"
    using assms(4) by (intro parse_digits_exact) (simp_all add: CPP_INT_MAX_def)
  ultimately show ?thesis
    using assms(3,5) by (auto simp: ParseInt_def Let_def)
qed

text \<open>Printing.\<close>

fun render_nat :: "nat \<Rightarrow> string" where
  "render_nat n = (if n < 10 then [''0123456789'' ! n]
                   else render_nat (n div 10) @ [''0123456789'' ! (n mod 10)])"

declare render_nat.simps [simp del]

definition render_int :: "int \<Rightarrow> string" where
  "render_int n = (if n < 0 then CHR ''-'' # render_nat (nat (- n)) else render_nat (nat n))"

lemma digit_char: "d < 10 \<Longrightarrow> IsDigit (''0123456789'' ! d) \<and> digit_value (''0123456789'' ! d) = int d"
proof -
  assume "d < 10"
  then have "d \<in> {0, 1, 2, 3, 4, 5, 6, 7, 8, 9}" by auto
  then show ?thesis by (auto simp: IsDigit_def digit_value_def)
qed

lemma render_nat_digits: "list_all IsDigit (render_nat n) \<and> render_nat n \<noteq> [] \<and> digits_value 0 (render_nat n) = int n"
proof (induction n rule: render_nat.induct)
  case (1 n)
  show ?case
  proof (cases "n < 10")
    case True
    then show ?thesis using digit_char [of n] by (simp add: render_nat.simps [of n] digits_value_def)
  next
    case False
    have "n mod 10 < 10" by simp
    then show ?thesis
      using 1 [OF False] digit_char [of "n mod 10"] False
      by (simp add: render_nat.simps [of n] digits_value_def) (simp add: zdiv_int zmod_int)
  qed
qed

text \<open>Reading a number back.  The decimal text of \<open>n\<close>, with any white space
  around it, is parsed to \<open>n\<close> whenever the magnitude of \<open>n\<close> is at most
  \<open>INT_MAX\<close>; for larger magnitudes (\<open>INT_MIN\<close> included, since the digits are
  accumulated as a positive number) the accumulation overflows, which is
  undefined behaviour: the function has no overflow check.\<close>

theorem ParseInt_render:
  assumes "all_ws w1" and "all_ws w2"
  shows "ParseInt (w1 @ render_int n @ w2) = (if \<bar>n\<bar> \<le> CPP_INT_MAX then Some (Some n) else None)"
proof (cases "n < 0")
  case True
  then show ?thesis
    using ParseInt_digits [OF assms, of "render_nat (nat (- n))" "''-''"] render_nat_digits [of "nat (- n)"]
    by (simp add: render_int_def)
next
  case False
  then show ?thesis
    using ParseInt_digits [OF assms, of "render_nat (nat n)" "[]"] render_nat_digits [of "nat n"]
    by (simp add: render_int_def)
qed

lemma ParseInt_render_witness: "ParseInt ('' '' @ render_int 8080 @ ''  '') = Some (Some 8080)"
  using ParseInt_render [of "'' ''" "''  ''" 8080] by (simp add: all_ws_def IsWhitespace_def CPP_INT_MAX_def)

section \<open>Documents: parsing inverts printing\<close>

text \<open>A document: sections with their keys and values, printed the way the
  repository's configuration files are written.\<close>

type_synonym toml_doc = "(string \<times> (string \<times> string) list) list"

definition render_entry :: "string \<times> string \<Rightarrow> string" where
  "render_entry kv = fst kv @ '' = '' @ snd kv @ [CHR 0x0A]"

definition render_section :: "string \<times> (string \<times> string) list \<Rightarrow> string" where
  "render_section sec = ''['' @ fst sec @ '']'' @ [CHR 0x0A] @ concat (map render_entry (snd sec))"

definition render_doc :: "toml_doc \<Rightarrow> string" where
  "render_doc doc = concat (map render_section doc)"

definition entry_of :: "string \<Rightarrow> string \<times> string \<Rightarrow> TomlEntry" where
  "entry_of sec kv = \<lparr>te_section = sec, te_key = fst kv, te_value = snd kv, te_ioType = value_type (snd kv)\<rparr>"

definition wf_section_name :: "string \<Rightarrow> bool" where
  "wf_section_name n \<longleftrightarrow> trimmed n \<and> CHR '']'' \<notin> set n \<and> CHR 0x0A \<notin> set n"

definition wf_entry :: "string \<times> string \<Rightarrow> bool" where
  "wf_entry kv \<longleftrightarrow> fst kv \<noteq> [] \<and> trimmed (fst kv) \<and> hd (fst kv) \<notin> {CHR ''#'', CHR ''[''}
     \<and> CHR ''='' \<notin> set (fst kv) \<and> CHR 0x0A \<notin> set (fst kv)
     \<and> snd kv \<noteq> [] \<and> trimmed (snd kv) \<and> CHR ''#'' \<notin> set (snd kv) \<and> CHR 0x0A \<notin> set (snd kv)"

lemma Find_append: "c \<notin> set xs \<Longrightarrow> Find (xs @ c # ys) c = Some (length xs)"
  by (induction xs) auto

lemma Find_None: "Find xs c = None \<longleftrightarrow> c \<notin> set xs"
  by (induction xs) auto

lemma parse_lines_line:
  assumes "CHR 0x0A \<notin> set line"
  shows "parse_lines sec acc (line @ CHR 0x0A # rest) =
    (case parse_line sec line of (sec', entry) \<Rightarrow>
       parse_lines sec' (acc @ (case entry of None \<Rightarrow> [] | Some e \<Rightarrow> [e])) rest)"
proof -
  have "takeWhile (\<lambda>c. c \<noteq> CHR 0x0A) (line @ CHR 0x0A # rest) = line"
    using assms by (induction line) auto
  then show ?thesis by (subst parse_lines.simps) (simp add: Let_def)
qed

lemma parse_line_trimmed:
  assumes "trimmed line" and "line \<noteq> []" and "hd line \<noteq> CHR ''#''"
  shows "parse_line sec line =
    (if hd line = CHR ''['' then (ParseSection line, None) else (sec, ParseKeyValue line sec))"
proof -
  have "last line \<noteq> CHR 0x0D" using assms(1,2) by (auto simp: trimmed_def IsWhitespace_def)
  then show ?thesis using assms by (simp add: parse_line_def Let_def Trim_trimmed)
qed

lemma parse_line_section:
  assumes "wf_section_name n"
  shows "parse_line sec (''['' @ n @ '']'') = (n, None)"
proof -
  let ?line = "''['' @ n @ '']''"
  have "trimmed ?line" by (simp add: trimmed_def IsWhitespace_def)
  moreover have "Find ?line (CHR '']'') = Some (Suc (length n))"
    using assms Find_append [of "CHR '']''" "''['' @ n" "[]"] by (simp add: wf_section_name_def)
  ultimately show ?thesis
    using assms parse_line_trimmed [of ?line sec]
    by (auto simp: ParseSection_def wf_section_name_def Trim_trimmed)
qed

lemma parse_line_entry:
  assumes "wf_entry (k, v)"
  shows "parse_line sec (k @ '' = '' @ v) = (sec, Some (entry_of sec (k, v)))"
proof -
  let ?line = "k @ '' = '' @ v"
  have wf: "k \<noteq> []" "trimmed k" "hd k \<noteq> CHR ''#''" "hd k \<noteq> CHR ''[''" "CHR ''='' \<notin> set k"
      "v \<noteq> []" "trimmed v" "CHR ''#'' \<notin> set v"
    using assms by (auto simp: wf_entry_def)
  have t: "trimmed ?line" using wf by (auto simp: trimmed_def)
  have f: "Find ?line (CHR ''='') = Some (Suc (length k))"
    using Find_append [of "CHR ''=''" "k @ '' ''" "'' '' @ v"] wf by simp
  have "Trim (k @ '' '') = k" "Trim ('' '' @ v) = v"
    using Trim_pad [of "[]" "'' ''" k] Trim_pad [of "'' ''" "[]" v] wf
    by (simp_all add: all_ws_def IsWhitespace_def)
  then have "ParseKeyValue ?line sec = Some (entry_of sec (k, v))"
    using f wf by (simp add: ParseKeyValue_def entry_of_def Let_def Find_None [THEN iffD2])
  then show ?thesis using parse_line_trimmed [OF t, of sec] wf by simp
qed

lemma parse_lines_entries:
  assumes "\<forall>kv \<in> set kvs. wf_entry kv"
  shows "parse_lines sec acc (concat (map render_entry kvs) @ rest) = parse_lines sec (acc @ map (entry_of sec) kvs) rest"
  using assms
proof (induction kvs arbitrary: acc)
  case (Cons kv kvs)
  obtain k v where kv: "kv = (k, v)" by (cases kv)
  have wf: "wf_entry (k, v)" using Cons.prems kv by simp
  then have "CHR 0x0A \<notin> set (k @ '' = '' @ v)" by (simp add: wf_entry_def)
  from parse_lines_line [OF this, of sec acc "concat (map render_entry kvs) @ rest"]
  show ?case
    using Cons.IH [of "acc @ [entry_of sec (k, v)]"] Cons.prems parse_line_entry [OF wf, of sec]
    by (simp add: kv render_entry_def [of "(k, v)"])
qed simp

lemma parse_lines_doc:
  assumes "\<forall>(n, kvs) \<in> set doc. wf_section_name n \<and> (\<forall>kv \<in> set kvs. wf_entry kv)"
  shows "parse_lines sec acc (render_doc doc) =
    acc @ concat (map (\<lambda>(n, kvs). map (entry_of n) kvs) doc)"
  using assms
proof (induction doc arbitrary: sec acc)
  case Nil
  then show ?case by (simp add: render_doc_def parse_lines.simps)
next
  case (Cons d doc)
  obtain n kvs where d: "d = (n, kvs)" by (cases d)
  have wf: "wf_section_name n" "\<forall>kv \<in> set kvs. wf_entry kv" using Cons.prems d by auto
  then have "CHR 0x0A \<notin> set (''['' @ n @ '']'')" by (simp add: wf_section_name_def)
  from parse_lines_line [OF this, of sec acc "concat (map render_entry kvs) @ render_doc doc"]
  show ?case
    using Cons.IH [of n "acc @ map (entry_of n) kvs"] Cons.prems parse_line_section [OF wf(1), of sec]
      parse_lines_entries [OF wf(2), of n acc "render_doc doc"]
    by (simp add: d render_doc_def render_section_def [of "(n, kvs)"])
qed

text \<open>The parser inverts printing: a document whose section names, keys and
  values contain none of the delimiters that end them parses to exactly its
  entries, in order, each under its section and with the type its value has.\<close>

theorem Parse_render:
  assumes "\<forall>(n, kvs) \<in> set doc. wf_section_name n \<and> (\<forall>kv \<in> set kvs. wf_entry kv)"
  shows "Parse (render_doc doc) = concat (map (\<lambda>(n, kvs). map (entry_of n) kvs) doc)"
  unfolding Parse_def using parse_lines_doc [OF assms] by simp

lemma Parse_render_witness:
  "Parse (render_doc [(''server'', [(''port'', ''8080'')])]) =
    [\<lparr>te_section = ''server'', te_key = ''port'', te_value = ''8080'', te_ioType = TInteger\<rparr>]"
  using Parse_render [of "[(''server'', [(''port'', ''8080'')])]"]
  by (simp add: wf_section_name_def wf_entry_def trimmed_def IsWhitespace_def entry_of_def value_type_def
        IsDigit_def)

section \<open>The server configuration\<close>

definition doc_of :: "NetworkCfg \<Rightarrow> toml_doc" where
  "doc_of c =
     [(''server'', [(''port'', render_int (nc_port c)), (''max_clients'', render_int (nc_maxClients c)),
                    (''backlog'', render_int (nc_backlog c)), (''tick_ms'', render_int (nc_tickMs c))]),
      (''room'', [(''max_capacity'', render_int (nc_maxCapacity c))]),
      (''thread'', [(''max_worker_thread_multiplier'', render_int (nc_maxWorkerThreadMultiplier c)),
                    (''max_acceptor_thread_count'', render_int (nc_maxAcceptorThreadCount c)),
                    (''desirable_iocp_thread_count'', render_int (nc_desirableIocpThreadCount c))])]"

definition cfg_ints :: "NetworkCfg \<Rightarrow> int list" where
  "cfg_ints c = [nc_port c, nc_maxClients c, nc_backlog c, nc_tickMs c, nc_maxCapacity c,
     nc_maxWorkerThreadMultiplier c, nc_maxAcceptorThreadCount c, nc_desirableIocpThreadCount c]"

lemma render_int_chars:
  "render_int n \<noteq> [] \<and> trimmed (render_int n) \<and> CHR ''#'' \<notin> set (render_int n) \<and> CHR 0x0A \<notin> set (render_int n)"
proof -
  have d: "list_all IsDigit (render_nat k)" "render_nat k \<noteq> []" for k
    using render_nat_digits by auto
  have "IsDigit (hd (render_nat k))" "IsDigit (last (render_nat k))" for k
    using d [of k] by (auto simp: list_all_iff)
  moreover have "\<not> IsDigit (CHR ''#'')" "\<not> IsDigit (CHR 0x0A)" by (simp_all add: IsDigit_def)
  then have "CHR ''#'' \<notin> set (render_nat k)" "CHR 0x0A \<notin> set (render_nat k)" for k
    using d(1) [of k] unfolding list_all_iff by blast+
  ultimately show ?thesis
    using d(2) IsDigit_not_ws by (auto simp: render_int_def trimmed_def IsWhitespace_def)
qed

lemma wf_int_entry:
  "wf_entry (k, render_int n) \<longleftrightarrow> k \<noteq> [] \<and> trimmed k \<and> hd k \<notin> {CHR ''#'', CHR ''[''}
     \<and> CHR ''='' \<notin> set k \<and> CHR 0x0A \<notin> set k"
  using render_int_chars by (auto simp: wf_entry_def)

lemma ParseInt_plain: "\<bar>n\<bar> \<le> CPP_INT_MAX \<Longrightarrow> ParseInt (render_int n) = Some (Some n)"
proof -
  have "ParseInt ([] @ ((if n < 0 then ''-'' else []) @ render_nat (nat \<bar>n\<bar>)) @ []) =
      (if int (nat \<bar>n\<bar>) \<le> CPP_INT_MAX then Some (Some n) else None)"
    using ParseInt_digits [of "[]" "[]" "render_nat (nat \<bar>n\<bar>)" "if n < 0 then ''-'' else []"]
      render_nat_digits [of "nat \<bar>n\<bar>"]
    by (auto simp: all_ws_def)
  moreover assume "\<bar>n\<bar> \<le> CPP_INT_MAX"
  ultimately show ?thesis by (auto simp: render_int_def split: if_splits)
qed

lemma Parse_doc_of:
  "Parse (render_doc (doc_of c)) = concat (map (\<lambda>(n, kvs). map (entry_of n) kvs) (doc_of c))"
proof -
  have "\<forall>(n, kvs) \<in> set (doc_of c). wf_section_name n \<and> (\<forall>kv \<in> set kvs. wf_entry kv)"
    by (simp add: doc_of_def wf_int_entry wf_section_name_def trimmed_def IsWhitespace_def)
  then show ?thesis unfolding Parse_def using parse_lines_doc by simp
qed

lemma Config_Int_file:
  assumes "find (MatchesFullKey key) es = Some (entry_of sec (k, render_int n))" and "\<bar>n\<bar> \<le> CPP_INT_MAX"
  shows "Config_Int (\<lambda>_. []) key d v \<lparr>cfg_result = es\<rparr> = Some n"
  using assms ParseInt_plain [OF assms(2)]
  by (simp add: Config_Int_def lookup_with_def FindInt_def entry_of_def split: option.splits)

text \<open>C30: the configuration that is written is the configuration that is read:
  for every setting of the eight values (within \<open>int\<close>), loading the printed
  file with no environment overrides yields exactly those values; an empty file
  yields the defaults; a missing file is an error and never a default.\<close>

theorem NetworkCfg_round_trip:
  assumes "\<forall>n \<in> set (cfg_ints c). \<bar>n\<bar> \<le> CPP_INT_MAX"
  shows "NetworkCfg_FromFile (\<lambda>_. []) (Some (render_doc (doc_of c))) = Inr (Some c)
    \<and> NetworkCfg_FromFile (\<lambda>_. []) (Some []) = Inr (Some WithDefaults)
    \<and> NetworkCfg_FromFile env None = Inl ConfigFileNotLoaded"
proof -
  let ?cfg = "\<lparr>cfg_result = Parse (render_doc (doc_of c))\<rparr>"
  have look: "Config_Int (\<lambda>_. []) key d v ?cfg = Some n"
    if "find (MatchesFullKey key) (concat (map (\<lambda>(n, kvs). map (entry_of n) kvs) (doc_of c)))
          = Some (entry_of sec (k, render_int n))" "n \<in> set (cfg_ints c)" for key d v sec k n
    using that assms unfolding Parse_doc_of by (intro Config_Int_file) auto
  have f: "MatchesFullKey key (entry_of sec kv) \<longleftrightarrow>
      (case Find key (CHR ''.'') of None \<Rightarrow> sec = [] \<and> fst kv = key
       | Some p \<Rightarrow> sec = take p key \<and> fst kv = drop (p + 1) key)" for key sec kv
    by (simp add: MatchesFullKey_def Matches_def entry_of_def split: option.splits)
  have "FromCfg (\<lambda>_. []) ?cfg = Some c"
    unfolding FromCfg_def
    by (subst look, simp add: doc_of_def f, simp add: cfg_ints_def)+ simp
  moreover have "FromCfg (\<lambda>_. []) \<lparr>cfg_result = []\<rparr> = Some WithDefaults"
    by (simp add: FromCfg_def Config_Int_def lookup_with_def FindInt_def WithDefaults_def)
  ultimately show ?thesis
    by (simp add: NetworkCfg_FromFile_def Config_FromFile_def Parse_def parse_lines.simps)
qed

lemma NetworkCfg_round_trip_witness:
  "NetworkCfg_FromFile (\<lambda>_. []) (Some (render_doc (doc_of WithDefaults))) = Inr (Some WithDefaults)"
  using NetworkCfg_round_trip [of WithDefaults] by (simp add: cfg_ints_def WithDefaults_def CPP_INT_MAX_def)

end
