(* ===== verification/Platform.thy ===== *)
theory Platform
  imports Prelude
begin

text \<open>
  The platform layer the sources are written against: \<open>network/inc/platform.h\<close>
  (socket handle, its invalid value), the compile-time constants of
  \<open>network/inc/config/Const.h\<close>, and names for the Winsock calls and error codes
  the code uses.  Winsock itself is not part of the repository: results of its
  calls are arguments of the definitions, and the calls whose only effect is
  outside the program are recorded in a trace (\<open>OsCall\<close>).
\<close>

definition InvalidSocket :: SocketHandle where
  "InvalidSocket = - 1"

definition SocketError :: int where
  "SocketError = - 1"

definition recvBufferSize :: nat where "recvBufferSize = 4096"
definition sendBufferSize :: nat where "sendBufferSize = 1024"
definition addressBufferSize :: nat where "addressBufferSize = 64"
definition clientIpBufferSize :: nat where "clientIpBufferSize = 32"
definition maxFrameSize :: nat where "maxFrameSize = 65536"
definition workerIoPendingCancelGracePeriodMs :: nat where
  "workerIoPendingCancelGracePeriodMs = 100"

text \<open>The error codes the sources compare with, by name; any other code is
  \<open>WsaOther\<close>.\<close>

datatype WsaError =
    WSANOTINITIALISED | WSAENETDOWN | WSAEAFNOSUPPORT | WSAEINVAL | WSAEMFILE
  | WSAENOBUFS | WSAEPROTONOSUPPORT | WSAEINTR | WSAENOTSOCK | WSAESHUTDOWN
  | ERROR_IO_PENDING | ERROR_OPERATION_ABORTED | WsaOther int

text \<open>Calls that leave the program without a result the code looks at.\<close>

datatype OsCall =
    OsShutdown SocketHandle
  | OsCloseSocket SocketHandle
  | OsWSACleanup

text \<open>\<open>static_cast<int>\<close> of a \<open>size_t\<close>: the low 32 bits, read as signed.\<close>

definition int_cast :: "nat \<Rightarrow> int" where
  "int_cast n = sint (of_nat n :: 32 word)"

definition INT_MAX :: nat where "INT_MAX = 2147483647"

lemma int_cast_small [word_arith]: "n \<le> INT_MAX \<Longrightarrow> int_cast n = int n"
  using sint_sbintrunc' [of "int n", where 'a = 32]
  by (simp add: int_cast_def INT_MAX_def signed_take_bit_int_eq_self)

section \<open>Resources that are released once\<close>

text \<open>Classes that own a system resource release it in a method and call the same method
  from their destructor.  \<open>release\<close> yields the object afterwards and what was done;
  the law is that a second call finds nothing left to do.\<close>

locale releasable =
  fixes release :: "'s \<Rightarrow> 's \<times> 'o list"
  assumes release_again: "release (fst (release s)) = (fst (release s), [])"
begin

fun releases :: "nat \<Rightarrow> 's \<Rightarrow> 's \<times> 'o list" where
  "releases 0 s = (s, [])"
| "releases (Suc n) s = (case releases n s of (s1, done) \<Rightarrow> case release s1 of (s2, more) \<Rightarrow> (s2, done @ more))"

lemma releases_once: "0 < n \<Longrightarrow> releases n s = release s"
proof (induction n)
  case (Suc n)
  then show ?case using release_again [of s] by (cases "n = 0") (auto split: prod.splits)
qed simp

end

end
