(* ===== verification/TomlCompileTime.thy ===== *)
theory TomlCompileTime
  imports Toml Platform
begin

text \<open>
  The compile-time reader (lib/inc/config/compileTime): the same language
  parsed by index loops over \<open>string_view\<close>s into a fixed array of
  \<open>MaxEntries\<close> entries.  The loops are modelled with their indices; the
  theorems show that the two readers agree.
\<close>

section \<open>String helpers\<close>

function ct_trim_start :: "string \<Rightarrow> nat \<Rightarrow> nat" where
  "ct_trim_start str start =
     (if start < length str \<and> IsWhitespace (str ! start) then ct_trim_start str (start + 1) else start)"
  by auto
termination
  by (relation "measure (\<lambda>(str, i). length str - i)") auto

fun ct_trim_end :: "string \<Rightarrow> nat \<Rightarrow> nat" where
  "ct_trim_end str 0 = 0"
| "ct_trim_end str (Suc e) = (if IsWhitespace (str ! e) then ct_trim_end str e else Suc e)"

definition ct_TrimLeft :: "string \<Rightarrow> string" where
  "ct_TrimLeft str = drop (ct_trim_start str 0) str"

definition ct_TrimRight :: "string \<Rightarrow> string" where
  "ct_TrimRight str = take (ct_trim_end str (length str)) str"

definition ct_Trim :: "string \<Rightarrow> string" where
  "ct_Trim str = ct_TrimRight (ct_TrimLeft str)"

function ct_find_from :: "string \<Rightarrow> char \<Rightarrow> nat \<Rightarrow> nat option" where
  "ct_find_from str c i =
     (if i < length str then if str ! i = c then Some i else ct_find_from str c (i + 1) else None)"
  by auto
termination
  by (relation "measure (\<lambda>(str, c, i). length str - i)") auto

definition ct_Find :: "string \<Rightarrow> char \<Rightarrow> nat option" where
  "ct_Find str c = ct_find_from str c 0"

text \<open>The character loop of \<open>Equals\<close>, \<open>Matches\<close> and \<open>StartsWith\<close>.\<close>

function ct_same_from :: "string \<Rightarrow> string \<Rightarrow> nat \<Rightarrow> nat \<Rightarrow> bool" where
  "ct_same_from a b n i = (if i < n then if a ! i \<noteq> b ! i then False else ct_same_from a b n (i + 1) else True)"
  by auto
termination
  by (relation "measure (\<lambda>(a, b, n, i). n - i)") auto

definition ct_Equals :: "string \<Rightarrow> string \<Rightarrow> bool" where
  "ct_Equals a b = (if length a \<noteq> length b then False else ct_same_from a b (length a) 0)"

definition ct_StartsWith :: "string \<Rightarrow> string \<Rightarrow> bool" where
  "ct_StartsWith str pre = (if length pre > length str then False else ct_same_from str pre (length pre) 0)"

function ct_digits_from :: "string \<Rightarrow> nat \<Rightarrow> int \<Rightarrow> int option may_ub" where
  "ct_digits_from str i result =
     (if i < length str then
        if \<not> IsDigit (str ! i) then Some None
        else if result * 10 + digit_value (str ! i) > CPP_INT_MAX then None
        else ct_digits_from str (i + 1) (result * 10 + digit_value (str ! i))
      else Some (Some result))"
  by auto
termination
  by (relation "measure (\<lambda>(str, i, r). length str - i)") auto

declare ct_trim_start.simps [simp del] ct_find_from.simps [simp del] ct_same_from.simps [simp del]
  ct_digits_from.simps [simp del]

definition ct_ParseInt :: "string \<Rightarrow> int option may_ub" where
  "ct_ParseInt str0 =
     (let str = ct_Trim str0 in
      if str = [] then Some None
      else
        let negative = (str ! 0 = CHR ''-'');
            start = (if str ! 0 = CHR ''-'' \<or> str ! 0 = CHR ''+'' then 1 else 0)
        in if start \<ge> length str then Some None
           else map_option (map_option (\<lambda>result. if negative then - result else result))
                  (ct_digits_from str start 0))"

definition ct_ParseLong :: "string \<Rightarrow> int option may_ub" where
  "ct_ParseLong str0 =
     (let str = ct_Trim str0 in
      if str = [] then Some None
      else
        let negative = (str ! 0 = CHR ''-'');
            start = (if str ! 0 = CHR ''-'' \<or> str ! 0 = CHR ''+'' then 1 else 0)
        in if start \<ge> length str then Some None
           else map_option (map_option (\<lambda>result. if negative then - result else result))
                  (ct_digits_from str start 0))"

definition ct_ParseBool :: "string \<Rightarrow> bool option" where
  "ct_ParseBool str0 =
     (let str = ct_Trim str0 in
      if ct_Equals str ''true'' then Some True
      else if ct_Equals str ''false'' then Some False else None)"

definition ct_Unquote :: "string \<Rightarrow> string" where
  "ct_Unquote str0 =
     (let str = ct_Trim str0 in
      if length str \<ge> 2
         \<and> ((hd str = CHR 0x22 \<and> last str = CHR 0x22) \<or> (hd str = CHR 0x27 \<and> last str = CHR 0x27))
      then take (length str - 2) (drop 1 str) else str)"

section \<open>Entries and parser\<close>

definition ct_Matches :: "string \<Rightarrow> string \<Rightarrow> TomlEntry \<Rightarrow> bool" where
  "ct_Matches sec k e =
     (if length (te_section e) \<noteq> length sec \<or> length (te_key e) \<noteq> length k then False
      else ct_same_from (te_section e) sec (length (te_section e)) 0
           \<and> ct_same_from (te_key e) k (length (te_key e)) 0)"

definition ct_MatchesFullKey :: "string \<Rightarrow> TomlEntry \<Rightarrow> bool" where
  "ct_MatchesFullKey fullKey e =
     (case ct_find_from fullKey (CHR ''.'') 0 of
        None \<Rightarrow> te_section e = [] \<and> ct_Matches [] fullKey e
      | Some dotPos \<Rightarrow> ct_Matches (take dotPos fullKey) (drop (dotPos + 1) fullKey) e)"

text \<open>The first \<open>count\<close> elements of the array.\<close>

record CompileTimeTomlParseResult =
  ct_entries :: "TomlEntry list"

definition ct_Add :: "nat \<Rightarrow> TomlEntry \<Rightarrow> CompileTimeTomlParseResult \<Rightarrow> bool \<times> CompileTimeTomlParseResult" where
  "ct_Add maxEntries entry r =
     (if length (ct_entries r) \<ge> maxEntries then (False, r)
      else (True, r\<lparr>ct_entries := ct_entries r @ [entry]\<rparr>))"

definition ct_FindString :: "string \<Rightarrow> CompileTimeTomlParseResult \<Rightarrow> string option" where
  "ct_FindString fullKey r = map_option (\<lambda>e. ct_Unquote (te_value e)) (find (ct_MatchesFullKey fullKey) (ct_entries r))"

definition ct_FindInt :: "string \<Rightarrow> CompileTimeTomlParseResult \<Rightarrow> int option may_ub" where
  "ct_FindInt fullKey r =
     (case find (ct_MatchesFullKey fullKey) (ct_entries r) of
        None \<Rightarrow> Some None | Some e \<Rightarrow> ct_ParseInt (te_value e))"

definition ct_FindLong :: "string \<Rightarrow> CompileTimeTomlParseResult \<Rightarrow> int option may_ub" where
  "ct_FindLong fullKey r =
     (case find (ct_MatchesFullKey fullKey) (ct_entries r) of
        None \<Rightarrow> Some None | Some e \<Rightarrow> ct_ParseLong (te_value e))"

definition ct_FindBool :: "string \<Rightarrow> CompileTimeTomlParseResult \<Rightarrow> bool option" where
  "ct_FindBool fullKey r =
     (case find (ct_MatchesFullKey fullKey) (ct_entries r) of
        None \<Rightarrow> None | Some e \<Rightarrow> ct_ParseBool (te_value e))"

definition ct_ParseSection :: "string \<Rightarrow> string" where
  "ct_ParseSection line =
     (if length line < 3 then []
      else if hd line \<noteq> CHR ''['' then []
      else case ct_Find line (CHR '']'') of
        None \<Rightarrow> []
      | Some closeBracket \<Rightarrow> ct_Trim (take (closeBracket - 1) (drop 1 line)))"

definition ct_value_type :: "string \<Rightarrow> TomlValueType" where
  "ct_value_type v =
     (if ct_Equals v ''true'' \<or> ct_Equals v ''false'' then TBoolean
      else if v \<noteq> [] \<and> (IsDigit (v ! 0) \<or> v ! 0 = CHR ''-'' \<or> v ! 0 = CHR ''+'') then TInteger
      else TString)"

definition ct_ParseKeyValue :: "string \<Rightarrow> string \<Rightarrow> TomlEntry option" where
  "ct_ParseKeyValue line currentSection =
     (case ct_Find line (CHR ''='') of
        None \<Rightarrow> None
      | Some eqPos \<Rightarrow>
          let key = ct_Trim (take eqPos line);
              value0 = ct_Trim (drop (eqPos + 1) line);
              v = (case ct_Find value0 (CHR ''#'') of None \<Rightarrow> value0 | Some commentPos \<Rightarrow> ct_Trim (take commentPos value0))
          in Some \<lparr>te_section = currentSection, te_key = key, te_value = v, te_ioType = ct_value_type v\<rparr>)"

function ct_line_end :: "string \<Rightarrow> nat \<Rightarrow> nat" where
  "ct_line_end content lineEnd =
     (if lineEnd < length content \<and> content ! lineEnd \<noteq> CHR 0x0A then ct_line_end content (lineEnd + 1) else lineEnd)"
  by auto
termination
  by (relation "measure (\<lambda>(s, i). length s - i)") auto

declare ct_line_end.simps [simp del]

lemma ct_line_end_ge: "i \<le> ct_line_end content i"
  by (induction content i rule: ct_line_end.induct) (subst ct_line_end.simps, auto)

function ct_parse_from ::
  "nat \<Rightarrow> string \<Rightarrow> nat \<Rightarrow> string \<Rightarrow> CompileTimeTomlParseResult \<Rightarrow> CompileTimeTomlParseResult" where
  "ct_parse_from maxEntries content lineStart currentSection res =
     (if lineStart < length content then
        let lineEnd = ct_line_end content lineStart;
            actualEnd = (if lineEnd > lineStart \<and> content ! (lineEnd - 1) = CHR 0x0D then lineEnd - 1 else lineEnd);
            line = ct_Trim (take (actualEnd - lineStart) (drop lineStart content))
        in if line \<noteq> [] \<and> line ! 0 \<noteq> CHR ''#'' then
             if line ! 0 = CHR ''['' then
               ct_parse_from maxEntries content (lineEnd + 1) (ct_ParseSection line) res
             else case ct_ParseKeyValue line currentSection of
                 None \<Rightarrow> ct_parse_from maxEntries content (lineEnd + 1) currentSection res
               | Some entry \<Rightarrow>
                   ct_parse_from maxEntries content (lineEnd + 1) currentSection (snd (ct_Add maxEntries entry res))
           else ct_parse_from maxEntries content (lineEnd + 1) currentSection res
      else res)"
  by pat_completeness auto
termination
  by (relation "measure (\<lambda>(m, content, i, sec, res). length content - i)")
     (auto intro!: diff_less_mono2 simp: less_Suc_eq_le ct_line_end_ge)

declare ct_parse_from.simps [simp del]

definition ct_Parse :: "nat \<Rightarrow> string \<Rightarrow> CompileTimeTomlParseResult" where
  "ct_Parse maxEntries content = ct_parse_from maxEntries content 0 [] \<lparr>ct_entries = []\<rparr>"

text \<open>\<open>CompileTimeConfig\<close>: accessors with a default.\<close>

definition ct_Config_Str :: "string \<Rightarrow> string \<Rightarrow> CompileTimeTomlParseResult \<Rightarrow> string" where
  "ct_Config_Str key d r = (case ct_FindString key r of None \<Rightarrow> d | Some v \<Rightarrow> v)"

definition ct_Config_Int :: "string \<Rightarrow> int \<Rightarrow> CompileTimeTomlParseResult \<Rightarrow> int may_ub" where
  "ct_Config_Int key d r = map_option (\<lambda>v. case v of None \<Rightarrow> d | Some x \<Rightarrow> x) (ct_FindInt key r)"

definition ct_Config_Long :: "string \<Rightarrow> int \<Rightarrow> CompileTimeTomlParseResult \<Rightarrow> int may_ub" where
  "ct_Config_Long key d r = map_option (\<lambda>v. case v of None \<Rightarrow> d | Some x \<Rightarrow> x) (ct_FindLong key r)"

definition ct_Config_Bool :: "string \<Rightarrow> bool \<Rightarrow> CompileTimeTomlParseResult \<Rightarrow> bool" where
  "ct_Config_Bool key d r = (case ct_FindBool key r of None \<Rightarrow> d | Some v \<Rightarrow> v)"

text \<open>\<open>From\<close> with the default \<open>MaxEntries\<close>, and the configuration text that is embedded
  in the program.\<close>

definition ct_From :: "string \<Rightarrow> CompileTimeTomlParseResult" where
  "ct_From tomlContent = ct_Parse 64 tomlContent"

definition ct_EntryCount :: "CompileTimeTomlParseResult \<Rightarrow> nat" where
  "ct_EntryCount r = length (ct_entries r)"

definition NETWORK_CONFIG :: string where
  "NETWORK_CONFIG =
     [] @ [CHR 0x0A]
     @ ''# Echo Server Compile-time Configuration'' @ [CHR 0x0A]
     @ ''# These values are embedded at compile time for static buffer sizes.'' @ [CHR 0x0A]
     @ ''# See config.runtime.toml for runtime-configurable values.'' @ [CHR 0x0A]
     @ [] @ [CHR 0x0A]
     @ ''[socket]'' @ [CHR 0x0A]
     @ ''buffer_size = 4096'' @ [CHR 0x0A]
     @ [] @ [CHR 0x0A]
     @ ''[network]'' @ [CHR 0x0A]
     @ ''client_ip_buffer_size = 32'' @ [CHR 0x0A]
     @ []"

function ct_find_first_from :: "string \<Rightarrow> string \<Rightarrow> nat \<Rightarrow> nat option" where
  "ct_find_first_from str chars i =
     (if i < length str then (if list_ex (\<lambda>c. str ! i = c) chars then Some i else ct_find_first_from str chars (i + 1))
      else None)"
  by pat_completeness auto
termination
  by (relation "measure (\<lambda>(str, chars, i). length str - i)") auto

declare ct_find_first_from.simps [simp del]

definition ct_FindFirst :: "string \<Rightarrow> string \<Rightarrow> nat option" where
  "ct_FindFirst str chars = ct_find_first_from str chars 0"

section \<open>The helpers agree with the run-time ones\<close>

lemma ct_FindFirst_spec:
  "ct_FindFirst str chars =
     (if \<exists>c \<in> set str. c \<in> set chars then Some (length (takeWhile (\<lambda>c. c \<notin> set chars) str)) else None)"
proof -
  have "ct_find_first_from str chars i =
      (if \<exists>c \<in> set (drop i str). c \<in> set chars then Some (i + length (takeWhile (\<lambda>c. c \<notin> set chars) (drop i str))) else None)" for i
  proof (induction str chars i rule: ct_find_first_from.induct)
    case (1 str chars i)
    show ?case
    proof (cases "i < length str")
      case True
      then show ?thesis
        using 1 by (subst ct_find_first_from.simps) (auto simp: Cons_nth_drop_Suc [symmetric] list_ex_iff)
    qed (simp add: ct_find_first_from.simps)
  qed
  then show ?thesis by (simp add: ct_FindFirst_def)
qed

lemma ct_trim_start_drop: "drop (ct_trim_start str i) str = dropWhile IsWhitespace (drop i str)"
proof (induction str i rule: ct_trim_start.induct)
  case (1 str i)
  then show ?case
    by (cases "i < length str") (auto simp: ct_trim_start.simps [of str i] Cons_nth_drop_Suc [symmetric])
qed

lemma ct_trim_end_take:
  "e \<le> length str \<Longrightarrow> take (ct_trim_end str e) str = rev (dropWhile IsWhitespace (rev (take e str)))"
  by (induction str e rule: ct_trim_end.induct) (auto simp: take_Suc_conv_app_nth)

lemma ct_Trim_eq [simp]: "ct_Trim s = Trim s"
  using ct_trim_start_drop [of s 0] ct_trim_end_take
  by (simp add: ct_Trim_def ct_TrimLeft_def ct_TrimRight_def Trim_def TrimLeft_def TrimRight_def)

lemma ct_find_from_eq: "ct_find_from str c i = map_option (\<lambda>k. k + i) (Find (drop i str) c)"
proof (induction str c i rule: ct_find_from.induct)
  case (1 str c i)
  then show ?case
    by (cases "i < length str")
       (auto simp: ct_find_from.simps [of str c i] Cons_nth_drop_Suc [symmetric] option.map_comp comp_def)
qed

lemma ct_Find_eq [simp]: "ct_Find str c = Find str c" "ct_find_from str c 0 = Find str c"
  by (simp_all add: ct_Find_def ct_find_from_eq option.map_ident)

lemma ct_same_from_eq:
  "n \<le> length a \<Longrightarrow> n \<le> length b \<Longrightarrow> ct_same_from a b n i \<longleftrightarrow> drop i (take n a) = drop i (take n b)"
proof (induction a b n i rule: ct_same_from.induct)
  case (1 a b n i)
  then show ?case
    by (cases "i < n")
       (auto simp: ct_same_from.simps [of a b n i] Cons_nth_drop_Suc [symmetric, of i "take n a"]
          Cons_nth_drop_Suc [symmetric, of i "take n b"])
qed

lemma ct_Equals_eq [simp]: "ct_Equals a b \<longleftrightarrow> a = b"
  by (auto simp: ct_Equals_def ct_same_from_eq)

lemma ct_StartsWith_eq: "ct_StartsWith s p = StartsWith s p"
  by (auto simp: ct_StartsWith_def StartsWith_def ct_same_from_eq)

lemma ct_Matches_eq [simp]: "ct_Matches sec k e = Matches sec k e"
  by (auto simp: ct_Matches_def Matches_def ct_same_from_eq)

lemma ct_MatchesFullKey_eq [simp]: "ct_MatchesFullKey k = MatchesFullKey k"
  by (auto simp: fun_eq_iff ct_MatchesFullKey_def MatchesFullKey_def Matches_def split: option.splits)

lemma ct_digits_from_eq: "ct_digits_from str i acc = parse_digits acc (drop i str)"
proof (induction str i acc rule: ct_digits_from.induct)
  case (1 str i acc)
  then show ?case
    by (cases "i < length str") (auto simp: ct_digits_from.simps [of str i acc] Cons_nth_drop_Suc [symmetric])
qed

lemma ct_parsers_eq [simp]:
  "ct_ParseInt s = ParseInt s" "ct_ParseLong s = ParseLong s" "ct_ParseBool s = ParseBool s" "ct_Unquote s = Unquote s"
  "ct_ParseSection s = ParseSection s" "ct_ParseKeyValue s sec = ParseKeyValue s sec"
  by (auto simp: ct_ParseInt_def ParseInt_def ct_ParseLong_def ParseLong_def ct_ParseBool_def ParseBool_def ct_Unquote_def Unquote_def
      ct_ParseSection_def ParseSection_def ct_ParseKeyValue_def ParseKeyValue_def ct_value_type_def
      value_type_def ct_digits_from_eq hd_conv_nth Let_def split: option.splits)

lemma ct_line_end_eq:
  "ct_line_end s i = i + length (takeWhile (\<lambda>c. c \<noteq> CHR 0x0A) (drop i s))"
proof (induction s i rule: ct_line_end.induct)
  case (1 s i)
  then show ?case
    by (cases "i < length s") (auto simp: ct_line_end.simps [of s i] Cons_nth_drop_Suc [symmetric])
qed

text \<open>The line between \<open>lineStart\<close> and \<open>actualEnd\<close>.\<close>

lemma ct_line_eq:
  fixes s :: string and i :: nat
  defines "raw \<equiv> takeWhile (\<lambda>c. c \<noteq> CHR 0x0A) (drop i s)"
  shows "take ((if ct_line_end s i > i \<and> s ! (ct_line_end s i - 1) = CHR 0x0D then ct_line_end s i - 1
               else ct_line_end s i) - i) (drop i s)
    = (if raw \<noteq> [] \<and> last raw = CHR 0x0D then butlast raw else raw)"
proof -
  have e: "ct_line_end s i = i + length raw" by (simp add: ct_line_end_eq raw_def)
  have raw: "take (length raw) (drop i s) = raw"
    by (simp add: raw_def takeWhile_eq_take [symmetric])
  have "last raw = s ! (i + length raw - 1)" if "raw \<noteq> []"
  proof -
    have n: "length raw - 1 < length raw" using that by simp
    have len: "length raw \<le> length (drop i s)" unfolding raw_def by (rule length_takeWhile_le)
    have "last raw = raw ! (length raw - 1)" using that by (rule last_conv_nth)
    also have "\<dots> = drop i s ! (length raw - 1)" using raw n by (metis nth_take)
    also have "\<dots> = s ! (i + (length raw - 1))" using len n by (simp add: nth_drop)
    finally show ?thesis using n by simp
  qed
  moreover have "take (length raw - 1) (drop i s) = butlast raw"
    using raw by (metis butlast_conv_take diff_le_self min.absorb1 take_take)
  ultimately show ?thesis using raw by (auto simp: e)
qed

lemma ct_parse_from_eq:
  "ct_entries r = take m acc \<Longrightarrow>
   ct_entries (ct_parse_from m content i sec r) = take m (parse_lines sec acc (drop i content))"
proof (induction m content i sec r arbitrary: acc rule: ct_parse_from.induct)
  case (1 m content i sec r)
  show ?case
  proof (cases "i < length content")
    case False
    then show ?thesis using "1.prems" by (simp add: ct_parse_from.simps parse_lines.simps)
  next
    case True
    define raw where "raw = takeWhile (\<lambda>c. c \<noteq> CHR 0x0A) (drop i content)"
    define line where "line = Trim (if raw \<noteq> [] \<and> last raw = CHR 0x0D then butlast raw else raw)"
    let ?next = "ct_line_end content i + 1"
    have rest: "drop (length raw + 1) (drop i content) = drop ?next content"
      by (simp add: ct_line_end_eq raw_def add.commute)
    have pl: "parse_lines sec acc (drop i content) =
        (case parse_line sec raw of (sec', entry) \<Rightarrow>
          parse_lines sec' (acc @ (case entry of None \<Rightarrow> [] | Some e \<Rightarrow> [e])) (drop ?next content))"
      using True unfolding rest [symmetric] by (subst parse_lines.simps) (simp add: raw_def Let_def)
    have pline: "parse_line sec raw =
        (if line \<noteq> [] \<and> line ! 0 \<noteq> CHR ''#'' then
           if line ! 0 = CHR ''['' then (ParseSection line, None) else (sec, ParseKeyValue line sec)
         else (sec, None))"
      by (auto simp: parse_line_def Let_def line_def hd_conv_nth)
    have ct: "ct_parse_from m content i sec r =
        (if line \<noteq> [] \<and> line ! 0 \<noteq> CHR ''#'' then
           if line ! 0 = CHR ''['' then ct_parse_from m content ?next (ParseSection line) r
           else case ParseKeyValue line sec of
               None \<Rightarrow> ct_parse_from m content ?next sec r
             | Some entry \<Rightarrow> ct_parse_from m content ?next sec (snd (ct_Add m entry r))
         else ct_parse_from m content ?next sec r)"
      by (subst ct_parse_from.simps)
         (simp only: True if_True Let_def ct_Trim_eq ct_parsers_eq ct_line_eq raw_def [symmetric] line_def [symmetric])
    have add: "ct_entries (snd (ct_Add m e r)) = take m (acc @ [e])" for e
      using "1.prems" by (auto simp: ct_Add_def min_def split: if_splits)
    note IH = "1.IH" [OF True refl refl refl, unfolded ct_Trim_eq ct_line_eq,
        folded raw_def, folded line_def]
    show ?thesis
      using IH add "1.prems"
      unfolding pl pline ct by (auto split: option.splits)
  qed
qed



text \<open>The sizes in the embedded text are those of the constants the program is built with.\<close>

lemma embedded_config_sizes:
  "ct_EntryCount (ct_From NETWORK_CONFIG) = 2"
  "ct_Config_Int ''socket.buffer_size'' 0 (ct_From NETWORK_CONFIG) = Some (int recvBufferSize)"
  "ct_Config_Int ''network.client_ip_buffer_size'' 0 (ct_From NETWORK_CONFIG) = Some (int clientIpBufferSize)"
proof -
  have "ct_Config_Int ''socket.buffer_size'' 0 (ct_From NETWORK_CONFIG) = Some 4096"
    and "ct_Config_Int ''network.client_ip_buffer_size'' 0 (ct_From NETWORK_CONFIG) = Some 32" by code_simp+
  then show "ct_Config_Int ''socket.buffer_size'' 0 (ct_From NETWORK_CONFIG) = Some (int recvBufferSize)"
    and "ct_Config_Int ''network.client_ip_buffer_size'' 0 (ct_From NETWORK_CONFIG) = Some (int clientIpBufferSize)"
    by (simp_all add: recvBufferSize_def clientIpBufferSize_def)
  show "ct_EntryCount (ct_From NETWORK_CONFIG) = 2" by code_simp
qed

end
