(* ===== verification/Errors.thy ===== *)
theory Errors
  imports Platform
begin

text \<open>
  The error vocabulary of the server: \<open>fn::Result\<close>
  (lib/inc/functional/Result.hpp), \<open>ENetworkError\<close> and \<open>EPacketError\<close>
  (lib/inc/error/NetworkError.h, PacketError.h) and the logging helpers of
  lib/inc/error/Errors.hpp.

  \<open>Result\<close> is the record of the class: payload, error code and flag, where the
  alternative that was not given is value-initialised.  Its observers only ever
  reveal one alternative, so the components below use the sum \<open>'e + 'd\<close>
  instead (\<open>Inl\<close> the error); the locale \<open>fallible\<close> states the contract both
  share, and both interpretations are proved here.
\<close>

section \<open>Result\<close>

record ('d, 'e) Result =
  res_data :: 'd
  res_err :: 'e
  res_hasError :: bool

text \<open>\<open>d0\<close> and \<open>e0\<close> are the value-initialised \<open>TData{}\<close> and \<open>E{}\<close>.\<close>

definition Result_Ok :: "'e \<Rightarrow> 'd \<Rightarrow> ('d, 'e) Result" where
  "Result_Ok e0 d = \<lparr>res_data = d, res_err = e0, res_hasError = False\<rparr>"

definition Result_Err :: "'d \<Rightarrow> 'e \<Rightarrow> ('d, 'e) Result" where
  "Result_Err d0 e = \<lparr>res_data = d0, res_err = e, res_hasError = True\<rparr>"

definition IsOk :: "('d, 'e) Result \<Rightarrow> bool" where
  "IsOk r = (\<not> res_hasError r)"

definition HasErr :: "('d, 'e) Result \<Rightarrow> bool" where
  "HasErr r = res_hasError r"

definition Result_abs :: "('d, 'e) Result \<Rightarrow> 'e + 'd" where
  "Result_abs r = (if HasErr r then Inl (res_err r) else Inr (res_data r))"

definition is_ok :: "'e + 'd \<Rightarrow> bool" where
  "is_ok r = (case r of Inl _ \<Rightarrow> False | Inr _ \<Rightarrow> True)"

definition has_err :: "'e + 'd \<Rightarrow> bool" where
  "has_err r = (case r of Inl _ \<Rightarrow> True | Inr _ \<Rightarrow> False)"

lemma is_ok_simps [simp]: "is_ok (Inl e) = False" "is_ok (Inr d) = True"
  by (simp_all add: is_ok_def)

lemma has_err_simps [simp]: "has_err (Inl e) = True" "has_err (Inr d) = False"
  by (simp_all add: has_err_def)

text \<open>The contract of a fallible result, and the idiom the sources repeat at
  every call site: hand the error of a failed step to the caller unchanged,
  otherwise go on with its data.\<close>

locale fallible =
  fixes ok :: "'d \<Rightarrow> 'r"
    and err :: "'e \<Rightarrow> 'r"
    and good :: "'r \<Rightarrow> bool"
    and data_of :: "'r \<Rightarrow> 'd"
    and err_of :: "'r \<Rightarrow> 'e"
  assumes good_ok: "good (ok d)"
    and bad_err: "\<not> good (err e)"
    and data_ok: "data_of (ok d) = d"
    and err_err: "err_of (err e) = e"
begin

definition propagate :: "'r \<Rightarrow> ('d \<Rightarrow> 'r) \<Rightarrow> 'r" where
  "propagate r k = (if good r then k (data_of r) else err (err_of r))"

lemma propagate_ok: "propagate (ok d) k = k d"
  by (simp add: propagate_def good_ok data_ok)

lemma propagate_err: "propagate (err e) k = err e"
  by (simp add: propagate_def bad_err err_err)

lemma propagate_assoc:
  "propagate (propagate r k) h = propagate r (\<lambda>d. propagate (k d) h)"
  by (simp add: propagate_def bad_err err_err)

lemma propagate_good:
  "good (propagate r k) \<longleftrightarrow> good r \<and> good (k (data_of r))"
  by (simp add: propagate_def bad_err)

end

interpretation cpp_result: fallible "Result_Ok e0" "Result_Err d0" IsOk res_data res_err
  for d0 e0
  by unfold_locales (auto simp: Result_Ok_def Result_Err_def IsOk_def)

interpretation sum_result: fallible Inr Inl is_ok projr projl
  by unfold_locales auto

text \<open>the sum type observes exactly what the class \<open>Result\<close> does: the
  abstraction maps \<open>Ok\<close> and \<open>Err\<close> to the two injections, agrees on the
  \<open>bool\<close> conversion, and the early-return idiom commutes with it, whatever
  values the unused members were initialised with.\<close>

lemma result_sum_refinement:
  "Result_abs (Result_Ok e0 d) = Inr d \<and>
   Result_abs (Result_Err d0 e) = Inl e \<and>
   IsOk r = is_ok (Result_abs r) \<and> HasErr r = has_err (Result_abs r) \<and>
   Result_abs (cpp_result.propagate d1 r k) = sum_result.propagate (Result_abs r) (\<lambda>d. Result_abs (k d))"
  by (simp add: Result_abs_def Result_Ok_def Result_Err_def IsOk_def HasErr_def
        cpp_result.propagate_def sum_result.propagate_def)

section \<open>Error codes\<close>

datatype ENetworkError =
    Unknown
  | WsaStartupFailed
  | WsaNotInitialized
  | WsaNetworkSubSystemFailed
  | WsaNotSupportedAddressFamily
  | WsaInvalidArgs
  | WsaLackFileDescriptor
  | WsaNoBufferSpace
  | WsaNotSupportedProtocol
  | WsaRecvFailed
  | WsaSendFailed
  | SocketInvalid
  | SocketCreateFailed
  | SocketBindFailed
  | SocketListenFailed
  | SocketAcceptFailed
  | SocketConnectFailed
  | SocketPostAcceptFailed
  | IocpCreateFailed
  | IocpConnectFailed
  | IocpInternalError
  | IocpIoFailed
  | ThreadWorkerCreateFailed
  | ThreadAccepterCreateFailed
  | ThreadWorkerFailed
  | ThreadAcceptFailed

fun toString :: "ENetworkError \<Rightarrow> string" where
  "toString WsaStartupFailed = ''WSAStartup failed.''"
| "toString WsaNotInitialized = ''WSAStartup failed: WSAStartup() is not called.''"
| "toString WsaNetworkSubSystemFailed = ''WSAStartup failed: Network Subsystem failed.''"
| "toString WsaNotSupportedAddressFamily =
     ''WSAStartup failed: Not supported Address Family (e.g. AF_INET, AF_INET6)''"
| "toString WsaInvalidArgs = ''WSAStartup failed: Invalid Arguments.''"
| "toString WsaNoBufferSpace = ''WSAStartup failed: Not enough buffer space for a socket.''"
| "toString WsaNotSupportedProtocol = ''WSAStartup failed: Not supported protocol.''"
| "toString WsaRecvFailed = ''WSARecv failed.''"
| "toString WsaSendFailed = ''WSASend failed.''"
| "toString SocketInvalid = ''Invalid socket.''"
| "toString SocketCreateFailed = ''Create socket failed.''"
| "toString SocketBindFailed = ''Bind failed.''"
| "toString SocketListenFailed = ''Listen failed.''"
| "toString SocketAcceptFailed = ''Accept failed.''"
| "toString SocketConnectFailed = ''Connect failed.''"
| "toString SocketPostAcceptFailed = ''Post accept failed.''"
| "toString IocpCreateFailed = ''CreateIoCompletionPort failed.''"
| "toString IocpConnectFailed = ''Connect to IOCP failed.''"
| "toString IocpInternalError = ''IOCP internal error.''"
| "toString IocpIoFailed = ''I/O operation failed.''"
| "toString ThreadWorkerCreateFailed = ''Create worker thread failed.''"
| "toString ThreadAccepterCreateFailed = ''Create accepter thread failed.''"
| "toString ThreadWorkerFailed = ''Worker thread failed.''"
| "toString ThreadAcceptFailed = ''Accept thread failed.''"
| "toString _ = ''Unknown error.''"

datatype EPacketError =
    PacketUnknown
  | FbFailedVerify
  | FbFailedSerialize
  | FbGetPacket
  | FbFailedDeserialize
  | FbPayloadTypeNotFound

fun packet_toString :: "EPacketError \<Rightarrow> string" where
  "packet_toString FbFailedVerify = ''PacketFlatbufferFailedVerify''"
| "packet_toString FbFailedSerialize = ''PacketFlatbufferFailedSerialize''"
| "packet_toString FbGetPacket = ''PacketFlatbufferGetPacket''"
| "packet_toString FbFailedDeserialize = ''PacketFlatbufferFailedDeserialize''"
| "packet_toString FbPayloadTypeNotFound = ''PacketFlatbufferPayloadTypeNotFound''"
| "packet_toString PacketUnknown = ''Unknown''"

section \<open>Logging helpers\<close>

text \<open>A line handed to the logger: the message and, for the WSA and Windows
  variants, the platform's last error code.\<close>

type_synonym log_line = "string \<times> int option"

definition LogErrorWSAWithResult ::
  "ENetworkError \<Rightarrow> int \<Rightarrow> log_line list \<Rightarrow> log_line list \<times> (ENetworkError + 'a)" where
  "LogErrorWSAWithResult e lastError log = (log @ [(toString e, Some lastError)], Inl e)"

definition LogErrorWithResult ::
  "ENetworkError \<Rightarrow> log_line list \<Rightarrow> log_line list \<times> (ENetworkError + 'a)" where
  "LogErrorWithResult e log = (log @ [(toString e, None)], Inl e)"

definition LogErrorWSA :: "ENetworkError \<Rightarrow> int \<Rightarrow> log_line list \<Rightarrow> log_line list" where
  "LogErrorWSA e lastError log = log @ [(toString e, Some lastError)]"

definition LogError :: "ENetworkError \<Rightarrow> log_line list \<Rightarrow> log_line list" where
  "LogError e log = log @ [(toString e, None)]"

fun wsaStartupError :: "WsaError \<Rightarrow> ENetworkError" where
  "wsaStartupError WSANOTINITIALISED = WsaNotInitialized"
| "wsaStartupError WSAENETDOWN = WsaNetworkSubSystemFailed"
| "wsaStartupError WSAEAFNOSUPPORT = WsaNotSupportedAddressFamily"
| "wsaStartupError WSAEINVAL = WsaInvalidArgs"
| "wsaStartupError WSAEMFILE = WsaLackFileDescriptor"
| "wsaStartupError WSAENOBUFS = WsaNoBufferSpace"
| "wsaStartupError WSAEPROTONOSUPPORT = WsaNotSupportedProtocol"
| "wsaStartupError _ = WsaStartupFailed"

definition LogErrorByWSAStartupResult ::
  "(WsaError \<Rightarrow> int) \<Rightarrow> WsaError \<Rightarrow> log_line list \<Rightarrow> log_line list \<times> (ENetworkError + 'a)" where
  "LogErrorByWSAStartupResult code lastError log =
     LogErrorWSAWithResult (wsaStartupError lastError) (code lastError) log"

text \<open>the messages of \<open>toString\<close> separate the error codes, except that
  \<open>WsaLackFileDescriptor\<close> has no case of its own: two codes share a message
  exactly when they are equal or are that one and \<open>Unknown\<close>.  A socket failure
  for want of descriptors is therefore logged as an unknown error.\<close>

lemma toString_collision:
  "toString a = toString b \<longleftrightarrow> a = b \<or> {a, b} = {Unknown, WsaLackFileDescriptor}"
  by (cases a; cases b; simp add: doubleton_eq_iff)

end
