(* ===== verification/Framing.thy ===== *)
theory Framing
  imports Errors
begin

text \<open>
  Length-prefixed framing over a byte stream: the receive buffer
  \<open>FrameBuffer\<close> (network/inc/client/FrameBuffer.h, network/src/client/FrameBuffer.cpp)
  and the wire format \<open>[length:4, big-endian][payload:N]\<close> that
  \<open>PacketStream\<close> and \<open>PacketDispatcher\<close> share.

  \<open>FrameBuffer\<close> is kept as the code has it, a fixed array and a 64-bit length;
  the locale \<open>byte_buffer\<close> states its contract on the list of bytes it holds.
\<close>

section \<open>FrameBuffer\<close>

record FrameBuffer =
  fb_buf :: "byte list"
  fb_len :: size_t

definition FrameBuffer_init :: FrameBuffer where
  "FrameBuffer_init = \<lparr>fb_buf = replicate maxFrameSize 0, fb_len = 0\<rparr>"

definition fb_size :: "FrameBuffer \<Rightarrow> size_t" where
  "fb_size fb = of_nat (length (fb_buf fb))"

text \<open>The guard of \<open>Append\<close>, evaluated at the width of \<open>size_t\<close>.\<close>

definition append_overflows :: "size_t \<Rightarrow> size_t \<Rightarrow> size_t \<Rightarrow> bool" where
  "append_overflows cap len dataLen \<longleftrightarrow> dataLen > cap \<or> len > cap - dataLen"

definition Append :: "byte list \<Rightarrow> FrameBuffer \<Rightarrow> bool \<times> FrameBuffer" where
  "Append data fb =
     (let dataLen = of_nat (length data) in
      if append_overflows (fb_size fb) (fb_len fb) dataLen then (False, fb)
      else (True, fb\<lparr>fb_buf := write_at (unat (fb_len fb)) data (fb_buf fb),
                     fb_len := fb_len fb + dataLen\<rparr>))"

definition Data :: "FrameBuffer \<Rightarrow> byte list" where
  "Data fb = take (unat (fb_len fb)) (fb_buf fb)"

definition Consume :: "size_t \<Rightarrow> FrameBuffer \<Rightarrow> FrameBuffer" where
  "Consume bytesTransferred fb =
     (if bytesTransferred \<ge> fb_len fb then fb\<lparr>fb_len := 0\<rparr>
      else fb\<lparr>fb_buf := write_at 0
                (take (unat (fb_len fb - bytesTransferred))
                      (drop (unat bytesTransferred) (fb_buf fb))) (fb_buf fb),
              fb_len := fb_len fb - bytesTransferred\<rparr>)"

definition Size :: "FrameBuffer \<Rightarrow> size_t" where
  "Size fb = fb_len fb"

text \<open>The array keeps its size and the length never exceeds it.\<close>

definition fb_inv :: "FrameBuffer \<Rightarrow> bool" where
  "fb_inv fb \<longleftrightarrow> length (fb_buf fb) = maxFrameSize \<and> unat (fb_len fb) \<le> maxFrameSize"

lemma fb_inv_init [inv_intros]: "fb_inv FrameBuffer_init"
  by (simp add: fb_inv_def FrameBuffer_init_def)

lemma Data_init [simp]: "Data FrameBuffer_init = []"
  by (simp add: Data_def FrameBuffer_init_def)

lemma length_Data: "fb_inv fb \<Longrightarrow> length (Data fb) = unat (fb_len fb)"
  by (simp add: Data_def fb_inv_def)

lemma length_Data_le: "length (Data fb) \<le> unat (fb_len fb)"
  by (simp add: Data_def)

lemma Data_bound: "fb_inv fb \<Longrightarrow> length (Data fb) \<le> maxFrameSize"
  by (simp add: length_Data fb_inv_def)

text \<open>The guard is exact at 64 bits: neither the sum nor the difference the
  comments of the source warn about wraps.\<close>

lemma append_overflows_exact [word_arith]:
  "append_overflows cap len dataLen \<longleftrightarrow> unat len + unat dataLen > unat cap"
proof (cases "dataLen \<le> cap")
  case True
  then have "unat (cap - dataLen) = unat cap - unat dataLen" "unat dataLen \<le> unat cap"
    by (simp_all add: unat_sub word_le_nat_alt)
  then show ?thesis
    using True by (auto simp: append_overflows_def word_less_nat_alt word_le_nat_alt)
next
  case False
  then show ?thesis by (auto simp: append_overflows_def word_less_nat_alt word_le_nat_alt)
qed

lemma Append_spec:
  assumes "fb_inv fb" and "length data < 2 ^ 64"
  shows "Append data fb =
    (if length (Data fb) + length data > maxFrameSize then (False, fb)
     else (True, fb\<lparr>fb_buf := write_at (length (Data fb)) data (fb_buf fb),
                    fb_len := of_nat (length (Data fb) + length data)\<rparr>))"
proof -
  have cap: "unat (fb_size fb) = maxFrameSize"
    using assms(1) by (simp add: fb_size_def fb_inv_def maxFrameSize_def)
  have n: "unat (of_nat (length data) :: size_t) = length data"
    using assms(2) by (rule unat_of_nat64)
  have l: "fb_len fb = of_nat (length (Data fb))"
    by (simp add: length_Data [OF assms(1)])
  show ?thesis
    unfolding Append_def Let_def append_overflows_exact cap n
    by (simp add: length_Data [OF assms(1)] l [symmetric])
qed

lemma Append_fits:
  assumes "fb_inv fb" and "length (Data fb) + length data \<le> maxFrameSize"
  shows "\<exists>fb'. Append data fb = (True, fb') \<and> fb_inv fb' \<and> Data fb' = Data fb @ data"
proof -
  have sz: "length data < 2 ^ 64" using assms(2) by (simp add: maxFrameSize_def)
  have len: "unat (of_nat (length (Data fb) + length data) :: size_t)
               = length (Data fb) + length data"
    using assms(2) by (intro unat_of_nat64) (simp add: maxFrameSize_def)
  have buf: "length (fb_buf fb) = maxFrameSize" using assms(1) by (simp add: fb_inv_def)
  have D: "take (length (Data fb)) (fb_buf fb) = Data fb"
    using assms(1) by (simp add: Data_def fb_inv_def min_def)
  show ?thesis
    using assms(2)
    by (simp add: Append_spec [OF assms(1) sz] fb_inv_def buf len
                  Data_def [of "_\<lparr>fb_len := _\<rparr>"] take_write_at D del: of_nat_add)
qed

lemma Append_overflow:
  assumes "fb_inv fb" and "length data < 2 ^ 64"
    and "length (Data fb) + length data > maxFrameSize"
  shows "Append data fb = (False, fb)"
  using assms by (simp add: Append_spec)

lemma Consume_inv [inv_intros]: "fb_inv fb \<Longrightarrow> fb_inv (Consume n fb)"
  by (auto simp: fb_inv_def Consume_def word_le_nat_alt unat_sub not_le)

lemma Data_Consume:
  assumes "fb_inv fb"
  shows "Data (Consume n fb) = drop (unat n) (Data fb)"
proof (cases "n \<ge> fb_len fb")
  case True
  then show ?thesis
    using length_Data [OF assms] by (simp add: Consume_def Data_def word_le_nat_alt)
next
  case False
  define m where "m = unat (fb_len fb) - unat n"
  have sub: "unat (fb_len fb - n) = m" and le: "unat n + m = unat (fb_len fb)"
    using False by (auto simp: m_def unat_sub word_le_nat_alt)
  have bound: "unat (fb_len fb) \<le> length (fb_buf fb)" using assms by (simp add: fb_inv_def)
  let ?rest = "take m (drop (unat n) (fb_buf fb))"
  have len: "length ?rest = m" using bound le by simp
  have "take m (write_at 0 ?rest (fb_buf fb)) = ?rest"
    using take_write_at_zero [of ?rest "fb_buf fb"] len bound le by simp
  moreover have "?rest = drop (unat n) (Data fb)"
    by (simp add: Data_def m_def drop_take)
  ultimately show ?thesis
    using False by (simp add: Consume_def Data_def [of "_\<lparr>fb_len := _\<rparr>"] sub)
qed

lemma Consume_decreases:
  assumes "0 < n" and "unat n \<le> unat (fb_len fb)"
  shows "unat (fb_len (Consume n fb)) < unat (fb_len fb)"
  using assms by (auto simp: Consume_def word_le_nat_alt unat_sub word_less_nat_alt)

text \<open>The contract of a receive buffer as \<open>PacketDispatcher::Receive\<close> uses it:
  a bounded byte string that is extended at the end and consumed from the
  front.\<close>

locale byte_buffer =
  fixes append :: "byte list \<Rightarrow> 'b \<Rightarrow> bool \<times> 'b"
    and contents :: "'b \<Rightarrow> byte list"
    and consume :: "size_t \<Rightarrow> 'b \<Rightarrow> 'b"
    and invar :: "'b \<Rightarrow> bool"
    and capacity :: nat
  assumes append_fits:
      "invar b \<Longrightarrow> length (contents b) + length d \<le> capacity
        \<Longrightarrow> \<exists>b'. append d b = (True, b') \<and> invar b' \<and> contents b' = contents b @ d"
    and append_full:
      "invar b \<Longrightarrow> length d < 2 ^ 64 \<Longrightarrow> length (contents b) + length d > capacity
        \<Longrightarrow> append d b = (False, b)"
    and consume_invar: "invar b \<Longrightarrow> invar (consume n b)"
    and contents_consume: "invar b \<Longrightarrow> contents (consume n b) = drop (unat n) (contents b)"
    and contents_bound: "invar b \<Longrightarrow> length (contents b) \<le> capacity"
begin

lemma append_invar:
  assumes "invar b" and "length d < 2 ^ 64"
  shows "invar (snd (append d b))"
proof (cases "length (contents b) + length d \<le> capacity")
  case True
  then show ?thesis using append_fits [OF assms(1)] by fastforce
next
  case False
  then show ?thesis using append_full [OF assms] assms(1) by simp
qed

lemma append_ok_iff:
  assumes "invar b" and "length d < 2 ^ 64"
  shows "fst (append d b) \<longleftrightarrow> length (contents b) + length d \<le> capacity"
  using append_fits [OF assms(1), of d] append_full [OF assms]
  by (cases "length (contents b) + length d \<le> capacity") auto

text \<open>Bytes come out in the order they went in: consuming what was there
  before an append leaves the appended bytes.\<close>

lemma fifo:
  assumes "invar b" and "fst (append d b)" and "length d < 2 ^ 64"
    and "unat n = length (contents b)"
  shows "contents (consume n (snd (append d b))) = d"
proof -
  obtain b' where b': "append d b = (True, b')" "invar b'" "contents b' = contents b @ d"
    using append_fits [OF assms(1)] append_ok_iff [OF assms(1,3)] assms(2) by blast
  then show ?thesis using assms(4) by (simp add: contents_consume)
qed

end

interpretation frame_buffer: byte_buffer Append Data Consume fb_inv maxFrameSize
  by unfold_locales
     (auto intro: Append_fits Append_overflow Consume_inv dest: Data_bound
           simp: Data_Consume)

text \<open>\<open>Append\<close> accepts exactly the data that fits the 65536-byte array, the
  guard being exact at the width of \<open>size_t\<close> (no wrap-around of sum or
  difference); on success the buffer holds the old bytes followed by the new
  ones, on failure it is unchanged; both keep the buffer well-formed.\<close>

lemma FrameBuffer_Append_correct:
  assumes "fb_inv fb" and "length data < 2 ^ 64"
  shows "(fst (Append data fb) \<longleftrightarrow> length (Data fb) + length data \<le> maxFrameSize) \<and>
    Data (snd (Append data fb)) = (if fst (Append data fb) then Data fb @ data else Data fb) \<and>
    fb_inv (snd (Append data fb))"
  using frame_buffer.append_fits [OF assms(1), of data] frame_buffer.append_full [OF assms] assms(1)
  by (cases "length (Data fb) + length data \<le> maxFrameSize") auto

lemma FrameBuffer_Append_correct_witness:
  "fst (Append [1, 2] FrameBuffer_init) \<and> Data (snd (Append [1, 2] FrameBuffer_init)) = [1, 2]"
  using FrameBuffer_Append_correct [of FrameBuffer_init "[1, 2]"]
  by (simp add: fb_inv_init maxFrameSize_def)

section \<open>The length header\<close>

definition kHeaderSize :: nat where "kHeaderSize = 4"

text \<open>\<open>htonl\<close> followed by \<open>memcpy\<close> of the four bytes on a little-endian host,
  and its inverse: most significant byte first.\<close>

definition encode_be32 :: "uint32 \<Rightarrow> byte list" where
  "encode_be32 n = map (\<lambda>k. ucast (drop_bit k n)) [24, 16, 8, 0]"

definition decode_be32 :: "byte list \<Rightarrow> uint32" where
  "decode_be32 bs = foldl (\<lambda>acc b. or (push_bit 8 acc) (ucast b)) 0 (take kHeaderSize bs)"

lemma length_encode_be32 [simp]: "length (encode_be32 n) = 4"
  by (simp add: encode_be32_def)

lemma decode_encode_be32 [simp]: "decode_be32 (encode_be32 n @ r) = n"
proof (rule bit_word_eqI)
  fix k assume "k < LENGTH(32)"
  then consider "k < 8" | j where "k = 8 + j" "j < 8" | j where "k = 16 + j" "j < 8"
    | j where "k = 24 + j" "j < 8"
    by (cases "k < 8"; cases "k < 16"; cases "k < 24") (auto dest!: not_less [THEN iffD1] le_Suc_ex)
  then show "bit (decode_be32 (encode_be32 n @ r)) k = bit n k"
    by cases (auto simp: decode_be32_def encode_be32_def kHeaderSize_def bit_simps)
qed

lemma decode_be32_append [simp]:
  "4 \<le> length h \<Longrightarrow> decode_be32 (h @ r) = decode_be32 h"
  by (simp add: decode_be32_def kHeaderSize_def)

section \<open>Frames of a stream\<close>

text \<open>What \<open>PacketStream::SendFrame\<close> puts on the wire for one payload: the
  length is narrowed to 32 bits, and the payload is copied only when the
  narrowed length is not zero (the buffer is zero-filled otherwise).\<close>

definition encode_frame :: "byte list \<Rightarrow> byte list" where
  "encode_frame payload =
     (let payloadSize = (of_nat (length payload) :: uint32) in
      encode_be32 payloadSize @
      (if payloadSize > 0 then payload else replicate (length payload) 0))"

lemma encode_frame_small:
  "length p < 2 ^ 32 \<Longrightarrow> encode_frame p = encode_be32 (of_nat (length p)) @ p"
  by (auto simp: encode_frame_def Let_def word_gt_0 word_of_nat_eq_0_iff
           dest: nat_dvd_not_less)

text \<open>The reference meaning of a received byte string: the payloads of its
  complete frames, up to the first one that is refused, the bytes left over,
  and whether the stream is still waiting for more or was refused.\<close>

datatype stream_status = Waiting | Refused

function frames_of ::
  "(byte list \<Rightarrow> bool) \<Rightarrow> byte list \<Rightarrow> byte list list \<times> byte list \<times> stream_status" where
  "frames_of valid s =
     (if length s < kHeaderSize then ([], s, Waiting)
      else
        let n = unat (decode_be32 s) in
        if n > maxFrameSize then ([], s, Refused)
        else if length s < kHeaderSize + n then ([], s, Waiting)
        else
          let p = take n (drop kHeaderSize s); r = drop (kHeaderSize + n) s in
          if valid p then (case frames_of valid r of (ps, r', st) \<Rightarrow> (p # ps, r', st))
          else ([], r, Refused))"
  by auto
termination
  by (relation "measure (\<lambda>(v, s). length s)") (auto simp: kHeaderSize_def)

declare frames_of.simps [simp del]

text \<open>The four situations at the head of a stream.\<close>

definition frame_len :: "byte list \<Rightarrow> nat" where
  "frame_len s = unat (decode_be32 s)"

definition frame_payload :: "byte list \<Rightarrow> byte list" where
  "frame_payload s = take (frame_len s) (drop 4 s)"

definition incomplete :: "byte list \<Rightarrow> bool" where
  "incomplete s \<longleftrightarrow> length s < 4 \<or> frame_len s \<le> maxFrameSize \<and> length s < 4 + frame_len s"

definition oversized :: "byte list \<Rightarrow> bool" where
  "oversized s \<longleftrightarrow> 4 \<le> length s \<and> frame_len s > maxFrameSize"

definition complete :: "byte list \<Rightarrow> bool" where
  "complete s \<longleftrightarrow> frame_len s \<le> maxFrameSize \<and> 4 + frame_len s \<le> length s"

lemma head_cases:
  obtains "incomplete s" | "oversized s" | "complete s"
  unfolding incomplete_def oversized_def complete_def
  by (cases "length s < 4"; cases "frame_len s \<le> maxFrameSize"; cases "length s < 4 + frame_len s")
     (simp_all add: not_less not_le)

lemma frames_of_incomplete: "incomplete s \<Longrightarrow> frames_of v s = ([], s, Waiting)"
  by (auto simp: frames_of.simps [of v s] kHeaderSize_def incomplete_def frame_len_def)

lemma frames_of_oversized: "oversized s \<Longrightarrow> frames_of v s = ([], s, Refused)"
  by (auto simp: frames_of.simps [of v s] kHeaderSize_def oversized_def frame_len_def)

lemma frames_of_bad:
  "complete s \<Longrightarrow> \<not> v (frame_payload s) \<Longrightarrow> frames_of v s = ([], drop (4 + frame_len s) s, Refused)"
  by (auto simp: frames_of.simps [of v s] kHeaderSize_def complete_def frame_len_def
                 frame_payload_def Let_def)

lemma frames_of_good:
  "complete s \<Longrightarrow> v (frame_payload s) \<Longrightarrow> frames_of v s =
    (case frames_of v (drop (4 + frame_len s) s) of (ps, r, st) \<Rightarrow> (frame_payload s # ps, r, st))"
  by (auto simp: frames_of.simps [of v s] kHeaderSize_def complete_def frame_len_def
                 frame_payload_def Let_def)

lemmas frames_of_head = frames_of_incomplete frames_of_oversized frames_of_bad frames_of_good

lemma complete_append:
  assumes "complete s"
  shows "complete (s @ t)" "frame_len (s @ t) = frame_len s" "frame_payload (s @ t) = frame_payload s"
    "drop (4 + frame_len s) (s @ t) = drop (4 + frame_len s) s @ t"
  using assms by (simp_all add: complete_def frame_len_def frame_payload_def)

lemma complete_frame:
  assumes "length p \<le> maxFrameSize"
  shows "complete (encode_frame p @ s)" "frame_len (encode_frame p @ s) = length p"
    "frame_payload (encode_frame p @ s) = p"
    "drop (4 + length p) (encode_frame p @ s) = s"
proof -
  have "length p < 2 ^ 32" using assms by (simp add: maxFrameSize_def)
  then have e: "encode_frame p = encode_be32 (of_nat (length p)) @ p"
    and n: "frame_len (encode_frame p @ s) = length p"
    by (simp_all add: encode_frame_small frame_len_def unat_of_nat32)
  show "frame_len (encode_frame p @ s) = length p" by (rule n)
  show "complete (encode_frame p @ s)" "frame_payload (encode_frame p @ s) = p"
    "drop (4 + length p) (encode_frame p @ s) = s"
    using assms n by (simp_all add: complete_def frame_payload_def) (simp_all add: e)
qed

lemma frames_of_frame:
  "length p \<le> maxFrameSize \<Longrightarrow> v p \<Longrightarrow> frames_of v (encode_frame p @ s) =
    (case frames_of v s of (ps, r, st) \<Rightarrow> (p # ps, r, st))"
  by (simp add: frames_of_good complete_frame del: drop_append)

text \<open>Waiting only ever means that the rest is an incomplete frame, so more
  bytes may be appended before or after the complete frames are taken out.\<close>

lemma frames_of_append:
  "frames_of v s = (ps, r, Waiting) \<Longrightarrow>
   frames_of v (s @ t) = (case frames_of v (r @ t) of (ps', r', st) \<Rightarrow> (ps @ ps', r', st))"
proof (induction v s arbitrary: ps r rule: frames_of.induct)
  case (1 v s)
  show ?case
  proof (cases s rule: head_cases)
    case 3
    let ?r = "drop (4 + frame_len s) s"
    obtain qs where v: "v (frame_payload s)" and qs: "frames_of v ?r = (qs, r, Waiting)"
        "ps = frame_payload s # qs"
      using "1.prems" 3 by (cases "v (frame_payload s)") (auto simp: frames_of_head split: prod.splits)
    have "frames_of v (?r @ t) = (case frames_of v (r @ t) of (ps', r', st) \<Rightarrow> (qs @ ps', r', st))"
      using "1.IH" [OF _ refl _ _ refl refl] 3 v qs(1)
      by (auto simp: kHeaderSize_def complete_def frame_len_def frame_payload_def)
    then show ?thesis
      using 3 v by (simp add: frames_of_good complete_append qs(2) del: drop_append split: prod.splits)
  qed (use "1.prems" in \<open>auto simp: frames_of_head split: prod.splits\<close>)
qed

lemma frames_of_waiting_incomplete: "frames_of v s = (ps, r, Waiting) \<Longrightarrow> incomplete r"
proof (induction v s arbitrary: ps rule: frames_of.induct)
  case (1 v s)
  show ?case
  proof (cases s rule: head_cases)
    case 3
    then obtain qs where "v (frame_payload s)" "frames_of v (drop (4 + frame_len s) s) = (qs, r, Waiting)"
      using "1.prems" by (cases "v (frame_payload s)") (auto simp: frames_of_head split: prod.splits)
    then show ?thesis
      using "1.IH" [OF _ refl _ _ refl refl] 3
      by (auto simp: kHeaderSize_def complete_def frame_len_def frame_payload_def)
  qed (use "1.prems" in \<open>auto simp: frames_of_head\<close>)
qed

text \<open>A stream that is not refused has no refused beginning.\<close>

lemma frames_of_prefix_waiting:
  "frames_of v (s @ t) = (ps, r, Waiting) \<Longrightarrow> \<exists>ps' r'. frames_of v s = (ps', r', Waiting)"
proof (induction v s arbitrary: ps rule: frames_of.induct)
  case (1 v s)
  show ?case
  proof (cases s rule: head_cases)
    case 2
    then have "oversized (s @ t)" by (simp add: oversized_def frame_len_def)
    then show ?thesis using "1.prems" by (simp add: frames_of_head)
  next
    case 3
    let ?r = "drop (4 + frame_len s) s"
    have v: "v (frame_payload s)"
      using "1.prems" 3 frames_of_bad [of "s @ t" v] by (auto simp: complete_append)
    obtain qs where "frames_of v (?r @ t) = (qs, r, Waiting)"
      using "1.prems" 3 v frames_of_good [of "s @ t" v] by (auto simp: complete_append simp del: drop_append split: prod.splits)
    then obtain ps' r' where "frames_of v ?r = (ps', r', Waiting)"
      using "1.IH" [OF _ refl _ _ refl refl] 3 v
      by (auto simp: kHeaderSize_def complete_def frame_len_def frame_payload_def)
    then show ?thesis using 3 v by (simp add: frames_of_good)
  qed (simp add: frames_of_head)
qed

lemma frames_of_concat:
  assumes "\<forall>p \<in> set ps. length p \<le> maxFrameSize \<and> v p"
  shows "frames_of v (concat (map encode_frame ps) @ s) =
    (case frames_of v s of (qs, r, st) \<Rightarrow> (ps @ qs, r, st))"
  using assms by (induction ps) (auto simp: frames_of_frame split: prod.splits)

end
