(* ===== verification/Connection.thy ===== *)
theory Connection
  imports Framing
begin

text \<open>
  The server's per-connection object \<open>net::Client\<close>
  (network/inc/client/windows/Client.h, network/src/client/windows/Client.cpp)
  with its overlapped structures (OverlappedExt.h) and \<open>EIoType\<close>.

  An operation returns the new object and, in order, what it did to the
  outside: the callbacks it invoked and the Winsock calls it made.  The
  callbacks only touch the server's counters, never the object itself, so
  their effects are applied by the caller (\<open>ServerLifeCycle\<close>).
  Overrunning the fixed send buffer is undefined behaviour in C++ and appears
  as the output \<open>Overrun\<close>.
\<close>

datatype EIoType = Accept | Recv | Send | Disconnect

fun EIoType_ToString :: "EIoType \<Rightarrow> string" where
  "EIoType_ToString Accept = ''Accept''"
| "EIoType_ToString Recv = ''Recv''"
| "EIoType_ToString Send = ''Send''"
| "EIoType_ToString Disconnect = ''Disconnect''"

record RecvOverlapped =
  ro_ioType :: EIoType
  ro_clientSocket :: SocketHandle
  ro_len :: nat
  ro_buf :: "byte list"

record SendOverlapped =
  so_ioType :: EIoType
  so_clientSocket :: SocketHandle
  so_len :: uint32
  so_buf :: "byte list"

text \<open>Which of the \<open>std::function\<close> members are set.\<close>

record ClientCallbacks =
  cb_onConnected :: bool
  cb_onDisconnected :: bool
  cb_onRecvPosted :: bool
  cb_onRecvPostFailed :: bool
  cb_onSendPosted :: bool
  cb_onSendPostFailed :: bool

record Client =
  cl_socket :: SocketHandle
  cl_recv :: RecvOverlapped
  cl_send :: SendOverlapped
  cl_frameBuf :: FrameBuffer
  cl_callbacks :: ClientCallbacks
  cl_connectionEstablished :: bool
  cl_connectionEventCounted :: bool

datatype ClientOut =
    OnConnected | OnDisconnected
  | OnRecvPosted | OnRecvPostFailed
  | OnSendPosted | OnSendPostFailed
  | WSARecv SocketHandle nat
  | WSASend SocketHandle "byte list"
  | CallOs OsCall
  | Overrun nat

definition no_callbacks :: ClientCallbacks where
  "no_callbacks = \<lparr>cb_onConnected = False, cb_onDisconnected = False, cb_onRecvPosted = False,
     cb_onRecvPostFailed = False, cb_onSendPosted = False, cb_onSendPostFailed = False\<rparr>"

text \<open>\<open>ZeroMemory\<close> on the overlapped structures overwrites the member
  initialisers: the type becomes 0 (\<open>Accept\<close>) and the socket 0.\<close>

definition Client_new :: Client where
  "Client_new =
     \<lparr>cl_socket = InvalidSocket,
      cl_recv = \<lparr>ro_ioType = Accept, ro_clientSocket = 0, ro_len = 0, ro_buf = replicate recvBufferSize 0\<rparr>,
      cl_send = \<lparr>so_ioType = Accept, so_clientSocket = 0, so_len = 0, so_buf = replicate sendBufferSize 0\<rparr>,
      cl_frameBuf = FrameBuffer_init,
      cl_callbacks = no_callbacks,
      cl_connectionEstablished = False,
      cl_connectionEventCounted = False\<rparr>"

definition Client_UseCallbacks :: "ClientCallbacks \<Rightarrow> Client \<Rightarrow> Client" where
  "Client_UseCallbacks cbs c = c\<lparr>cl_callbacks := cbs\<rparr>"

definition Client_IsConnected :: "Client \<Rightarrow> bool" where
  "Client_IsConnected c = (cl_socket c \<noteq> InvalidSocket)"

definition emit :: "bool \<Rightarrow> ClientOut \<Rightarrow> ClientOut list" where
  "emit isSet e = (if isSet then [e] else [])"

definition EmitConnectedEvent :: "Client \<Rightarrow> Client \<times> ClientOut list" where
  "EmitConnectedEvent c =
     (if \<not> cl_connectionEstablished c \<or> cl_connectionEventCounted c then (c, [])
      else (c\<lparr>cl_connectionEventCounted := True\<rparr>,
            emit (cb_onConnected (cl_callbacks c)) OnConnected))"

definition MarkConnectionEstablished :: "Client \<Rightarrow> Client \<times> ClientOut list" where
  "MarkConnectionEstablished c = EmitConnectedEvent (c\<lparr>cl_connectionEstablished := True\<rparr>)"

definition EmitDisconnectedEvent :: "Client \<Rightarrow> Client \<times> ClientOut list" where
  "EmitDisconnectedEvent c =
     (if \<not> cl_connectionEstablished c \<or> \<not> cl_connectionEventCounted c then
        (c\<lparr>cl_connectionEstablished := False, cl_connectionEventCounted := False\<rparr>, [])
      else
        (c\<lparr>cl_connectionEventCounted := False, cl_connectionEstablished := False\<rparr>,
         emit (cb_onDisconnected (cl_callbacks c)) OnDisconnected))"

text \<open>\<open>result\<close> and \<open>lastError\<close>: what \<open>WSARecv\<close> (\<open>WSASend\<close>) and
  \<open>WSAGetLastError\<close> return.\<close>

definition PostRecv ::
  "int \<Rightarrow> WsaError \<Rightarrow> Client \<Rightarrow> (ENetworkError + unit) \<times> Client \<times> ClientOut list" where
  "PostRecv result lastError c =
     (let c' = c\<lparr>cl_recv := (cl_recv c)\<lparr>ro_len := length (ro_buf (cl_recv c)), ro_ioType := Recv\<rparr>\<rparr>;
          call = WSARecv (cl_socket c) (ro_len (cl_recv c'))
      in if result = SocketError \<and> lastError \<noteq> ERROR_IO_PENDING then
           (Inl WsaRecvFailed, c', call # emit (cb_onRecvPostFailed (cl_callbacks c)) OnRecvPostFailed)
         else (Inr (), c', call # emit (cb_onRecvPosted (cl_callbacks c)) OnRecvPosted))"

text \<open>\<open>CopyMemory\<close> into the send buffer has no bound; the low 32 bits of the
  size are used.\<close>

definition PostSend ::
  "int \<Rightarrow> WsaError \<Rightarrow> byte list \<Rightarrow> Client \<Rightarrow> (ENetworkError + unit) \<times> Client \<times> ClientOut list" where
  "PostSend result lastError data c =
     (let len = (of_nat (length data) :: uint32);
          n = unat len;
          overrun = (if n > length (so_buf (cl_send c)) then [Overrun n] else []);
          c' = c\<lparr>cl_send := (cl_send c)\<lparr>
                   so_buf := take (length (so_buf (cl_send c))) (write_at 0 (take n data) (so_buf (cl_send c))),
                   so_len := len, so_ioType := Send\<rparr>\<rparr>;
          call = WSASend (cl_socket c) (take n data)
      in if result = SocketError \<and> lastError \<noteq> ERROR_IO_PENDING then
           (Inl WsaSendFailed, c',
            overrun @ call # emit (cb_onSendPostFailed (cl_callbacks c)) OnSendPostFailed)
         else (Inr (), c', overrun @ call # emit (cb_onSendPosted (cl_callbacks c)) OnSendPosted))"

definition Client_Close :: "Client \<Rightarrow> Client \<times> ClientOut list" where
  "Client_Close c =
     (case EmitDisconnectedEvent c of (c1, outs) \<Rightarrow>
        if cl_socket c1 = InvalidSocket then (c1, outs)
        else (c1\<lparr>cl_socket := InvalidSocket\<rparr>,
              outs @ [CallOs (OsShutdown (cl_socket c1)), CallOs (OsCloseSocket (cl_socket c1))]))"

section \<open>Invariant\<close>

text \<open>The buffers keep their sizes and the connected event is counted only for
  an established connection.\<close>

definition client_inv :: "Client \<Rightarrow> bool" where
  "client_inv c \<longleftrightarrow> fb_inv (cl_frameBuf c)
     \<and> length (ro_buf (cl_recv c)) = recvBufferSize
     \<and> length (so_buf (cl_send c)) = sendBufferSize
     \<and> (cl_connectionEventCounted c = cl_connectionEstablished c)"

lemma client_inv_new [inv_intros]: "client_inv Client_new"
  by (simp add: client_inv_def Client_new_def fb_inv_init)

lemma client_inv_UseCallbacks [inv_intros]: "client_inv c \<Longrightarrow> client_inv (Client_UseCallbacks cbs c)"
  by (simp add: client_inv_def Client_UseCallbacks_def)

lemma client_inv_Mark [inv_intros]: "client_inv c \<Longrightarrow> client_inv (fst (MarkConnectionEstablished c))"
  by (auto simp: client_inv_def MarkConnectionEstablished_def EmitConnectedEvent_def)

lemma client_inv_Close [inv_intros]: "client_inv c \<Longrightarrow> client_inv (fst (Client_Close c))"
  by (auto simp: client_inv_def Client_Close_def EmitDisconnectedEvent_def)

lemma client_inv_PostRecv [inv_intros]:
  "client_inv c \<Longrightarrow> client_inv (fst (snd (PostRecv r e c)))"
  by (simp add: client_inv_def PostRecv_def Let_def)

lemma client_inv_PostSend [inv_intros]:
  "client_inv c \<Longrightarrow> client_inv (fst (snd (PostSend r e d c)))"
  by (auto simp: client_inv_def PostSend_def Let_def write_at_def)

lemma client_inv_frameBuf [inv_intros]:
  "client_inv c \<Longrightarrow> fb_inv fb \<Longrightarrow> client_inv (c\<lparr>cl_frameBuf := fb\<rparr>)"
  by (simp add: client_inv_def)

lemma client_inv_socket [inv_intros]: "client_inv c \<Longrightarrow> client_inv (c\<lparr>cl_socket := h\<rparr>)"
  by (simp add: client_inv_def)

lemma Close_socket [simp]: "cl_socket (fst (Client_Close c)) = InvalidSocket"
  by (auto simp: Client_Close_def EmitDisconnectedEvent_def)

lemma Close_flags [simp]:
  "\<not> cl_connectionEstablished (fst (Client_Close c))"
  "\<not> cl_connectionEventCounted (fst (Client_Close c))"
  by (auto simp: Client_Close_def EmitDisconnectedEvent_def)

lemma Close_frameBuf [simp]: "cl_frameBuf (fst (Client_Close c)) = cl_frameBuf c"
  by (auto simp: Client_Close_def EmitDisconnectedEvent_def)

lemma Close_callbacks [simp]: "cl_callbacks (fst (Client_Close c)) = cl_callbacks c"
  by (auto simp: Client_Close_def EmitDisconnectedEvent_def)

text \<open>Closing a connection is idempotent and reports each connection once:
  a second \<open>Close\<close> changes nothing and makes no call, and \<open>onDisconnected\<close> is
  emitted by a \<open>Close\<close> exactly when the connection had been counted as
  connected (given that the callback is set), before the socket is shut down
  and closed.\<close>

theorem Client_Close_once:
  assumes "client_inv c" and "cb_onDisconnected (cl_callbacks c)"
  shows "Client_Close (fst (Client_Close c)) = (fst (Client_Close c), [])
    \<and> (OnDisconnected \<in> set (snd (Client_Close c)) \<longleftrightarrow> cl_connectionEventCounted c)
    \<and> snd (Client_Close c) =
        (if cl_connectionEstablished c then [OnDisconnected] else []) @
        (if Client_IsConnected c
         then [CallOs (OsShutdown (cl_socket c)), CallOs (OsCloseSocket (cl_socket c))] else [])"
  using assms
  by (auto simp: Client_Close_def EmitDisconnectedEvent_def Client_IsConnected_def client_inv_def emit_def)

definition all_callbacks :: ClientCallbacks where
  "all_callbacks = \<lparr>cb_onConnected = True, cb_onDisconnected = True, cb_onRecvPosted = True,
     cb_onRecvPostFailed = True, cb_onSendPosted = True, cb_onSendPostFailed = True\<rparr>"

lemma Client_Close_once_witness:
  "snd (Client_Close (fst (MarkConnectionEstablished
      (Client_UseCallbacks all_callbacks (Client_new\<lparr>cl_socket := 42\<rparr>))))) =
   [OnDisconnected, CallOs (OsShutdown 42), CallOs (OsCloseSocket 42)]"
  using Client_Close_once [of "fst (MarkConnectionEstablished
      (Client_UseCallbacks all_callbacks (Client_new\<lparr>cl_socket := 42\<rparr>)))"]
    client_inv_Mark [OF client_inv_UseCallbacks [OF client_inv_socket [OF client_inv_new]]]
  by (simp add: MarkConnectionEstablished_def EmitConnectedEvent_def Client_UseCallbacks_def
        Client_new_def all_callbacks_def Client_IsConnected_def InvalidSocket_def)



section \<open>Release\<close>

interpretation connection: releasable Client_Close
  by unfold_locales (auto simp: Client_Close_def EmitDisconnectedEvent_def)

end
