(* ===== verification/Scope.thy ===== *)
theory Scope
  imports Prelude
begin

text \<open>
  Scope guards of the base library: \<open>scope::Defer\<close>,
  \<open>scope::DeferContext\<close>, \<open>scope::DeferredItemHolder\<close> (lib/inc/scope,
  lib/src/scope/Defer.cpp).

  A deferred function is kept by name (type \<open>'f\<close>); destroying a guard yields
  the calls it makes, in order.
\<close>

section \<open>Defer\<close>

record 'f Defer =
  df_deferFns :: "'f list"

definition Defer_new :: "'f \<Rightarrow> 'f Defer" where
  "Defer_new fn = \<lparr>df_deferFns = [fn]\<rparr>"

definition Defer_Add :: "'f \<Rightarrow> 'f Defer \<Rightarrow> 'f Defer" where
  "Defer_Add fn d = d\<lparr>df_deferFns := df_deferFns d @ [fn]\<rparr>"

definition Defer_destroy :: "'f Defer \<Rightarrow> 'f list \<times> 'f Defer" where
  "Defer_destroy d = (rev (df_deferFns d), d\<lparr>df_deferFns := []\<rparr>)"

section \<open>DeferContext\<close>

record 'f DeferContext =
  dc_item :: "addr option"
  dc_deferFns :: "'f list"
  dc_needReturn :: bool

definition DeferContext_new :: "addr option \<Rightarrow> 'f \<Rightarrow> 'f DeferContext" where
  "DeferContext_new item fn = \<lparr>dc_item = item, dc_deferFns = [fn], dc_needReturn = True\<rparr>"

definition DeferContext_Defer :: "'f \<Rightarrow> 'f DeferContext \<Rightarrow> 'f DeferContext" where
  "DeferContext_Defer fn c = c\<lparr>dc_deferFns := dc_deferFns c @ [fn]\<rparr>"

definition DeferContext_Get :: "'f DeferContext \<Rightarrow> addr option" where
  "DeferContext_Get c = dc_item c"

text \<open>The calls made by the destructor.\<close>

definition DeferContext_destroy :: "'f DeferContext \<Rightarrow> ('f \<times> addr option) list" where
  "DeferContext_destroy c =
     (if \<not> dc_needReturn c then [] else map (\<lambda>f. (f, dc_item c)) (rev (dc_deferFns c)))"

text \<open>\<open>MoveFrom\<close>: the new value of \<open>*this\<close> and of \<open>from\<close> (whose vector is
  left empty).  What \<open>*this\<close> held before is overwritten.\<close>

definition MoveFrom :: "'f DeferContext \<Rightarrow> 'f DeferContext \<Rightarrow> 'f DeferContext \<times> 'f DeferContext" where
  "MoveFrom this from =
     (this\<lparr>dc_item := dc_item from, dc_deferFns := dc_deferFns from, dc_needReturn := dc_needReturn from\<rparr>,
      from\<lparr>dc_item := None, dc_deferFns := [], dc_needReturn := False\<rparr>)"

definition DeferContext_move :: "'f DeferContext \<Rightarrow> 'f DeferContext \<times> 'f DeferContext" where
  "DeferContext_move from = MoveFrom \<lparr>dc_item = None, dc_deferFns = [], dc_needReturn = True\<rparr> from"

text \<open>The cleanup of a \<open>DeferContext\<close> happens exactly once however often it
  is moved: destroying the moved-to object runs precisely the deferred functions
  in reverse order of registration, destroying the moved-from object runs none.
  Move assignment onto a guard, however, discards the target's own cleanup.\<close>

lemma DeferContext_move_once:
  "DeferContext_destroy (fst (DeferContext_move c)) = DeferContext_destroy c
   \<and> DeferContext_destroy (snd (DeferContext_move c)) = []
   \<and> DeferContext_destroy (DeferContext_Defer g (DeferContext_new x f)) = [(g, x), (f, x)]
   \<and> DeferContext_destroy (fst (MoveFrom t c)) = DeferContext_destroy c"
  by (simp add: DeferContext_move_def MoveFrom_def DeferContext_destroy_def DeferContext_Defer_def
        DeferContext_new_def)

section \<open>DeferredItemHolder\<close>

record 'f DeferredItemHolder =
  dh_items :: "(addr option \<times> 'f DeferContext) list"

text \<open>\<open>emplace\<close> does not overwrite: with the key present the moved context is
  destroyed at once; its destructor calls are the second component.\<close>

definition Hold ::
  "'f DeferContext \<Rightarrow> 'f DeferredItemHolder \<Rightarrow> 'f DeferredItemHolder \<times> ('f \<times> addr option) list" where
  "Hold ctx h =
     (let key = DeferContext_Get ctx; ctx' = fst (DeferContext_move ctx) in
      (h\<lparr>dh_items := alist_emplace key ctx' (dh_items h)\<rparr>,
       if map_of (dh_items h) key = None then [] else DeferContext_destroy ctx'))"

definition holder_Release ::
  "addr option \<Rightarrow> 'f DeferredItemHolder \<Rightarrow> 'f DeferContext option \<times> 'f DeferredItemHolder" where
  "holder_Release key h =
     (case map_of (dh_items h) key of
        None \<Rightarrow> (None, h)
      | Some ctx \<Rightarrow> (Some (fst (DeferContext_move ctx)), h\<lparr>dh_items := alist_erase key (dh_items h)\<rparr>))"

definition holder_Erase ::
  "addr option \<Rightarrow> 'f DeferredItemHolder \<Rightarrow> 'f DeferredItemHolder \<times> ('f \<times> addr option) list" where
  "holder_Erase key h =
     (h\<lparr>dh_items := alist_erase key (dh_items h)\<rparr>,
      case map_of (dh_items h) key of None \<Rightarrow> [] | Some ctx \<Rightarrow> DeferContext_destroy ctx)"

definition holder_ForEach :: "'f DeferredItemHolder \<Rightarrow> addr option list" where
  "holder_ForEach h = keys (dh_items h)"

text \<open>Destroying the holder destroys every context it still holds.  The order is that
  of the hash table; here that of the list.\<close>

definition holder_destroy :: "'f DeferredItemHolder \<Rightarrow> ('f \<times> addr option) list" where
  "holder_destroy h = concat (map (\<lambda>(key, ctx). DeferContext_destroy ctx) (dh_items h))"

text \<open>A keyed holder: what the acceptor relies on.\<close>

locale keyed_holder =
  fixes hold :: "'c \<Rightarrow> 'h \<Rightarrow> 'h"
    and release :: "'k \<Rightarrow> 'h \<Rightarrow> 'c option \<times> 'h"
    and key :: "'c \<Rightarrow> 'k"
    and held :: "'h \<Rightarrow> 'k \<Rightarrow> 'c option"
  assumes held_hold:
      "held h (key c) = None \<Longrightarrow> held (hold c h) = (held h)(key c \<mapsto> c)"
    and release_held: "fst (release k h) = held h k"
    and held_release: "held (snd (release k h)) = (held h)(k := None)"
begin

lemma release_after_hold:
  "held h (key c) = None \<Longrightarrow> fst (release (key c) (hold c h)) = Some c"
  by (simp add: release_held held_hold)

lemma release_twice: "fst (release k (snd (release k h))) = None"
  by (simp add: release_held held_release)

lemma release_other:
  "k \<noteq> k' \<Longrightarrow> fst (release k' (snd (release k h))) = fst (release k' h)"
  by (simp add: release_held held_release)

end

text \<open>On contexts that have not been moved from, moving is the identity.\<close>

lemma move_id [simp]: "fst (DeferContext_move c) = c"
  by (simp add: DeferContext_move_def MoveFrom_def)

interpretation item_holder: keyed_holder "\<lambda>c h. fst (Hold c h)" holder_Release DeferContext_Get
    "\<lambda>h. map_of (dh_items h)"
  by unfold_locales
     (auto simp: Hold_def Let_def holder_Release_def map_of_alist_emplace fun_eq_iff
           split: option.splits)

end
