(* ===== verification/Pools.thy ===== *)
theory Pools
  imports Scope "HOL-Library.Multiset"
begin

text \<open>
  The object pools of lib/inc/memory: \<open>ObjectPool\<close> (LockObjectPool.hpp),
  \<open>ThreadLocalPool\<close> and \<open>HybridObjectPool\<close>.  A pooled object is its address;
  \<open>new T()\<close> and \<open>make_shared\<close> yield the next address never used before.  The
  operations of \<open>ObjectPool\<close> hold its mutex throughout; those of the other two
  touch the calling thread's storage and, under the global mutex, the shared
  vector, so each is one atomic step of an interleaving.

  All three implement the locale \<open>object_pool\<close>, whose client theorem is the one
  that matters: an object is never in the hands of two users, and every object
  ever created is either idle in the pool or with its user.
\<close>

section \<open>The contract\<close>

datatype ('t, 'a) pool_event = Get_by 't | Put_by 't 'a

locale object_pool =
  fixes get :: "'t \<Rightarrow> 'p \<Rightarrow> addr \<times> 'p"
    and put :: "'t \<Rightarrow> addr \<Rightarrow> 'p \<Rightarrow> 'p"
    and idle :: "'p \<Rightarrow> addr multiset"
    and created :: "'p \<Rightarrow> nat"
  assumes get_idle_or_new:
      "get t p = (x, p') \<Longrightarrow>
        (x \<in># idle p \<and> idle p = add_mset x (idle p') \<and> created p' = created p)
        \<or> (x = created p \<and> idle p' = idle p \<and> created p' = Suc (created p))"
    and idle_put: "idle (put t x p) = add_mset x (idle p)"
    and created_put: "created (put t x p) = created p"
begin

text \<open>A run keeps the pool and the objects in use; returning an object that is
  not in use is the caller's error and ends the run.\<close>

fun run :: "('t, addr) pool_event list \<Rightarrow> 'p \<Rightarrow> addr multiset \<Rightarrow> ('p \<times> addr multiset) option" where
  "run [] p used = Some (p, used)"
| "run (Get_by t # es) p used = (case get t p of (x, p') \<Rightarrow> run es p' (add_mset x used))"
| "run (Put_by t x # es) p used =
     (if x \<in># used then run es (put t x p) (used - {#x#}) else None)"

text \<open>Every object created is in exactly one place.\<close>

definition balanced :: "'p \<Rightarrow> addr multiset \<Rightarrow> bool" where
  "balanced p used \<longleftrightarrow> idle p + used = mset_set {0..<created p}"

lemma balanced_count:
  assumes "balanced p used"
  shows "count (idle p) x + count used x = (if x < created p then 1 else 0)"
  using arg_cong [OF assms [unfolded balanced_def], of "\<lambda>m. count m x"]
  by (simp add: count_mset_set')

lemma balanced_get:
  assumes "balanced p used" and "get t p = (x, p')"
  shows "balanced p' (add_mset x used)"
  using get_idle_or_new [OF assms(2)]
proof
  assume "x \<in># idle p \<and> idle p = add_mset x (idle p') \<and> created p' = created p"
  then show ?thesis using assms(1) by (simp add: balanced_def)
next
  assume "x = created p \<and> idle p' = idle p \<and> created p' = Suc (created p)"
  then show ?thesis using assms(1) by (simp add: balanced_def atLeast0_lessThan_Suc)
qed

lemma balanced_put:
  assumes "balanced p used" and "x \<in># used"
  shows "balanced (put t x p) (used - {#x#})"
proof -
  obtain A where "used = add_mset x A" using multi_member_split [OF assms(2)] by blast
  then show ?thesis using assms(1) by (simp add: balanced_def idle_put created_put)
qed

lemma balanced_run:
  "balanced p used \<Longrightarrow> run es p used = Some (p', used') \<Longrightarrow> balanced p' used'"
proof (induction es p used rule: run.induct)
  case (2 t es p used)
  then show ?case using balanced_get by (auto split: prod.splits)
next
  case (3 t x es p used)
  then show ?case using balanced_put by (auto split: if_splits)
qed simp

text \<open>Exclusive use: after any run of gets and puts an object is with at most
  one user, never idle and used at once, and never lost.\<close>

definition exclusive :: "'p \<Rightarrow> addr multiset \<Rightarrow> bool" where
  "exclusive p used \<longleftrightarrow> (\<forall>x. count used x \<le> 1 \<and> count (idle p) x \<le> 1 \<and> \<not> (x \<in># idle p \<and> x \<in># used)
     \<and> (x \<in># idle p \<or> x \<in># used \<longleftrightarrow> x < created p))"

lemma balanced_exclusive: "balanced p used \<Longrightarrow> exclusive p used"
  unfolding exclusive_def
proof (intro allI)
  fix x assume "balanced p used"
  from balanced_count [OF this, of x]
  show "count used x \<le> 1 \<and> count (idle p) x \<le> 1 \<and> \<not> (x \<in># idle p \<and> x \<in># used)
     \<and> (x \<in># idle p \<or> x \<in># used \<longleftrightarrow> x < created p)"
    by (auto simp flip: count_greater_zero_iff split: if_splits)
qed

lemma run_exclusive:
  "balanced p used \<Longrightarrow> run es p used = Some (p', used') \<Longrightarrow> exclusive p' used'"
  using balanced_run balanced_exclusive by blast

end

text \<open>A pool whose threads may end: the ending thread's cache stays in the
  pool.\<close>

datatype 't thread_event = Pool_event "('t, addr) pool_event" | Exit_of 't

locale retiring_pool = object_pool +
  fixes retire :: "'a \<Rightarrow> 'b \<Rightarrow> 'b"
  assumes idle_retire: "idle (retire t p) = idle p"
    and created_retire: "created (retire t p) = created p"
begin

fun run_threads :: "'a thread_event list \<Rightarrow> 'b \<Rightarrow> addr multiset \<Rightarrow> ('b \<times> addr multiset) option" where
  "run_threads [] p used = Some (p, used)"
| "run_threads (Pool_event e # es) p used =
     (case run [e] p used of None \<Rightarrow> None | Some (p', used') \<Rightarrow> run_threads es p' used')"
| "run_threads (Exit_of t # es) p used = run_threads es (retire t p) used"

lemma balanced_run_threads:
  "balanced p used \<Longrightarrow> run_threads es p used = Some (p', used') \<Longrightarrow> balanced p' used'"
proof (induction es p used rule: run_threads.induct)
  case (2 e es p used)
  then show ?case using balanced_run [of p used "[e]"] by (auto split: option.splits)
next
  case (3 t es p used)
  then show ?case by (simp add: balanced_def idle_retire created_retire)
qed simp

end

section \<open>ObjectPool (LockObjectPool.hpp)\<close>

record ObjectPool =
  op_all :: "addr list"
  op_available :: "addr list"
  op_next :: addr

definition op_make :: "ObjectPool \<Rightarrow> addr \<times> ObjectPool" where
  "op_make p = (op_next p, p\<lparr>op_next := Suc (op_next p)\<rparr>)"

fun PreAllocate :: "nat \<Rightarrow> ObjectPool \<Rightarrow> ObjectPool" where
  "PreAllocate 0 p = p"
| "PreAllocate (Suc n) p =
     (case op_make p of (ptr, p1) \<Rightarrow>
        PreAllocate n (p1\<lparr>op_available := op_available p1 @ [ptr], op_all := op_all p1 @ [ptr]\<rparr>))"

definition ObjectPool_new :: "nat \<Rightarrow> ObjectPool" where
  "ObjectPool_new preAllocCount = PreAllocate preAllocCount \<lparr>op_all = [], op_available = [], op_next = 0\<rparr>"

definition op_Acquire :: "ObjectPool \<Rightarrow> addr \<times> ObjectPool" where
  "op_Acquire p =
     (if op_available p = [] then
        (case op_make p of (raw, p1) \<Rightarrow> (raw, p1\<lparr>op_all := op_all p1 @ [raw]\<rparr>))
      else (last (op_available p), p\<lparr>op_available := butlast (op_available p)\<rparr>))"

definition op_Release :: "addr option \<Rightarrow> ObjectPool \<Rightarrow> ObjectPool" where
  "op_Release obj p =
     (case obj of None \<Rightarrow> p | Some x \<Rightarrow> p\<lparr>op_available := op_available p @ [x]\<rparr>)"

definition op_Clear :: "ObjectPool \<Rightarrow> ObjectPool" where
  "op_Clear p = p\<lparr>op_available := [], op_all := []\<rparr>"

definition AvailableCount :: "ObjectPool \<Rightarrow> nat" where
  "AvailableCount p = length (op_available p)"

definition TotalCount :: "ObjectPool \<Rightarrow> nat" where
  "TotalCount p = length (op_all p)"

lemma mset_last_butlast: "xs \<noteq> [] \<Longrightarrow> mset xs = add_mset (last xs) (mset (butlast xs))"
  by (metis append_butlast_last_id mset.simps add.commute mset_append add_mset_add_single mset_single_iff_right)

interpretation lock_pool: object_pool "\<lambda>t. op_Acquire" "\<lambda>t x. op_Release (Some x)"
    "\<lambda>p. mset (op_available p)" op_next
proof unfold_locales
  fix p x p'
  assume "op_Acquire p = (x, p')"
  then show "(x \<in># mset (op_available p) \<and> mset (op_available p) = add_mset x (mset (op_available p'))
       \<and> op_next p' = op_next p)
    \<or> (x = op_next p \<and> mset (op_available p') = mset (op_available p) \<and> op_next p' = Suc (op_next p))"
    by (auto simp: op_Acquire_def op_make_def mset_last_butlast split: if_splits)
qed (simp_all add: op_Release_def)

lemma PreAllocate_fields:
  "op_next (PreAllocate n p) = op_next p + n
   \<and> op_available (PreAllocate n p) = op_available p @ [op_next p..<op_next p + n]
   \<and> op_all (PreAllocate n p) = op_all p @ [op_next p..<op_next p + n]"
  by (induction n p rule: PreAllocate.induct) (auto simp: op_make_def upt_conv_Cons)

section \<open>Storage per thread\<close>

text \<open>A \<open>thread_local\<close> object comes into being, empty, when its thread first
  asks for it.\<close>

definition grow :: "nat \<Rightarrow> 'a list list \<Rightarrow> 'a list list" where
  "grow t ls = ls @ replicate (Suc t - length ls) []"

definition local_of :: "nat \<Rightarrow> 'a list list \<Rightarrow> 'a list" where
  "local_of t ls = grow t ls ! t"

definition set_local :: "nat \<Rightarrow> 'a list \<Rightarrow> 'a list list \<Rightarrow> 'a list list" where
  "set_local t xs ls = (grow t ls)[t := xs]"

definition all_local :: "'a list list \<Rightarrow> 'a multiset" where
  "all_local ls = mset (concat ls)"

lemma length_grow: "t < length (grow t ls)"
  by (simp add: grow_def)

lemma concat_grow [simp]: "concat (grow t ls) = concat ls"
  by (simp add: grow_def concat_replicate_trivial)

lemma mset_concat_update:
  "t < length ls \<Longrightarrow> mset (concat (ls[t := xs])) + mset (ls ! t) = mset (concat ls) + mset xs"
  by (induction ls arbitrary: t) (auto simp: nth_Cons ac_simps split: nat.splits)

lemma all_local_set:
  "all_local (set_local t xs ls) + mset (local_of t ls) = all_local ls + mset xs"
  using mset_concat_update [OF length_grow, of t ls xs]
  by (simp add: all_local_def set_local_def local_of_def)

lemma local_of_set [simp]: "local_of t (set_local t xs ls) = xs"
  by (simp add: local_of_def set_local_def grow_def nth_append)

section \<open>ThreadLocalPool\<close>

record ThreadLocalPool =
  tl_all :: "addr list list"
  tl_available :: "addr list list"
  tl_next :: addr

definition tl_Acquire :: "nat \<Rightarrow> ThreadLocalPool \<Rightarrow> addr \<times> ThreadLocalPool" where
  "tl_Acquire t p =
     (let available = local_of t (tl_available p) in
      if available = [] then
        (tl_next p, p\<lparr>tl_next := Suc (tl_next p),
                     tl_all := set_local t (local_of t (tl_all p) @ [tl_next p]) (tl_all p)\<rparr>)
      else (last available, p\<lparr>tl_available := set_local t (butlast available) (tl_available p)\<rparr>))"

definition tl_Release :: "nat \<Rightarrow> addr option \<Rightarrow> ThreadLocalPool \<Rightarrow> ThreadLocalPool" where
  "tl_Release t item p =
     (case item of None \<Rightarrow> p
      | Some x \<Rightarrow> p\<lparr>tl_available := set_local t (local_of t (tl_available p) @ [x]) (tl_available p)\<rparr>)"

definition tl_Clear :: "nat \<Rightarrow> ThreadLocalPool \<Rightarrow> ThreadLocalPool" where
  "tl_Clear t p = p\<lparr>tl_available := set_local t [] (tl_available p), tl_all := set_local t [] (tl_all p)\<rparr>"

definition GetAvailableCount :: "nat \<Rightarrow> ThreadLocalPool \<Rightarrow> nat" where
  "GetAvailableCount t p = length (local_of t (tl_available p))"

definition GetTotalCount :: "nat \<Rightarrow> ThreadLocalPool \<Rightarrow> nat" where
  "GetTotalCount t p = length (local_of t (tl_all p))"

lemma all_local_pop:
  "local_of t ls \<noteq> [] \<Longrightarrow>
    all_local ls = add_mset (last (local_of t ls)) (all_local (set_local t (butlast (local_of t ls)) ls))"
  using all_local_set [of t "butlast (local_of t ls)" ls]
  by (simp add: mset_last_butlast)

lemma all_local_push:
  "all_local (set_local t (local_of t ls @ [x]) ls) = add_mset x (all_local ls)"
  using all_local_set [of t "local_of t ls @ [x]" ls] by simp

interpretation thread_pool: object_pool tl_Acquire "\<lambda>t x. tl_Release t (Some x)"
    "\<lambda>p. all_local (tl_available p)" tl_next
proof unfold_locales
  fix t p x p'
  assume a: "tl_Acquire t p = (x, p')"
  show "(x \<in># all_local (tl_available p) \<and> all_local (tl_available p) = add_mset x (all_local (tl_available p'))
       \<and> tl_next p' = tl_next p)
    \<or> (x = tl_next p \<and> all_local (tl_available p') = all_local (tl_available p) \<and> tl_next p' = Suc (tl_next p))"
    using a all_local_pop [of t "tl_available p"]
    by (cases "local_of t (tl_available p) = []") (auto simp: tl_Acquire_def Let_def)
qed (simp_all add: tl_Release_def all_local_push)

section \<open>HybridObjectPool\<close>

definition LocalMaxCapacity :: nat where "LocalMaxCapacity = 50 * 2"
definition ChunkSize :: nat where "ChunkSize = 50"

record HybridObjectPool =
  hp_global :: "addr list"
  hp_local :: "addr list list"
  hp_next :: addr

definition HybridObjectPool_init :: HybridObjectPool where
  "HybridObjectPool_init = \<lparr>hp_global = [], hp_local = [], hp_next = 0\<rparr>"

text \<open>Taking the last element of the thread's vector.\<close>

definition hp_pop :: "nat \<Rightarrow> HybridObjectPool \<Rightarrow> addr \<times> HybridObjectPool" where
  "hp_pop t p =
     (let pool = local_of t (hp_local p) in
      (last pool, p\<lparr>hp_local := set_local t (butlast pool) (hp_local p)\<rparr>))"

text \<open>Fetching a chunk from the end of the global pool.\<close>

definition hp_fetch :: "nat \<Rightarrow> HybridObjectPool \<Rightarrow> HybridObjectPool" where
  "hp_fetch t p =
     (let n = length (hp_global p) in
      if n > 0 then
        let fetchCount = min n ChunkSize in
        p\<lparr>hp_local := set_local t (local_of t (hp_local p) @ drop (n - fetchCount) (hp_global p)) (hp_local p),
          hp_global := take (n - fetchCount) (hp_global p)\<rparr>
      else p)"

definition Get :: "nat \<Rightarrow> HybridObjectPool \<Rightarrow> addr \<times> HybridObjectPool" where
  "Get t p =
     (if local_of t (hp_local p) \<noteq> [] then hp_pop t p
      else let p1 = hp_fetch t p in
        if local_of t (hp_local p1) = [] then (hp_next p1, p1\<lparr>hp_next := Suc (hp_next p1)\<rparr>)
        else hp_pop t p1)"

definition Return :: "nat \<Rightarrow> addr option \<Rightarrow> HybridObjectPool \<Rightarrow> HybridObjectPool" where
  "Return t item p =
     (case item of None \<Rightarrow> p
      | Some x \<Rightarrow>
        let pool = local_of t (hp_local p) @ [x] in
        if length pool \<ge> LocalMaxCapacity then
          p\<lparr>hp_global := hp_global p @ drop (length pool - ChunkSize) pool,
            hp_local := set_local t (take (length pool - ChunkSize) pool) (hp_local p)\<rparr>
        else p\<lparr>hp_local := set_local t pool (hp_local p)\<rparr>)"

text \<open>\<open>~LocalStorage\<close> at the end of a thread.\<close>

definition LocalStorage_destroy :: "nat \<Rightarrow> HybridObjectPool \<Rightarrow> HybridObjectPool" where
  "LocalStorage_destroy t p =
     (if local_of t (hp_local p) = [] then p
      else p\<lparr>hp_global := hp_global p @ local_of t (hp_local p), hp_local := set_local t [] (hp_local p)\<rparr>)"

definition hp_idle :: "HybridObjectPool \<Rightarrow> addr multiset" where
  "hp_idle p = mset (hp_global p) + all_local (hp_local p)"

lemma mset_take_drop: "mset (take n xs) + mset (drop n xs) = mset xs"
  by (metis append_take_drop_id mset_append)

lemma hp_idle_fetch [simp]: "hp_idle (hp_fetch t p) = hp_idle p" "hp_next (hp_fetch t p) = hp_next p"
proof -
  let ?k = "length (hp_global p) - min (length (hp_global p)) ChunkSize"
  have "all_local (set_local t (local_of t (hp_local p) @ drop ?k (hp_global p)) (hp_local p)) =
      all_local (hp_local p) + mset (drop ?k (hp_global p))"
    using all_local_set [of t "local_of t (hp_local p) @ drop ?k (hp_global p)" "hp_local p"] by simp
  then show "hp_idle (hp_fetch t p) = hp_idle p"
    using mset_take_drop [of ?k "hp_global p"]
    by (simp add: hp_idle_def hp_fetch_def Let_def ac_simps)
qed (simp add: hp_fetch_def Let_def)

lemma hp_idle_pop:
  "local_of t (hp_local p) \<noteq> [] \<Longrightarrow> hp_pop t p = (x, p') \<Longrightarrow>
    hp_idle p = add_mset x (hp_idle p') \<and> hp_next p' = hp_next p"
  using all_local_pop [of t "hp_local p"] by (auto simp: hp_pop_def hp_idle_def Let_def)

lemma all_local_split:
  assumes "mset a + mset b = mset (local_of t ls @ [x])"
  shows "all_local (set_local t a ls) + mset b = add_mset x (all_local ls)"
proof -
  let ?L = "mset (local_of t ls)"
  have "(all_local (set_local t a ls) + mset b) + ?L = (all_local (set_local t a ls) + ?L) + mset b"
    by (simp add: ac_simps)
  also have "\<dots> = all_local ls + (mset a + mset b)" by (simp only: all_local_set add.assoc)
  also have "\<dots> = add_mset x (all_local ls) + ?L" by (simp add: assms)
  finally show ?thesis by simp
qed

lemma hp_idle_Return: "hp_idle (Return t (Some x) p) = add_mset x (hp_idle p)"
proof -
  let ?pool = "local_of t (hp_local p) @ [x]"
  have "all_local (set_local t (take k ?pool) (hp_local p)) + mset (drop k ?pool) =
      add_mset x (all_local (hp_local p))" for k
    by (rule all_local_split) (rule mset_take_drop)
  from this [of "length ?pool - ChunkSize"] show ?thesis
    by (simp add: Return_def hp_idle_def Let_def all_local_push add.assoc add.commute add.left_commute
             del: take_append drop_append)
qed

lemma hp_idle_next [simp]: "hp_idle (p\<lparr>hp_next := n\<rparr>) = hp_idle p"
  by (simp add: hp_idle_def)

lemma hp_idle_destroy: "hp_idle (LocalStorage_destroy t p) = hp_idle p"
  using all_local_set [of t "[]" "hp_local p"]
  by (simp add: LocalStorage_destroy_def hp_idle_def add.commute add.left_commute)

interpretation hybrid_pool: retiring_pool Get "\<lambda>t x. Return t (Some x)" hp_idle hp_next LocalStorage_destroy
proof unfold_locales
  fix t p x p'
  assume a: "Get t p = (x, p')"
  show "(x \<in># hp_idle p \<and> hp_idle p = add_mset x (hp_idle p') \<and> hp_next p' = hp_next p)
    \<or> (x = hp_next p \<and> hp_idle p' = hp_idle p \<and> hp_next p' = Suc (hp_next p))"
  proof (cases "local_of t (hp_local p) \<noteq> []")
    case True
    then show ?thesis using a hp_idle_pop [OF True, of x p'] by (simp add: Get_def)
  next
    case False
    then show ?thesis
      using a hp_idle_pop [of t "hp_fetch t p" x p'] hp_idle_fetch [of t p]
      by (cases "local_of t (hp_local (hp_fetch t p)) = []") (auto simp: Get_def Let_def)
  qed
next
  fix t x p
  show "hp_idle (Return t (Some x) p) = add_mset x (hp_idle p)" by (rule hp_idle_Return)
  show "hp_next (Return t (Some x) p) = hp_next p" by (simp add: Return_def Let_def)
  show "hp_idle (LocalStorage_destroy t p) = hp_idle p" by (rule hp_idle_destroy)
  show "hp_next (LocalStorage_destroy t p) = hp_next p" by (simp add: LocalStorage_destroy_def)
qed

section \<open>Exclusive use\<close>

lemma hybrid_init_balanced: "hybrid_pool.balanced HybridObjectPool_init {#}"
  by (simp add: hybrid_pool.balanced_def HybridObjectPool_init_def hp_idle_def all_local_def)

text \<open>C16: under every interleaving of threads that get objects from the hybrid
  pool, return objects they hold (possibly on another thread than the one that
  got them) and end, no object is handed to two holders at once, none is idle
  while it is held, and none is lost between the thread caches and the global
  pool: each object ever created is in exactly one place, and the next \<open>Get\<close>
  yields an object nobody holds.\<close>

theorem HybridObjectPool_exclusive:
  assumes "hybrid_pool.run_threads es HybridObjectPool_init {#} = Some (p, used)"
  shows "count used x + count (hp_idle p) x = (if x < hp_next p then 1 else 0)
    \<and> fst (Get t p) \<notin># used"
proof -
  have bal: "hybrid_pool.balanced p used"
    using hybrid_pool.balanced_run_threads [OF hybrid_init_balanced assms] .
  obtain y p' where g: "Get t p = (y, p')" by fastforce
  have "count used y = 0"
    using hybrid_pool.balanced_count [OF hybrid_pool.balanced_get [OF bal g], of y]
    by (simp split: if_splits)
  then show ?thesis
    using hybrid_pool.balanced_count [OF bal, of x] g by (simp add: not_in_iff add.commute)
qed

lemma HybridObjectPool_exclusive_witness:
  "\<exists>p used. hybrid_pool.run_threads
      [Pool_event (Get_by 0), Pool_event (Get_by 1), Pool_event (Put_by 1 0), Exit_of 1, Pool_event (Get_by 0)]
      HybridObjectPool_init {#} = Some (p, used) \<and> fst (Get 0 p) \<notin># used"
proof -
  let ?es = "[Pool_event (Get_by 0), Pool_event (Get_by 1), Pool_event (Put_by 1 0), Exit_of 1,
      Pool_event (Get_by 0)]"
  obtain p used where r: "hybrid_pool.run_threads ?es HybridObjectPool_init {#} = Some (p, used)"
    by (simp add: Get_def hp_fetch_def HybridObjectPool_init_def local_of_def grow_def Return_def
        LocalMaxCapacity_def set_local_def LocalStorage_destroy_def hp_pop_def ChunkSize_def)
  then show ?thesis using HybridObjectPool_exclusive [OF r] by blast
qed

text \<open>A pool built with \<open>preAllocCount\<close> objects starts with all of them idle, so
  the client theorem of the interface applies to it from the start.\<close>

lemma ObjectPool_new_counts:
  "AvailableCount (ObjectPool_new n) = n \<and> TotalCount (ObjectPool_new n) = n
   \<and> lock_pool.balanced (ObjectPool_new n) {#}"
  by (simp add: ObjectPool_new_def PreAllocate_fields AvailableCount_def TotalCount_def
        lock_pool.balanced_def)

end
