(* ===== verification/Acceptor.thy ===== *)
theory Acceptor
  imports Connection Pools
begin

text \<open>
  \<open>internal::IocpAcceptor\<close> (network/inc/acceptor/IocpAcceptor.h,
  network/src/acceptor/IocpAcceptor.cpp): overlapped accepts.  An
  \<open>AcceptOverlapped\<close> comes from the hybrid pool, is held by the
  \<open>DeferredItemHolder\<close> while the accept is pending, and goes back to the pool
  when its completion has been handled.  The results of the Winsock calls are
  arguments; sockets closed and accepts posted appear in the output.
\<close>

record AcceptOverlapped =
  ao_ioType :: EIoType
  ao_clientSocket :: SocketHandle

text \<open>The one function deferred on a pooled item is its return to the pool.\<close>

datatype pool_fn = ReturnToPool

record AcceptorCallbacks =
  acb_onAcceptPosted :: bool
  acb_onAcceptPostFailed :: bool
  acb_onAcceptCompleted :: bool
  acb_onAcceptCompletionFailed :: bool

datatype AcceptorOut =
    OnAcceptPosted | OnAcceptPostFailed | OnAcceptCompleted | OnAcceptCompletionFailed
  | AcceptEx SocketHandle SocketHandle addr
  | CloseSocket SocketHandle
  | CancelIoEx SocketHandle addr

record IocpAcceptor =
  ia_listenSocket :: SocketHandle
  ia_iocpHandle :: nat
  ia_fnAcceptEx :: bool
  ia_fnGetAcceptExSockAddrs :: bool
  ia_callbacks :: AcceptorCallbacks
  ia_holder :: "pool_fn DeferredItemHolder"
  ia_pool :: HybridObjectPool
  ia_store :: "addr \<Rightarrow> AcceptOverlapped"

definition acceptor_emit :: "bool \<Rightarrow> AcceptorOut \<Rightarrow> AcceptorOut list" where
  "acceptor_emit isSet e = (if isSet then [e] else [])"

definition Acceptor_UseCallbacks :: "AcceptorCallbacks \<Rightarrow> IocpAcceptor \<Rightarrow> IocpAcceptor" where
  "Acceptor_UseCallbacks cbs a = a\<lparr>ia_callbacks := cbs\<rparr>"

text \<open>The two \<open>WSAIoctl\<close> calls.\<close>

definition LoadAcceptExFunctions ::
  "int \<Rightarrow> int \<Rightarrow> IocpAcceptor \<Rightarrow> (ENetworkError + unit) \<times> IocpAcceptor" where
  "LoadAcceptExFunctions ioctl1 ioctl2 a =
     (if ioctl1 = SocketError then (Inl SocketPostAcceptFailed, a)
      else let a1 = a\<lparr>ia_fnAcceptEx := True\<rparr> in
        if ioctl2 = SocketError then (Inl SocketPostAcceptFailed, a1)
        else (Inr (), a1\<lparr>ia_fnGetAcceptExSockAddrs := True\<rparr>))"

text \<open>\<open>port\<close> is the handle \<open>CreateIoCompletionPort\<close> returns, null as \<open>None\<close>.\<close>

definition Acceptor_Initialize ::
  "nat option \<Rightarrow> int \<Rightarrow> int \<Rightarrow> SocketHandle \<Rightarrow> nat \<Rightarrow> IocpAcceptor \<Rightarrow> (ENetworkError + unit) \<times> IocpAcceptor" where
  "Acceptor_Initialize port ioctl1 ioctl2 listenSocket iocpHandle a =
     (let a1 = a\<lparr>ia_listenSocket := listenSocket, ia_iocpHandle := iocpHandle\<rparr> in
      if port \<noteq> Some iocpHandle then (Inl SocketCreateFailed, a1)
      else LoadAcceptExFunctions ioctl1 ioctl2 a1)"

text \<open>What \<open>WSASocketW\<close>, \<open>AcceptEx\<close> and \<open>WSAGetLastError\<close> return.\<close>

record PostAcceptEnv =
  pe_socket :: SocketHandle
  pe_acceptEx :: bool
  pe_lastError :: WsaError

text \<open>The pooled item returns to the pool of the thread that destroys it.\<close>

definition run_pool_fns :: "nat \<Rightarrow> (pool_fn \<times> addr option) list \<Rightarrow> IocpAcceptor \<Rightarrow> IocpAcceptor" where
  "run_pool_fns t calls a =
     fold (\<lambda>(f, item) a. case f of ReturnToPool \<Rightarrow> a\<lparr>ia_pool := Return t item (ia_pool a)\<rparr>) calls a"

text \<open>The guard on \<open>acceptSocket\<close> closes it unless it was reset.\<close>

definition close_unless_reset :: "SocketHandle \<Rightarrow> AcceptorOut list" where
  "close_unless_reset s = (if s \<noteq> InvalidSocket then [CloseSocket s] else [])"

definition PostAccept ::
  "nat \<Rightarrow> PostAcceptEnv \<Rightarrow> IocpAcceptor \<Rightarrow> (ENetworkError + unit) \<times> IocpAcceptor \<times> AcceptorOut list" where
  "PostAccept t env a =
     (let acceptSocket = pe_socket env; cbs = ia_callbacks a in
      if acceptSocket = InvalidSocket then
        (Inl SocketCreateFailed, a, acceptor_emit (acb_onAcceptPostFailed cbs) OnAcceptPostFailed)
      else
        case Get t (ia_pool a) of (x, pool1) \<Rightarrow>
        let item = DeferContext_new (Some x) ReturnToPool;
            a1 = a\<lparr>ia_pool := pool1,
                   ia_store := (ia_store a)(x := \<lparr>ao_ioType = Accept, ao_clientSocket = acceptSocket\<rparr>)\<rparr>;
            call = AcceptEx (ia_listenSocket a) acceptSocket x
        in if \<not> pe_acceptEx env \<and> pe_lastError env \<noteq> ERROR_IO_PENDING then
             (Inl SocketPostAcceptFailed, run_pool_fns t (DeferContext_destroy item) a1,
              call # acceptor_emit (acb_onAcceptPostFailed cbs) OnAcceptPostFailed
                @ close_unless_reset acceptSocket)
           else
             (case Hold item (ia_holder a1) of (h, calls) \<Rightarrow>
               (Inr (), run_pool_fns t calls (a1\<lparr>ia_holder := h\<rparr>),
                call # acceptor_emit (acb_onAcceptPosted cbs) OnAcceptPosted
                  @ close_unless_reset InvalidSocket)))"

fun PostAccepts ::
  "nat \<Rightarrow> PostAcceptEnv list \<Rightarrow> IocpAcceptor \<Rightarrow> (ENetworkError + unit) \<times> IocpAcceptor \<times> AcceptorOut list" where
  "PostAccepts t [] a = (Inr (), a, [])"
| "PostAccepts t (env # envs) a =
     (case PostAccept t env a of
        (Inl e, a1, o1) \<Rightarrow> (Inl e, a1, o1)
      | (Inr _, a1, o1) \<Rightarrow> (case PostAccepts t envs a1 of (r, a2, o2) \<Rightarrow> (r, a2, o1 @ o2)))"

text \<open>\<open>acceptCallback\<close> is the callback given at construction
  (\<open>ServerLifeCycle::SetupClient\<close>), applied to the accepted socket and the state
  \<open>'s\<close> it works on; \<open>updateOk\<close> is the result of \<open>SetUpdateAcceptContext\<close>.\<close>

definition OnAcceptComplete ::
  "nat \<Rightarrow> bool \<Rightarrow> PostAcceptEnv \<Rightarrow> (SocketHandle \<Rightarrow> 's \<Rightarrow> 's) option \<Rightarrow> addr option \<Rightarrow> IocpAcceptor \<times> 's
    \<Rightarrow> (ENetworkError + unit) \<times> IocpAcceptor \<times> 's \<times> AcceptorOut list" where
  "OnAcceptComplete t updateOk env acceptCallback overlapped st =
     (case st of (a, s) \<Rightarrow>
      let cbs = ia_callbacks a;
          failed = acceptor_emit (acb_onAcceptCompletionFailed cbs) OnAcceptCompletionFailed
      in case overlapped of
           None \<Rightarrow> (Inl SocketAcceptFailed, a, s, failed)
         | Some x \<Rightarrow>
           if ao_ioType (ia_store a x) \<noteq> Accept then (Inl SocketAcceptFailed, a, s, failed)
           else case holder_Release (Some x) (ia_holder a) of
               (None, h) \<Rightarrow> (Inl SocketAcceptFailed, a\<lparr>ia_holder := h\<rparr>, s, failed)
             | (Some overlappedItem, h) \<Rightarrow>
               let a1 = a\<lparr>ia_holder := h\<rparr>; clientSocket = ao_clientSocket (ia_store a1 x) in
               if \<not> updateOk then
                 (Inl SocketAcceptFailed, run_pool_fns t (DeferContext_destroy overlappedItem) a1, s,
                  failed @ close_unless_reset clientSocket)
               else
                 let s1 = (case acceptCallback of None \<Rightarrow> s | Some cb \<Rightarrow> cb clientSocket s);
                     a2 = a1\<lparr>ia_store := (ia_store a1)(x := (ia_store a1 x)\<lparr>ao_clientSocket := InvalidSocket\<rparr>)\<rparr>;
                     done = acceptor_emit (acb_onAcceptCompleted cbs) OnAcceptCompleted
                 in case PostAccept t env a2 of (r, a3, o3) \<Rightarrow>
                      (r, run_pool_fns t (DeferContext_destroy overlappedItem) a3, s1,
                       done @ o3 @ close_unless_reset (ao_clientSocket (ia_store a3 x))))"

definition Acceptor_Shutdown :: "IocpAcceptor \<Rightarrow> IocpAcceptor \<times> AcceptorOut list" where
  "Acceptor_Shutdown a =
     (a\<lparr>ia_fnAcceptEx := False, ia_fnGetAcceptExSockAddrs := False\<rparr>,
      map (CancelIoEx (ia_listenSocket a)) (List.map_filter id (holder_ForEach (ia_holder a))))"

text \<open>The destructor shuts down once more and then destroys the members, among them the
  holder with the structures of the accepts that are still pending.\<close>

definition Acceptor_destroy :: "nat \<Rightarrow> IocpAcceptor \<Rightarrow> IocpAcceptor \<times> AcceptorOut list" where
  "Acceptor_destroy t a =
     (case Acceptor_Shutdown a of (a1, outs) \<Rightarrow>
        (run_pool_fns t (holder_destroy (ia_holder a1)) (a1\<lparr>ia_holder := \<lparr>dh_items = []\<rparr>\<rparr>), outs))"

section \<open>Ownership of overlapped structures and sockets\<close>

definition held :: "IocpAcceptor \<Rightarrow> addr list" where
  "held a = map (\<lambda>(k, c). the k) (dh_items (ia_holder a))"

text \<open>\<open>inflight\<close> are the overlapped structures taken out of the holder but not
  yet back in the pool.\<close>

definition acceptor_inv :: "addr multiset \<Rightarrow> IocpAcceptor \<Rightarrow> bool" where
  "acceptor_inv inflight a \<longleftrightarrow>
     (\<forall>(k, c) \<in> set (dh_items (ia_holder a)). \<exists>x. k = Some x \<and> c = DeferContext_new (Some x) ReturnToPool)
     \<and> hybrid_pool.balanced (ia_pool a) (mset (held a) + inflight)
     \<and> (\<forall>x \<in> set (held a). ao_ioType (ia_store a x) = Accept \<and> ao_clientSocket (ia_store a x) \<noteq> InvalidSocket)"

text \<open>The sockets of the pending accepts.\<close>

definition pending_sockets :: "IocpAcceptor \<Rightarrow> SocketHandle multiset" where
  "pending_sockets a = image_mset (\<lambda>x. ao_clientSocket (ia_store a x)) (mset (held a))"

definition closed_sockets :: "AcceptorOut list \<Rightarrow> SocketHandle list" where
  "closed_sockets outs = List.map_filter (\<lambda>e. case e of CloseSocket s \<Rightarrow> Some s | _ \<Rightarrow> None) outs"

lemma closed_sockets_simps [simp]:
  "closed_sockets [] = []" "closed_sockets (a @ b) = closed_sockets a @ closed_sockets b"
  "closed_sockets (CloseSocket s # r) = s # closed_sockets r"
  "closed_sockets (AcceptEx l s x # r) = closed_sockets r"
  "e \<in> {OnAcceptPosted, OnAcceptPostFailed, OnAcceptCompleted, OnAcceptCompletionFailed}
    \<Longrightarrow> closed_sockets (acceptor_emit p e) = []"
  by (auto simp: closed_sockets_def List.map_filter_def acceptor_emit_def)

lemma close_unless_reset_simps [simp]:
  "close_unless_reset InvalidSocket = []"
  "s \<noteq> InvalidSocket \<Longrightarrow> close_unless_reset s = [CloseSocket s]"
  by (simp_all add: close_unless_reset_def)

lemma destroy_new [simp]:
  "DeferContext_destroy (DeferContext_new (Some x) ReturnToPool) = [(ReturnToPool, Some x)]"
  by (simp add: DeferContext_destroy_def DeferContext_new_def)

lemma run_pool_fns_simps [simp]:
  "run_pool_fns t [] a = a"
  "run_pool_fns t [(ReturnToPool, Some x)] a = a\<lparr>ia_pool := Return t (Some x) (ia_pool a)\<rparr>"
  by (simp_all add: run_pool_fns_def)

lemma held_update [simp]:
  "held (a\<lparr>ia_pool := p\<rparr>) = held a" "held (a\<lparr>ia_store := st\<rparr>) = held a"
  by (simp_all add: held_def)

lemma pending_sockets_pool [simp]: "pending_sockets (a\<lparr>ia_pool := p\<rparr>) = pending_sockets a"
  by (simp add: pending_sockets_def)

lemma inv_return:
  "acceptor_inv (add_mset x e) a \<Longrightarrow> acceptor_inv e (a\<lparr>ia_pool := Return t (Some x) (ia_pool a)\<rparr>)"
  using hybrid_pool.balanced_put [of "ia_pool a" "mset (held a) + add_mset x e" x t]
  by (simp add: acceptor_inv_def)

lemma key_free:
  assumes "acceptor_inv e a" and "x \<notin> set (held a)"
  shows "map_of (dh_items (ia_holder a)) (Some x) = None"
  using assms unfolding acceptor_inv_def held_def map_of_eq_None_iff by force

text \<open>Posting an accept.\<close>

lemma Get_fresh:
  assumes "acceptor_inv e a" and "Get t (ia_pool a) = (x, pool1)"
  shows "x \<notin> set (held a)" "x \<notin># e" "hybrid_pool.balanced pool1 (add_mset x (mset (held a) + e))"
proof -
  show b: "hybrid_pool.balanced pool1 (add_mset x (mset (held a) + e))"
    using hybrid_pool.balanced_get [OF _ assms(2)] assms(1) by (simp add: acceptor_inv_def)
  have "count (mset (held a) + e) x = 0"
    using hybrid_pool.balanced_count [OF b, of x] by (simp split: if_splits)
  then have "x \<notin># mset (held a) + e" by (simp only: not_in_iff)
  then show "x \<notin> set (held a)" "x \<notin># e" by simp_all
qed

lemma PostAccept_step:
  assumes "acceptor_inv e a" and "PostAccept t env a = (r, a', outs)"
  shows "acceptor_inv e a' \<and> (\<forall>y. y \<in># e \<longrightarrow> ia_store a' y = ia_store a y)
    \<and> (r = Inr () \<longleftrightarrow> pe_socket env \<noteq> InvalidSocket \<and> (pe_acceptEx env \<or> pe_lastError env = ERROR_IO_PENDING))
    \<and> (if r = Inr ()
       then pending_sockets a' = add_mset (pe_socket env) (pending_sockets a) \<and> closed_sockets outs = []
            \<and> length (held a') = Suc (length (held a))
       else pending_sockets a' = pending_sockets a \<and> held a' = held a
            \<and> closed_sockets outs = (if pe_socket env = InvalidSocket then [] else [pe_socket env]))"
proof (cases "pe_socket env = InvalidSocket")
  case True
  then show ?thesis using assms by (auto simp: PostAccept_def Let_def)
next
  case False
  obtain x pool1 where g: "Get t (ia_pool a) = (x, pool1)" by fastforce
  note fresh = Get_fresh [OF assms(1) g]
  define a1 where "a1 = a\<lparr>ia_pool := pool1,
      ia_store := (ia_store a)(x := \<lparr>ao_ioType = Accept, ao_clientSocket = pe_socket env\<rparr>)\<rparr>"
  have h1: "held a1 = held a" by (simp add: a1_def held_def)
  have pend: "pending_sockets a1 = pending_sockets a"
    using fresh(1) by (auto simp: pending_sockets_def h1 a1_def intro!: image_mset_cong)
  have inv1: "acceptor_inv (add_mset x e) a1"
    using assms(1) fresh by (auto simp: acceptor_inv_def h1) (auto simp: a1_def split: if_splits)
  show ?thesis
  proof (cases "pe_acceptEx env \<or> pe_lastError env = ERROR_IO_PENDING")
    case True
    define a2 where "a2 = a1\<lparr>ia_holder := (ia_holder a1)\<lparr>dh_items :=
        dh_items (ia_holder a1) @ [(Some x, DeferContext_new (Some x) ReturnToPool)]\<rparr>\<rparr>"
    have free: "map_of (dh_items (ia_holder a1)) (Some x) = None"
      using key_free [OF inv1] fresh(1) h1 by simp
    have "r = Inr ()" "a' = a2" "closed_sockets outs = []"
      using assms(2) False True g free
      by (auto simp: PostAccept_def Let_def Hold_def DeferContext_Get_def a1_def a2_def alist_emplace_def)
         (simp_all add: DeferContext_new_def)
    moreover have h2: "held a2 = held a @ [x]" by (simp add: a2_def held_def a1_def)
    moreover have "pending_sockets a2 = add_mset (pe_socket env) (pending_sockets a)"
      unfolding pend [symmetric] unfolding pending_sockets_def h2 h1
      by (simp add: a2_def) (simp add: a1_def)
    moreover have "acceptor_inv e a2"
      using inv1 False fresh(1) by (auto simp: acceptor_inv_def h2 h1) (auto simp: a2_def a1_def)
    moreover have "ia_store a2 y = ia_store a y" if "y \<in># e" for y
      using that fresh(2) by (auto simp: a2_def a1_def)
    ultimately show ?thesis using False True by auto
  next
    case err: False
    have "r = Inl SocketPostAcceptFailed" "a' = a1\<lparr>ia_pool := Return t (Some x) (ia_pool a1)\<rparr>"
      "closed_sockets outs = [pe_socket env]"
      using assms(2) False err g by (auto simp: PostAccept_def Let_def a1_def)
    moreover have "ia_store a1 y = ia_store a y" if "y \<in># e" for y
      using that fresh(2) by (auto simp: a1_def)
    ultimately show ?thesis
      using inv_return [OF inv1, of t] pend h1 False err by simp
  qed
qed

lemma PostAccepts_step:
  "acceptor_inv e a \<Longrightarrow> PostAccepts t envs a = (r, a', outs) \<Longrightarrow>
   acceptor_inv e a' \<and> (r = Inr () \<longrightarrow> length (held a') = length (held a) + length envs \<and> closed_sockets outs = []
     \<and> pending_sockets a' = pending_sockets a + mset (map pe_socket envs))"
proof (induction t envs a arbitrary: r a' outs rule: PostAccepts.induct)
  case (2 t env envs a)
  obtain r1 a1 o1 where p: "PostAccept t env a = (r1, a1, o1)" by (metis prod_cases3)
  note step = PostAccept_step [OF "2.prems"(1) p]
  show ?case
  proof (cases r1)
    case (Inl err)
    then show ?thesis using "2.prems"(2) p step by auto
  next
    case (Inr u)
    then have r1: "r1 = Inr ()" by simp
    obtain r2 a2 o2 where q: "PostAccepts t envs a1 = (r2, a2, o2)" by (metis prod_cases3)
    then have "r = r2" "a' = a2" "outs = o1 @ o2" using "2.prems"(2) p r1 by auto
    then show ?thesis using "2.IH" [OF p [symmetric] Inr refl _ q] step r1 by auto
  qed
qed simp

text \<open>Taking a completed accept out of the holder.\<close>

lemma held_distinct:
  assumes "acceptor_inv e a"
  shows "distinct (held a)"
proof -
  have "hybrid_pool.balanced (ia_pool a) (mset (held a) + e)" using assms by (simp add: acceptor_inv_def)
  then have "count (hp_idle (ia_pool a)) x + count (mset (held a) + e) x \<le> 1" for x
    by (simp only: hybrid_pool.balanced_count split: if_splits) simp
  then have "count (mset (held a)) x \<le> 1" for x
    by (metis add_leD1 add_leD2 count_union)
  then show ?thesis
    unfolding distinct_count_atmost_1
    by (metis count_mset_0_iff le_antisym less_one not_le)
qed

lemma erase_mset:
  "x \<in> (\<lambda>(k, c). the k) ` set m \<Longrightarrow> distinct (map (\<lambda>(k, c). the k) m) \<Longrightarrow> \<forall>(k, c) \<in> set m. k \<noteq> None \<Longrightarrow>
    mset (map (\<lambda>(k, c). the k) m) = add_mset x (mset (map (\<lambda>(k, c). the k) (alist_erase (Some x) m)))"
proof (induction m)
  case (Cons p m)
  obtain y c where p: "p = (Some y, c)" using Cons.prems(3) by (cases p) auto
  show ?case
  proof (cases "y = x")
    case True
    then have "Some x \<notin> fst ` set m" using Cons.prems(2) by (force simp: p)
    then show ?thesis using True by (simp add: p AList.delete_notin_dom)
  next
    case False
    then show ?thesis using Cons by (auto simp: p)
  qed
qed simp

lemma release_held:
  assumes "acceptor_inv e a" and "x \<in> set (held a)"
  shows "\<exists>h. holder_Release (Some x) (ia_holder a) = (Some (DeferContext_new (Some x) ReturnToPool), h)
    \<and> acceptor_inv (add_mset x e) (a\<lparr>ia_holder := h\<rparr>)
    \<and> pending_sockets a = add_mset (ao_clientSocket (ia_store a x)) (pending_sockets (a\<lparr>ia_holder := h\<rparr>))
    \<and> mset (held a) = add_mset x (mset (held (a\<lparr>ia_holder := h\<rparr>)))"
proof -
  let ?m = "dh_items (ia_holder a)"
  define h where "h = (ia_holder a)\<lparr>dh_items := alist_erase (Some x) ?m\<rparr>"
  have items: "\<forall>(k, c) \<in> set ?m. \<exists>x. k = Some x \<and> c = DeferContext_new (Some x) ReturnToPool"
    using assms(1) by (simp add: acceptor_inv_def)
  obtain c where "(Some x, c) \<in> set ?m" using assms(2) items unfolding held_def by force
  then obtain c where c: "map_of ?m (Some x) = Some c" "(Some x, c) \<in> set ?m"
    by (metis map_of_SomeD weak_map_of_SomeI)
  have cx: "c = DeferContext_new (Some x) ReturnToPool" using c(2) items by fastforce
  have m: "mset (held a) = add_mset x (mset (held (a\<lparr>ia_holder := h\<rparr>)))"
    using erase_mset [of x ?m] assms(2) held_distinct [OF assms(1)] items
    by (fastforce simp: held_def h_def)
  have "set (held (a\<lparr>ia_holder := h\<rparr>)) \<subseteq> set (held a)"
    using arg_cong [OF m, of set_mset] by auto
  moreover have "set (dh_items h) \<subseteq> set ?m" by (simp add: h_def AList.delete_eq)
  ultimately have "acceptor_inv (add_mset x e) (a\<lparr>ia_holder := h\<rparr>)"
    using assms(1) m unfolding acceptor_inv_def by (auto simp: subset_eq)
  moreover have "holder_Release (Some x) (ia_holder a) = (Some c, h)"
    using c(1) by (simp add: holder_Release_def h_def)
  ultimately show ?thesis using m by (auto simp: cx pending_sockets_def)
qed

lemma OnAcceptComplete_held:
  assumes "acceptor_inv {#} a" and "x \<in> set (held a)" and "s0 = ao_clientSocket (ia_store a x)"
    and "OnAcceptComplete t updateOk env (Some cb) (Some x) (a, s) = (r, a', s', outs)"
  shows "acceptor_inv {#} a'
    \<and> s' = (if updateOk then cb s0 s else s)
    \<and> closed_sockets outs = (if updateOk then (if r = Inr () \<or> pe_socket env = InvalidSocket then [] else [pe_socket env])
                            else [s0])
    \<and> pending_sockets a' = pending_sockets a - {#s0#} + (if r = Inr () then {#pe_socket env#} else {#})
    \<and> (r \<noteq> Inr () \<longrightarrow> Suc (length (held a')) = length (held a))"
proof -
  obtain h where h: "holder_Release (Some x) (ia_holder a) = (Some (DeferContext_new (Some x) ReturnToPool), h)"
      "acceptor_inv {#x#} (a\<lparr>ia_holder := h\<rparr>)"
      "pending_sockets a = add_mset s0 (pending_sockets (a\<lparr>ia_holder := h\<rparr>))"
      "mset (held a) = add_mset x (mset (held (a\<lparr>ia_holder := h\<rparr>)))"
    using release_held [OF assms(1,2)] assms(3) by auto
  let ?a1 = "a\<lparr>ia_holder := h\<rparr>"
  have len: "length (held a) = Suc (length (held ?a1))" using arg_cong [OF h(4), of size] by simp
  have s0: "s0 \<noteq> InvalidSocket" "ao_ioType (ia_store a x) = Accept"
    using assms(1-3) by (auto simp: acceptor_inv_def)
  show ?thesis
  proof (cases updateOk)
    case False
    then have "a' = ?a1\<lparr>ia_pool := Return t (Some x) (ia_pool ?a1)\<rparr>" "s' = s" "r = Inl SocketAcceptFailed"
      "closed_sockets outs = [s0]"
      using assms(3,4) s0 h(1) by (auto simp: OnAcceptComplete_def Let_def)
    then show ?thesis using False inv_return [OF h(2), of t] h(3) len by simp
  next
    case True
    define a2 where "a2 = ?a1\<lparr>ia_store := (ia_store a)(x := (ia_store a x)\<lparr>ao_clientSocket := InvalidSocket\<rparr>)\<rparr>"
    have "count (mset (held a)) x = 1"
      using held_distinct [OF assms(1)] assms(2) by (simp add: distinct_count_atmost_1)
    then have "x \<notin># mset (held ?a1)" unfolding h(4) not_in_iff by simp
    then have x_out: "x \<notin> set (held ?a1)" by simp
    have inv2: "acceptor_inv {#x#} a2" and pend2: "pending_sockets a2 = pending_sockets ?a1"
      using h(2) x_out
      by (auto simp: acceptor_inv_def a2_def pending_sockets_def held_def [of "ia_store_update _ _"]
               held_def [symmetric] split: if_splits intro!: image_mset_cong)
    obtain r3 a3 o3 where p: "PostAccept t env a2 = (r3, a3, o3)" by (metis prod_cases3)
    note step = PostAccept_step [OF inv2 p]
    have "ia_store a3 x = ia_store a2 x" using step by simp
    then have "r = r3" "a' = a3\<lparr>ia_pool := Return t (Some x) (ia_pool a3)\<rparr>" "s' = cb s0 s"
      "closed_sockets outs = closed_sockets o3"
      using assms(3,4) s0 h(1) p True by (auto simp: OnAcceptComplete_def Let_def a2_def)
    moreover have "held a2 = held ?a1" by (simp add: a2_def held_def)
    ultimately show ?thesis
      using step inv_return [of x "{#}" a3 t] True pend2 h(3) len by (auto split: if_splits)
  qed
qed

text \<open>C15: handling a completed accept never leaks or doubly owns its socket or
  its overlapped structure.  For a pending accept with socket \<open>s0\<close>: when the
  accept context is updated, \<open>s0\<close> goes to the accept callback and is not closed,
  and the accept is re-posted with a new socket (closed again if that fails);
  otherwise \<open>s0\<close> is closed exactly once and never reaches the callback.  In all
  cases the overlapped structure is back in the pool, and the structures still
  pending keep distinct owners.  On every failing path the pool of pending
  accepts shrinks by one, since only the success path posts a new accept.\<close>

theorem OnAcceptComplete_ownership:
  assumes "acceptor_inv {#} a" and "x \<in> set (held a)" and "s0 = ao_clientSocket (ia_store a x)"
    and "OnAcceptComplete t updateOk env (Some cb) (Some x) (a, s) = (r, a', s', outs)"
  shows "acceptor_inv {#} a'
    \<and> s' = (if updateOk then cb s0 s else s)
    \<and> closed_sockets outs = (if updateOk then (if r = Inr () \<or> pe_socket env = InvalidSocket then [] else [pe_socket env])
                            else [s0])
    \<and> pending_sockets a' = pending_sockets a - {#s0#} + (if r = Inr () then {#pe_socket env#} else {#})
    \<and> (r \<noteq> Inr () \<longrightarrow> Suc (length (held a')) = length (held a))"
  using assms by (rule OnAcceptComplete_held)

text \<open>A concrete acceptor with one accept pending on socket 11.\<close>

definition sample_acceptor :: IocpAcceptor where
  "sample_acceptor =
     \<lparr>ia_listenSocket = 3, ia_iocpHandle = 1, ia_fnAcceptEx = True, ia_fnGetAcceptExSockAddrs = True,
      ia_callbacks = \<lparr>acb_onAcceptPosted = True, acb_onAcceptPostFailed = True,
        acb_onAcceptCompleted = True, acb_onAcceptCompletionFailed = True\<rparr>,
      ia_holder = \<lparr>dh_items = [(Some 0, DeferContext_new (Some 0) ReturnToPool)]\<rparr>,
      ia_pool = \<lparr>hp_global = [], hp_local = [], hp_next = 1\<rparr>,
      ia_store = (\<lambda>_. \<lparr>ao_ioType = Accept, ao_clientSocket = 11\<rparr>)\<rparr>"

lemma sample_acceptor_inv: "acceptor_inv {#} sample_acceptor" "held sample_acceptor = [0]"
  by (simp_all add: acceptor_inv_def sample_acceptor_def held_def hybrid_pool.balanced_def hp_idle_def
        all_local_def InvalidSocket_def)

lemma OnAcceptComplete_ownership_witness:
  "\<exists>r a' s' outs. OnAcceptComplete 0 True \<lparr>pe_socket = 12, pe_acceptEx = True, pe_lastError = ERROR_IO_PENDING\<rparr>
      (Some (\<lambda>s l. l @ [s])) (Some 0) (sample_acceptor, []) = (r, a', s', outs)
    \<and> s' = [11] \<and> acceptor_inv {#} a'"
proof -
  let ?env = "\<lparr>pe_socket = 12, pe_acceptEx = True, pe_lastError = ERROR_IO_PENDING\<rparr>"
  obtain r a' s' outs where o: "OnAcceptComplete 0 True ?env (Some (\<lambda>s l. l @ [s])) (Some 0)
      (sample_acceptor, []) = (r, a', s', outs)" by (metis prod_cases4)
  have "s' = [11] \<and> acceptor_inv {#} a'"
    using OnAcceptComplete_ownership [OF sample_acceptor_inv(1) _ refl o]
    by (simp add: sample_acceptor_inv(2)) (simp add: sample_acceptor_def)
  then show ?thesis using o by blast
qed

section \<open>Shutting down\<close>

lemma holder_destroy_held:
  assumes "acceptor_inv e a"
  shows "holder_destroy (ia_holder a) = map (\<lambda>x. (ReturnToPool, Some x)) (held a)"
proof -
  have "concat (map (\<lambda>(key, ctx). DeferContext_destroy ctx) ps) = map (\<lambda>x. (ReturnToPool, Some x)) (map (\<lambda>(k, c). the k) ps)"
    if "\<forall>(k, c) \<in> set ps. \<exists>x. k = Some x \<and> c = DeferContext_new (Some x) ReturnToPool" for ps
    using that by (induction ps) auto
  then show ?thesis using assms by (simp add: acceptor_inv_def holder_destroy_def held_def)
qed

lemma run_pool_returns:
  "run_pool_fns t (map (\<lambda>x. (ReturnToPool, Some x)) xs) a = a\<lparr>ia_pool := fold (\<lambda>x. Return t (Some x)) xs (ia_pool a)\<rparr>"
  by (induction xs arbitrary: a) (simp_all add: run_pool_fns_def)

lemma hp_idle_returns:
  "hp_idle (fold (\<lambda>x. Return t (Some x)) xs p) = mset xs + hp_idle p"
  "hp_next (fold (\<lambda>x. Return t (Some x)) xs p) = hp_next p"
  by (induction xs arbitrary: p) (simp_all add: hp_idle_Return hybrid_pool.created_put)

lemma ForEach_held:
  assumes "acceptor_inv e a"
  shows "List.map_filter id (holder_ForEach (ia_holder a)) = held a"
proof -
  have "List.map_filter id (keys ps) = map (\<lambda>(k, c). the k) ps" if "\<forall>(k, c) \<in> set ps. \<exists>x. k = Some x" for ps :: "(addr option \<times> 'b) list"
    using that by (induction ps) (auto simp: List.map_filter_def keys_def)
  then show ?thesis using assms by (fastforce simp: acceptor_inv_def holder_ForEach_def held_def)
qed

lemma closed_sockets_cancel: "closed_sockets (map (CancelIoEx l) xs) = []"
  by (induction xs) (simp_all add: closed_sockets_def List.map_filter_def)

text \<open>C38: what stopping the server does to the accepts that are still pending.  Each is
  asked to be cancelled twice, by \<open>Shutdown\<close> and again by the destructor, and its
  overlapped structure is back in the pool exactly once when the acceptor is gone,
  although a cancelled request is only over when its completion arrives.  The socket
  that was made for the connection is closed by nobody: the structure that names it is
  handed out again and overwritten.\<close>

theorem shutdown_leaks_accept_sockets:
  assumes "acceptor_inv inflight a" and "Acceptor_Shutdown a = (a1, o1)" and "Acceptor_destroy t a1 = (a2, o2)"
  shows "acceptor_inv inflight a2 \<and> held a2 = [] \<and> hp_idle (ia_pool a2) = mset (held a) + hp_idle (ia_pool a)
    \<and> o1 = map (CancelIoEx (ia_listenSocket a)) (held a) \<and> o2 = o1 \<and> closed_sockets (o1 @ o2) = []
    \<and> image_mset (\<lambda>x. ao_clientSocket (ia_store a2 x)) (mset (held a)) = pending_sockets a
    \<and> InvalidSocket \<notin># pending_sockets a"
proof -
  define p where "p = fold (\<lambda>x. Return t (Some x)) (held a) (ia_pool a)"
  have a1: "a1 = a\<lparr>ia_fnAcceptEx := False, ia_fnGetAcceptExSockAddrs := False\<rparr>" "o1 = map (CancelIoEx (ia_listenSocket a)) (held a)"
    using assms(2) ForEach_held [OF assms(1)] by (auto simp: Acceptor_Shutdown_def)
  have "a2 = a1\<lparr>ia_holder := \<lparr>dh_items = []\<rparr>, ia_pool := p\<rparr>" "o2 = o1"
    using assms(3) a1 holder_destroy_held [OF assms(1)] ForEach_held [OF assms(1)]
    by (auto simp: Acceptor_destroy_def Acceptor_Shutdown_def run_pool_returns p_def)
  moreover have "hybrid_pool.balanced p inflight"
    using assms(1) by (simp add: acceptor_inv_def hybrid_pool.balanced_def p_def hp_idle_returns ac_simps)
  ultimately show ?thesis
    using a1 assms(1) closed_sockets_cancel [of "ia_listenSocket a" "held a"]
    by (auto simp: acceptor_inv_def held_def p_def hp_idle_returns pending_sockets_def)
qed

lemma shutdown_leaks_accept_sockets_witness:
  "\<exists>a1 a2 o1 o2. Acceptor_Shutdown sample_acceptor = (a1, o1) \<and> Acceptor_destroy 0 a1 = (a2, o2)
    \<and> closed_sockets (o1 @ o2) = [] \<and> pending_sockets sample_acceptor = {#11#} \<and> held a2 = []"
proof -
  obtain a1 o1 a2 o2 where sd: "Acceptor_Shutdown sample_acceptor = (a1, o1)" "Acceptor_destroy 0 a1 = (a2, o2)"
    by (metis prod.collapse)
  have "pending_sockets sample_acceptor = {#11#}"
    by (simp add: pending_sockets_def sample_acceptor_inv(2)) (simp add: sample_acceptor_def)
  then show ?thesis using shutdown_leaks_accept_sockets [OF sample_acceptor_inv(1) sd] sd by blast
qed

section \<open>Completions of unknown structures\<close>

lemma OnAcceptComplete_unheld:
  assumes "acceptor_inv e a" and "x \<notin> set (held a)" and "ao_ioType (ia_store a x) = Accept"
  shows "OnAcceptComplete t updateOk env cb (Some x) (a, s) =
    (Inl SocketAcceptFailed, a, s,
     acceptor_emit (acb_onAcceptCompletionFailed (ia_callbacks a)) OnAcceptCompletionFailed)"
  using key_free [OF assms(1,2)] assms(3)
  by (simp add: OnAcceptComplete_def Let_def holder_Release_def)

lemma OnAcceptComplete_ignored:
  assumes "acceptor_inv e a" and "\<forall>x. ov = Some x \<longrightarrow> x \<notin> set (held a)"
    and "OnAcceptComplete t updateOk env cb ov (a, s) = (r, a', s', outs)"
  shows "a' = a \<and> s' = s"
proof (cases ov)
  case None
  then show ?thesis using assms(3) by (simp add: OnAcceptComplete_def Let_def)
next
  case (Some x)
  show ?thesis
  proof (cases "ao_ioType (ia_store a x) = Accept")
    case True
    then show ?thesis
      using OnAcceptComplete_unheld [OF assms(1), of x t updateOk env cb s] assms(2,3) Some by simp
  next
    case False
    then show ?thesis using assms(3) Some by (simp add: OnAcceptComplete_def Let_def)
  qed
qed

text \<open>\<open>PostAccept\<close> calls \<open>AcceptEx\<close> before it puts the overlapped structure
  into the holder.  A completion that a worker handles in between finds the
  structure missing: the accepted socket is neither handed to the callback nor
  closed, and nothing is posted in its place.\<close>

theorem OnAcceptComplete_before_Hold:
  assumes "acceptor_inv e a" and "x \<notin> set (held a)" and "ao_ioType (ia_store a x) = Accept"
  shows "OnAcceptComplete t updateOk env cb (Some x) (a, s) =
    (Inl SocketAcceptFailed, a, s,
     acceptor_emit (acb_onAcceptCompletionFailed (ia_callbacks a)) OnAcceptCompletionFailed)"
  using assms by (rule OnAcceptComplete_unheld)

lemma OnAcceptComplete_before_Hold_witness:
  "OnAcceptComplete 0 True \<lparr>pe_socket = 12, pe_acceptEx = True, pe_lastError = ERROR_IO_PENDING\<rparr>
     (Some (\<lambda>s l. l @ [s])) (Some 5) (sample_acceptor, []) =
   (Inl SocketAcceptFailed, sample_acceptor, [], [OnAcceptCompletionFailed])"
  using OnAcceptComplete_before_Hold [OF sample_acceptor_inv(1), of 5 0 True _ "Some (\<lambda>s l. l @ [s])" "[]"]
  by (simp add: sample_acceptor_inv(2)) (simp add: sample_acceptor_def acceptor_emit_def)

end
