(* ===== verification/Multiplexer.thy ===== *)
theory Multiplexer
  imports Connection
begin

text \<open>
  \<open>internal::IocpIoMultiplexer\<close> (network/inc/io/windows/IocpIoMultiplexer.h,
  network/src/io/windows/IocpIoMultiplexer.cpp): the completion port and its
  worker threads.  The completion queue belongs to the kernel; what
  \<open>GetQueuedCompletionStatus\<close> yields is an input (\<open>Completion\<close>).  A worker is
  its loop body (\<open>worker_step\<close>), iterated by \<open>WorkerLoop\<close>; the pool of workers
  is the step relation \<open>pool_step\<close>.
\<close>

text \<open>A dequeued completion: \<open>c_ok\<close> and \<open>c_error\<close> are the result and
  \<open>GetLastError\<close>, a null key or overlapped is \<open>None\<close>, and \<open>c_ioType\<close> the type
  found in the overlapped structure.\<close>

record Completion =
  c_ok :: bool
  c_error :: WsaError
  c_bytes :: uint32
  c_key :: "addr option"
  c_overlapped :: "addr option"
  c_ioType :: EIoType

record CompletionEvent =
  ev_ioType :: EIoType
  ev_target :: "addr option"
  ev_overlapped :: "addr option"
  ev_bytesTransferred :: uint32
  ev_success :: bool
  ev_errorCode :: "WsaError option"

record MultiplexerCallbacks =
  mcb_onWorkerDispatchBegin :: bool
  mcb_onWorkerDispatchEnd :: bool

datatype MultiplexerOut = OnWorkerDispatchBegin | OnWorkerDispatchEnd

record IocpIoMultiplexer =
  mx_handle :: "nat option"
  mx_workerThreads :: nat
  mx_isRunning :: bool
  mx_callbacks :: MultiplexerCallbacks
  mx_hasHandler :: bool

text \<open>\<open>handle\<close>: what \<open>CreateIoCompletionPort\<close> returns, null as \<open>None\<close>.\<close>

definition Multiplexer_Initialize ::
  "nat option \<Rightarrow> nat \<Rightarrow> IocpIoMultiplexer \<Rightarrow> (ENetworkError + unit) \<times> IocpIoMultiplexer" where
  "Multiplexer_Initialize handle workerThreadCount m =
     (let m1 = m\<lparr>mx_handle := handle\<rparr> in
      if handle = None then (Inl IocpCreateFailed, m1)
      else (Inr (), m1\<lparr>mx_isRunning := True, mx_workerThreads := mx_workerThreads m1 + workerThreadCount\<rparr>))"

definition Multiplexer_UseCallbacks :: "MultiplexerCallbacks \<Rightarrow> IocpIoMultiplexer \<Rightarrow> IocpIoMultiplexer" where
  "Multiplexer_UseCallbacks cbs m = m\<lparr>mx_callbacks := cbs\<rparr>"

definition AssociateSocket :: "nat option \<Rightarrow> IocpIoMultiplexer \<Rightarrow> ENetworkError + unit" where
  "AssociateSocket result m =
     (if result = None \<or> result \<noteq> mx_handle m then Inl IocpConnectFailed else Inr ())"

definition PostCompletion :: "bool \<Rightarrow> ENetworkError + unit" where
  "PostCompletion result = (if \<not> result then Inl IocpInternalError else Inr ())"

definition Multiplexer_IsRunning :: "IocpIoMultiplexer \<Rightarrow> bool" where
  "Multiplexer_IsRunning m = mx_isRunning m"

text \<open>The packet \<open>Shutdown\<close> posts: no key, no overlapped.\<close>

definition stop_packet :: Completion where
  "stop_packet = \<lparr>c_ok = True, c_error = WsaOther 0, c_bytes = 0, c_key = None, c_overlapped = None,
     c_ioType = Accept\<rparr>"

text \<open>The new state and the packets posted, one for each worker.\<close>

definition Multiplexer_Shutdown :: "IocpIoMultiplexer \<Rightarrow> IocpIoMultiplexer \<times> Completion list" where
  "Multiplexer_Shutdown m =
     (if \<not> mx_isRunning m then (m, [])
      else (m\<lparr>mx_isRunning := False, mx_workerThreads := 0, mx_handle := None\<rparr>,
            replicate (mx_workerThreads m) stop_packet))"

definition Multiplexer_destroy :: "IocpIoMultiplexer \<Rightarrow> IocpIoMultiplexer \<times> Completion list" where
  "Multiplexer_destroy m = Multiplexer_Shutdown m"

text \<open>Only whether there is a handler matters to the multiplexer.\<close>

definition SetCompletionHandler :: "bool \<Rightarrow> IocpIoMultiplexer \<Rightarrow> IocpIoMultiplexer" where
  "SetCompletionHandler handler m = m\<lparr>mx_hasHandler := handler\<rparr>"

definition GetHandle :: "IocpIoMultiplexer \<Rightarrow> nat option" where
  "GetHandle m = mx_handle m"

text \<open>One round of \<open>WorkerLoop\<close> on a dequeued completion: leave the loop, or hand
  an event to the completion handler.  The I/O type of an event without an
  overlapped structure is left uninitialised in the source; \<open>uninit\<close> stands for
  whatever it is.\<close>

datatype worker_action = LeaveLoop | Dispatch CompletionEvent

definition worker_step :: "EIoType \<Rightarrow> Completion \<Rightarrow> worker_action" where
  "worker_step uninit c =
     (if c_key c = None \<and> c_overlapped c = None then LeaveLoop
      else if \<not> c_ok c \<and> c_error c = ERROR_OPERATION_ABORTED then LeaveLoop
      else Dispatch
        \<lparr>ev_ioType = (if c_overlapped c \<noteq> None then c_ioType c else uninit),
         ev_target = c_key c,
         ev_overlapped = c_overlapped c,
         ev_bytesTransferred = c_bytes c,
         ev_success = c_ok c,
         ev_errorCode = (if \<not> c_ok c then Some (c_error c) else None)\<rparr>)"

text \<open>The loop of one worker over the completions it dequeues; \<open>running k\<close> is the
  value of the loop condition at its k-th evaluation.  The result holds the
  handler's state, the callbacks invoked and the completions left.  An empty
  list means the worker is blocked in the kernel.\<close>

fun WorkerLoop ::
  "EIoType \<Rightarrow> (nat \<Rightarrow> bool) \<Rightarrow> (CompletionEvent \<Rightarrow> 's \<Rightarrow> 's) \<Rightarrow> IocpIoMultiplexer \<Rightarrow> nat \<Rightarrow> Completion list \<Rightarrow> 's
    \<Rightarrow> 's \<times> MultiplexerOut list \<times> Completion list" where
  "WorkerLoop uninit running handler m k [] s = (s, [], [])"
| "WorkerLoop uninit running handler m k (c # cs) s =
     (if \<not> running k then (s, [], c # cs)
      else case worker_step uninit c of
        LeaveLoop \<Rightarrow> (s, [], cs)
      | Dispatch ev \<Rightarrow>
          let begin_out = (if mcb_onWorkerDispatchBegin (mx_callbacks m) then [OnWorkerDispatchBegin] else []);
              end_out = (if mcb_onWorkerDispatchEnd (mx_callbacks m) then [OnWorkerDispatchEnd] else []);
              s1 = (if mx_hasHandler m then handler ev s else s)
          in case WorkerLoop uninit running handler m (Suc k) cs s1 of
               (s2, outs, rest) \<Rightarrow> (s2, begin_out @ end_out @ outs, rest))"

section \<open>The worker pool\<close>

text \<open>State of the pool after \<open>Shutdown\<close> has been called or before: the queue, the
  workers waiting in the kernel, the workers busy in a handler, and whether the
  loop condition still holds.\<close>

record worker_pool =
  wp_queue :: "Completion list"
  wp_waiting :: nat
  wp_busy :: nat
  wp_running :: bool

inductive pool_step :: "EIoType \<Rightarrow> worker_pool \<Rightarrow> worker_pool \<Rightarrow> bool" for uninit where
  leave: "\<lbrakk>wp_queue p = c # cs; wp_waiting p = Suc n; worker_step uninit c = LeaveLoop\<rbrakk>
    \<Longrightarrow> pool_step uninit p (p\<lparr>wp_queue := cs, wp_waiting := n\<rparr>)"
| take: "\<lbrakk>wp_queue p = c # cs; wp_waiting p = Suc n; worker_step uninit c = Dispatch ev\<rbrakk>
    \<Longrightarrow> pool_step uninit p (p\<lparr>wp_queue := cs, wp_waiting := n, wp_busy := Suc (wp_busy p)\<rparr>)"
| again: "\<lbrakk>wp_busy p = Suc n; wp_running p\<rbrakk>
    \<Longrightarrow> pool_step uninit p (p\<lparr>wp_busy := n, wp_waiting := Suc (wp_waiting p)\<rparr>)"
| exit: "\<lbrakk>wp_busy p = Suc n; \<not> wp_running p\<rbrakk> \<Longrightarrow> pool_step uninit p (p\<lparr>wp_busy := n\<rparr>)"

text \<open>Completions of pending I/O may arrive at any time.\<close>

inductive pool_arrives :: "worker_pool \<Rightarrow> worker_pool \<Rightarrow> bool" where
  "pool_arrives p (p\<lparr>wp_queue := wp_queue p @ [c]\<rparr>)"

inductive_cases pool_stepE: "pool_step uninit p p'"
inductive_cases pool_arrivesE: "pool_arrives p p'"

text \<open>\<open>Shutdown\<close> on a pool of \<open>n\<close> workers.\<close>

definition pool_shutdown :: "nat \<Rightarrow> worker_pool \<Rightarrow> worker_pool" where
  "pool_shutdown n p = p\<lparr>wp_running := False, wp_queue := wp_queue p @ replicate n stop_packet\<rparr>"

definition stops :: "Completion list \<Rightarrow> nat" where
  "stops q = length (filter (\<lambda>c. c = stop_packet) q)"

text \<open>After the shutdown there is a stop packet for every waiting worker.\<close>

definition stopping :: "worker_pool \<Rightarrow> bool" where
  "stopping p \<longleftrightarrow> \<not> wp_running p \<and> wp_waiting p \<le> stops (wp_queue p)"

definition work_left :: "worker_pool \<Rightarrow> nat" where
  "work_left p = 2 * wp_waiting p + wp_busy p"

lemma worker_step_stop [simp]: "worker_step u stop_packet = LeaveLoop"
  by (simp add: worker_step_def stop_packet_def)

lemma stopping_step:
  assumes "pool_step u p p'" and "stopping p"
  shows "stopping p' \<and> work_left p' < work_left p"
  using assms
  by (cases rule: pool_step.cases) (auto simp: stopping_def stops_def work_left_def split: if_splits)

lemma stopping_arrives:
  assumes "pool_arrives p p'" and "stopping p"
  shows "stopping p' \<and> work_left p' = work_left p"
  using assms by (auto elim!: pool_arrivesE simp: stopping_def stops_def work_left_def)

lemma stopping_progress:
  assumes "stopping p" and "wp_waiting p + wp_busy p > 0"
  shows "\<exists>p'. pool_step u p p'"
proof (cases "wp_busy p")
  case (Suc n)
  then show ?thesis using assms(1) pool_step.exit by (auto simp: stopping_def)
next
  case 0
  then obtain n where n: "wp_waiting p = Suc n" using assms(2) by (cases "wp_waiting p") auto
  then obtain c cs where q: "wp_queue p = c # cs"
    using assms(1) by (cases "wp_queue p") (auto simp: stopping_def stops_def)
  show ?thesis
    using pool_step.leave [OF q n] pool_step.take [OF q n] by (cases "worker_step u c") blast+
qed



definition aborted :: "Completion \<Rightarrow> bool" where
  "aborted c \<longleftrightarrow> \<not> c_ok c \<and> c_error c = ERROR_OPERATION_ABORTED"

lemma worker_step_aborted: "aborted c \<Longrightarrow> worker_step u c = LeaveLoop"
  by (simp add: aborted_def worker_step_def)

text \<open>C29: a worker also leaves its loop when any I/O is reported as aborted, not
  only at shutdown, and the aborted completion is not dispatched.  With as many
  aborted completions at the head of the queue as there are workers, the whole
  pool is gone while the multiplexer is still running, and the rest of the queue
  is never served.\<close>

theorem aborted_io_drains_pool:
  assumes "wp_queue p = cs @ rest" and "\<forall>c \<in> set cs. aborted c" and "length cs = wp_waiting p"
    and "wp_busy p = 0" and "wp_running p"
  shows "\<exists>q. (pool_step u)\<^sup>*\<^sup>* p q \<and> wp_waiting q = 0 \<and> wp_busy q = 0 \<and> wp_running q \<and> wp_queue q = rest
    \<and> (\<nexists>q'. pool_step u q q')"
  using assms
proof (induction cs arbitrary: p)
  case Nil
  then show ?case by (intro exI [of _ p]) (auto elim!: pool_stepE)
next
  case (Cons c cs)
  let ?p1 = "p\<lparr>wp_queue := cs @ rest, wp_waiting := length cs\<rparr>"
  have "pool_step u p ?p1"
    using Cons.prems by (intro pool_step.leave [of _ c]) (auto simp: worker_step_aborted)
  moreover obtain q where q: "(pool_step u)\<^sup>*\<^sup>* ?p1 q" "wp_waiting q = 0" "wp_busy q = 0" "wp_running q"
      "wp_queue q = rest" "\<nexists>q'. pool_step u q q'"
    using Cons.IH [of ?p1] Cons.prems by auto
  ultimately have "(pool_step u)\<^sup>*\<^sup>* p q" by (auto intro: converse_rtranclp_into_rtranclp)
  then show ?case using q by blast
qed

lemma aborted_io_drains_pool_witness:
  "\<exists>q. (pool_step Recv)\<^sup>*\<^sup>*
     \<lparr>wp_queue = [\<lparr>c_ok = False, c_error = ERROR_OPERATION_ABORTED, c_bytes = 0, c_key = Some 3,
         c_overlapped = Some 4, c_ioType = Recv\<rparr>], wp_waiting = 1, wp_busy = 0, wp_running = True\<rparr> q
     \<and> wp_waiting q = 0 \<and> wp_running q"
  using aborted_io_drains_pool [of "\<lparr>wp_queue = [\<lparr>c_ok = False, c_error = ERROR_OPERATION_ABORTED, c_bytes = 0,
      c_key = Some 3, c_overlapped = Some 4, c_ioType = Recv\<rparr>], wp_waiting = 1, wp_busy = 0, wp_running = True\<rparr>"
      "[\<lparr>c_ok = False, c_error = ERROR_OPERATION_ABORTED, c_bytes = 0,
      c_key = Some 3, c_overlapped = Some 4, c_ioType = Recv\<rparr>]" "[]" Recv]
  by (auto simp: aborted_def)

section \<open>Release\<close>

interpretation multiplexer: releasable Multiplexer_Shutdown
  by unfold_locales (simp add: Multiplexer_Shutdown_def)

end
