(* ===== verification/Lifecycle.thy ===== *)
theory Lifecycle
  imports Acceptor Multiplexer Toml
begin

text \<open>
  \<open>net::ServerLifeCycle\<close> (network/inc/server/ServerLifecycle.h,
  network/src/ServerLifecycle.cpp): the pool of client objects, accepting and
  closing connections, the completion handlers and the count of connected
  clients.

  \<open>'a\<close> is the state of the application behind \<open>ISessionEventReceiver\<close>.  The
  receiver's functions get the whole state, because they reach the client
  objects through \<open>shared_ptr\<close>.  A client is named by its index in the pool;
  an operation on it is applied by \<open>on_client\<close>, which also runs the callbacks
  \<open>BuildClientCallbacks\<close> installs.  \<open>sl_events\<close> collects, oldest first, the
  calls that leave the component.
\<close>

record LifecycleCallbacks =
  lcb_client :: ClientCallbacks
  lcb_acceptor :: AcceptorCallbacks
  lcb_iocp :: MultiplexerCallbacks
  lcb_onRecvCompleted :: bool
  lcb_onSendCompleted :: bool

datatype LifecycleEvent =
    Forwarded ClientOut
  | RecvCompleted nat bool
  | SendCompleted nat bool
  | ClosedSocket SocketHandle
  | FromAcceptor AcceptorOut

record 'a ServerLifeCycle =
  sl_iocp :: "IocpIoMultiplexer option"
  sl_acceptor :: "IocpAcceptor option"
  sl_clientPool :: "Client list"
  sl_connectedClientCount :: nat
  sl_callbacks :: LifecycleCallbacks
  sl_config :: NetworkCfg
  sl_events :: "LifecycleEvent list"
  sl_app :: 'a

text \<open>\<open>ISessionEventReceiver\<close>; \<open>None\<close> is a null handler.\<close>

record 'a Receiver =
  rv_OnAccept :: "addr \<Rightarrow> 'a ServerLifeCycle \<Rightarrow> 'a ServerLifeCycle"
  rv_OnRecv :: "addr \<Rightarrow> byte list \<Rightarrow> 'a ServerLifeCycle \<Rightarrow> 'a ServerLifeCycle"
  rv_OnSend :: "addr \<Rightarrow> nat \<Rightarrow> 'a ServerLifeCycle \<Rightarrow> 'a ServerLifeCycle"
  rv_OnDisconnect :: "addr \<Rightarrow> 'a ServerLifeCycle \<Rightarrow> 'a ServerLifeCycle"

section \<open>Client callbacks\<close>

definition event :: "LifecycleEvent \<Rightarrow> 'a ServerLifeCycle \<Rightarrow> 'a ServerLifeCycle" where
  "event e s = s\<lparr>sl_events := sl_events s @ [e]\<rparr>"

text \<open>The lambdas of \<open>BuildClientCallbacks\<close>, by the event that invokes them.\<close>

fun client_callback :: "ClientOut \<Rightarrow> 'a ServerLifeCycle \<Rightarrow> 'a ServerLifeCycle" where
  "client_callback OnConnected s =
     (let s1 = s\<lparr>sl_connectedClientCount := sl_connectedClientCount s + 1\<rparr> in
      if cb_onConnected (lcb_client (sl_callbacks s)) then event (Forwarded OnConnected) s1 else s1)"
| "client_callback OnDisconnected s =
     (let s1 = (if sl_connectedClientCount s > 0
                then s\<lparr>sl_connectedClientCount := sl_connectedClientCount s - 1\<rparr> else s) in
      if cb_onDisconnected (lcb_client (sl_callbacks s)) then event (Forwarded OnDisconnected) s1 else s1)"
| "client_callback OnRecvPosted s =
     (if cb_onRecvPosted (lcb_client (sl_callbacks s)) then event (Forwarded OnRecvPosted) s else s)"
| "client_callback OnRecvPostFailed s =
     (if cb_onRecvPostFailed (lcb_client (sl_callbacks s)) then event (Forwarded OnRecvPostFailed) s else s)"
| "client_callback OnSendPosted s =
     (if cb_onSendPosted (lcb_client (sl_callbacks s)) then event (Forwarded OnSendPosted) s else s)"
| "client_callback OnSendPostFailed s =
     (if cb_onSendPostFailed (lcb_client (sl_callbacks s)) then event (Forwarded OnSendPostFailed) s else s)"
| "client_callback other s = event (Forwarded other) s"

definition BuildClientCallbacks :: ClientCallbacks where
  "BuildClientCallbacks = all_callbacks"

text \<open>Putting back client \<open>i\<close> with what the operation on it emitted.\<close>

definition put_client :: "addr \<Rightarrow> Client \<Rightarrow> ClientOut list \<Rightarrow> 'a ServerLifeCycle \<Rightarrow> 'a ServerLifeCycle" where
  "put_client i c outs s = fold client_callback outs (s\<lparr>sl_clientPool := (sl_clientPool s)[i := c]\<rparr>)"

abbreviation client_of :: "'a ServerLifeCycle \<Rightarrow> addr \<Rightarrow> Client" where
  "client_of s i \<equiv> sl_clientPool s ! i"

definition close_client :: "addr \<Rightarrow> 'a ServerLifeCycle \<Rightarrow> 'a ServerLifeCycle" where
  "close_client i s = (case Client_Close (client_of s i) of (c, outs) \<Rightarrow> put_client i c outs s)"

definition post_recv :: "int \<Rightarrow> WsaError \<Rightarrow> addr \<Rightarrow> 'a ServerLifeCycle \<Rightarrow> (ENetworkError + unit) \<times> 'a ServerLifeCycle" where
  "post_recv r e i s = (case PostRecv r e (client_of s i) of (res, c, outs) \<Rightarrow> (res, put_client i c outs s))"

definition mark_established :: "addr \<Rightarrow> 'a ServerLifeCycle \<Rightarrow> 'a ServerLifeCycle" where
  "mark_established i s = (case MarkConnectionEstablished (client_of s i) of (c, outs) \<Rightarrow> put_client i c outs s)"

definition post_send ::
  "int \<Rightarrow> WsaError \<Rightarrow> byte list \<Rightarrow> addr \<Rightarrow> 'a ServerLifeCycle \<Rightarrow> (ENetworkError + unit) \<times> 'a ServerLifeCycle" where
  "post_send r e data i s = (case PostSend r e data (client_of s i) of (res, c, outs) \<Rightarrow> (res, put_client i c outs s))"

section \<open>Operations\<close>

definition Lifecycle_UseCallbacks :: "LifecycleCallbacks \<Rightarrow> 'a ServerLifeCycle \<Rightarrow> 'a ServerLifeCycle" where
  "Lifecycle_UseCallbacks cbs s =
     s\<lparr>sl_callbacks := cbs,
       sl_iocp := map_option (Multiplexer_UseCallbacks (lcb_iocp cbs)) (sl_iocp s),
       sl_acceptor := map_option (Acceptor_UseCallbacks (lcb_acceptor cbs)) (sl_acceptor s),
       sl_clientPool := map (Client_UseCallbacks BuildClientCallbacks) (sl_clientPool s)\<rparr>"

definition FindAvailableClient :: "'a ServerLifeCycle \<Rightarrow> addr option" where
  "FindAvailableClient s =
     find (\<lambda>i. cl_socket (client_of s i) = InvalidSocket) [0..<length (sl_clientPool s)]"

text \<open>What the calls made for an accepted socket return: the handle from
  \<open>CreateIoCompletionPort\<close>, and \<open>WSARecv\<close> with its error.\<close>

record SetupEnv =
  se_associate :: "nat option"
  se_recv :: int
  se_recvError :: WsaError

text \<open>\<open>SetupClient\<close> looks for a free slot and then works on the one it found.\<close>

definition claim_slot ::
  "'a Receiver option \<Rightarrow> SetupEnv \<Rightarrow> SocketHandle \<Rightarrow> addr option \<Rightarrow> 'a ServerLifeCycle \<Rightarrow> 'a ServerLifeCycle" where
  "claim_slot handler env acceptSocket client s =
     (case client of
        None \<Rightarrow> event (ClosedSocket acceptSocket) s
      | Some i \<Rightarrow>
        let s1 = s\<lparr>sl_clientPool := (sl_clientPool s)[i := (client_of s i)\<lparr>cl_socket := acceptSocket\<rparr>]\<rparr> in
        if (case sl_iocp s1 of None \<Rightarrow> True | Some m \<Rightarrow> has_err (AssociateSocket (se_associate env) m))
        then close_client i s1
        else case post_recv (se_recv env) (se_recvError env) i s1 of
            (Inl _, s2) \<Rightarrow> close_client i s2
          | (Inr _, s2) \<Rightarrow>
              let s3 = mark_established i s2 in
              (case handler of None \<Rightarrow> s3 | Some h \<Rightarrow> rv_OnAccept h i s3))"

definition SetupClient ::
  "'a Receiver option \<Rightarrow> SetupEnv \<Rightarrow> SocketHandle \<Rightarrow> 'a ServerLifeCycle \<Rightarrow> 'a ServerLifeCycle" where
  "SetupClient handler env acceptSocket s = claim_slot handler env acceptSocket (FindAvailableClient s) s"

lemmas setup_defs = SetupClient_def claim_slot_def

definition CloseClient :: "addr option \<Rightarrow> 'a ServerLifeCycle \<Rightarrow> 'a ServerLifeCycle" where
  "CloseClient client s =
     (case client of None \<Rightarrow> s
      | Some i \<Rightarrow> if cl_socket (client_of s i) \<noteq> InvalidSocket then close_client i s else s)"

definition HandleRecv ::
  "'a Receiver option \<Rightarrow> SetupEnv \<Rightarrow> CompletionEvent \<Rightarrow> 'a ServerLifeCycle \<Rightarrow> 'a ServerLifeCycle" where
  "HandleRecv handler env ev s =
     (case ev_target ev of None \<Rightarrow> s
      | Some i \<Rightarrow>
        let bytes = unat (ev_bytesTransferred ev);
            s1 = (if lcb_onRecvCompleted (sl_callbacks s)
                  then event (RecvCompleted bytes (ev_success ev \<and> bytes > 0)) s else s)
        in if \<not> ev_success ev \<or> bytes = 0 then
             CloseClient (Some i) (case handler of None \<Rightarrow> s1 | Some h \<Rightarrow> rv_OnDisconnect h i s1)
           else
             let data = take bytes (ro_buf (cl_recv (client_of s1 i)));
                 s2 = (case handler of None \<Rightarrow> s1 | Some h \<Rightarrow> rv_OnRecv h i data s1)
             in case post_recv (se_recv env) (se_recvError env) i s2 of
                  (Inl _, s3) \<Rightarrow> CloseClient (Some i) s3
                | (Inr _, s3) \<Rightarrow> s3)"

definition HandleSend :: "'a Receiver option \<Rightarrow> CompletionEvent \<Rightarrow> 'a ServerLifeCycle \<Rightarrow> 'a ServerLifeCycle" where
  "HandleSend handler ev s =
     (case ev_target ev of None \<Rightarrow> s
      | Some i \<Rightarrow>
        let bytes = unat (ev_bytesTransferred ev);
            s1 = (if lcb_onSendCompleted (sl_callbacks s)
                  then event (SendCompleted bytes (ev_success ev \<and> bytes > 0)) s else s)
        in case handler of None \<Rightarrow> s1 | Some h \<Rightarrow> rv_OnSend h i bytes s1)"

text \<open>The environment of one completion: the thread that handles it and what
  the calls it may make return.\<close>

record CompletionEnv =
  ce_thread :: nat
  ce_update :: bool
  ce_accept :: PostAcceptEnv
  ce_setup :: SetupEnv

definition OnCompletion ::
  "'a Receiver option \<Rightarrow> CompletionEnv \<Rightarrow> CompletionEvent \<Rightarrow> 'a ServerLifeCycle \<Rightarrow> 'a ServerLifeCycle" where
  "OnCompletion handler env ev s =
     (case ev_ioType ev of
        Accept \<Rightarrow>
          (case sl_acceptor s of None \<Rightarrow> s
           | Some a \<Rightarrow>
             (case OnAcceptComplete (ce_thread env) (ce_update env) (ce_accept env)
                     (Some (SetupClient handler (ce_setup env))) (ev_overlapped ev) (a, s) of
                (res, a', s', outs) \<Rightarrow>
                  s'\<lparr>sl_acceptor := Some a', sl_events := sl_events s' @ map FromAcceptor outs\<rparr>))
      | Recv \<Rightarrow> HandleRecv handler (ce_setup env) ev s
      | Send \<Rightarrow> HandleSend handler ev s
      | Disconnect \<Rightarrow> s)"

definition GetConnectedClientCount :: "'a ServerLifeCycle \<Rightarrow> nat" where
  "GetConnectedClientCount s = sl_connectedClientCount s"

definition Lifecycle_IsRunning :: "'a ServerLifeCycle \<Rightarrow> bool" where
  "Lifecycle_IsRunning s = (case sl_iocp s of None \<Rightarrow> False | Some m \<Rightarrow> Multiplexer_IsRunning m)"

text \<open>The results of the calls \<open>Start\<close> makes.\<close>

record StartEnv =
  st_concurrency :: nat
  st_iocp :: "nat option"
  st_listenPort :: "nat option"
  st_ioctl1 :: int
  st_ioctl2 :: int
  st_accepts :: "PostAcceptEnv list"

definition fresh_multiplexer :: "MultiplexerCallbacks \<Rightarrow> IocpIoMultiplexer" where
  "fresh_multiplexer cbs =
     \<lparr>mx_handle = None, mx_workerThreads = 0, mx_isRunning = False, mx_callbacks = cbs, mx_hasHandler = True\<rparr>"

definition fresh_acceptor :: "AcceptorCallbacks \<Rightarrow> HybridObjectPool \<Rightarrow> IocpAcceptor" where
  "fresh_acceptor cbs pool =
     \<lparr>ia_listenSocket = InvalidSocket, ia_iocpHandle = 0, ia_fnAcceptEx = False,
      ia_fnGetAcceptExSockAddrs = False, ia_callbacks = cbs, ia_holder = \<lparr>dh_items = []\<rparr>,
      ia_pool = pool, ia_store = (\<lambda>_. \<lparr>ao_ioType = Accept, ao_clientSocket = InvalidSocket\<rparr>)\<rparr>"

text \<open>The product of \<open>hardware_concurrency\<close> with the configured factor is unsigned and
  becomes an \<open>int\<close> again; a negative number of workers starts none.\<close>

definition worker_count :: "StartEnv \<Rightarrow> NetworkCfg \<Rightarrow> nat" where
  "worker_count env config =
     nat (sint (of_nat (st_concurrency env) * of_int (nc_maxWorkerThreadMultiplier config) :: uint32))"

text \<open>Letting go of the acceptor runs its destructor.\<close>

definition reset_acceptor :: "IocpAcceptor option \<Rightarrow> AcceptorOut list" where
  "reset_acceptor acceptor = (case acceptor of None \<Rightarrow> [] | Some a \<Rightarrow> snd (Acceptor_destroy 0 a))"

lemma reset_acceptor_None [simp]: "reset_acceptor None = []"
  by (simp add: reset_acceptor_def)

text \<open>\<open>pool\<close> is the process-wide pool of accept structures; the accept requests
  made are \<open>backlog\<close> many (none when it is negative).  A negative \<open>maxClients\<close> is the
  subject of \<open>Start_throws\<close>.\<close>

definition Start ::
  "StartEnv \<Rightarrow> HybridObjectPool \<Rightarrow> SocketHandle \<Rightarrow> NetworkCfg \<Rightarrow> 'a ServerLifeCycle
    \<Rightarrow> (ENetworkError + unit) \<times> 'a ServerLifeCycle" where
  "Start env pool listenSocket config s =
     (let cbs = sl_callbacks s;
          s1 = s\<lparr>sl_config := config\<rparr>;
          workerCount = worker_count env config
      in case Multiplexer_Initialize (st_iocp env) workerCount (fresh_multiplexer (lcb_iocp cbs)) of
           (Inl e, m) \<Rightarrow> (Inl e, s1\<lparr>sl_iocp := Some m\<rparr>)
         | (Inr _, m) \<Rightarrow>
           let s2 = s1\<lparr>sl_iocp := Some m, sl_events := sl_events s1 @ map FromAcceptor (reset_acceptor (sl_acceptor s))\<rparr> in
           case Acceptor_Initialize (st_listenPort env) (st_ioctl1 env) (st_ioctl2 env) listenSocket
                  (case GetHandle m of None \<Rightarrow> 0 | Some h \<Rightarrow> h) (fresh_acceptor (lcb_acceptor cbs) pool) of
             (Inl _, a) \<Rightarrow> (Inl IocpCreateFailed, s2\<lparr>sl_acceptor := Some a\<rparr>)
           | (Inr _, a) \<Rightarrow>
             let s3 = s2\<lparr>sl_clientPool := sl_clientPool s2 @
                        replicate (nat (nc_maxClients config)) (Client_UseCallbacks BuildClientCallbacks Client_new)\<rparr>
             in case PostAccepts 0 (take (nat (nc_backlog config)) (st_accepts env)) a of
                  (res, a', outs) \<Rightarrow>
                    (if has_err res then Inl ThreadAcceptFailed else Inr (),
                     s3\<lparr>sl_acceptor := Some a', sl_events := sl_events s3 @ map FromAcceptor outs\<rparr>))"

text \<open>Whether \<open>Start\<close> gets as far as reserving the client pool, with a size that is
  negative as an \<open>int\<close> and so beyond every limit as a \<open>size_t\<close>: \<open>reserve\<close> throws.\<close>

definition Start_throws :: "StartEnv \<Rightarrow> HybridObjectPool \<Rightarrow> SocketHandle \<Rightarrow> NetworkCfg \<Rightarrow> LifecycleCallbacks \<Rightarrow> bool" where
  "Start_throws env pool listenSocket config cbs \<longleftrightarrow>
     nc_maxClients config < 0
     \<and> (case Multiplexer_Initialize (st_iocp env) (worker_count env config) (fresh_multiplexer (lcb_iocp cbs)) of
          (Inl _, _) \<Rightarrow> False
        | (Inr _, m) \<Rightarrow>
            \<not> has_err (fst (Acceptor_Initialize (st_listenPort env) (st_ioctl1 env) (st_ioctl2 env) listenSocket
                (case GetHandle m of None \<Rightarrow> 0 | Some h \<Rightarrow> h) (fresh_acceptor (lcb_acceptor cbs) pool))))"

text \<open>Clearing the pool destroys the clients nobody else owns (\<open>last_owner\<close>),
  which closes them.  The acceptor is shut down and then destroyed.\<close>

definition Stop_release :: "(addr \<Rightarrow> bool) \<Rightarrow> 'a ServerLifeCycle \<Rightarrow> 'a ServerLifeCycle" where
  "Stop_release last_owner s =
     (let outs = (case sl_acceptor s of None \<Rightarrow> []
                  | Some a \<Rightarrow> case Acceptor_Shutdown a of (a1, o1) \<Rightarrow> o1 @ reset_acceptor (Some a1));
          s0 = s\<lparr>sl_acceptor := None, sl_iocp := None, sl_events := sl_events s @ map FromAcceptor outs\<rparr>
      in fold (\<lambda>i s. if last_owner i then close_client i s else s) [0..<length (sl_clientPool s)] s0)"

definition Stop :: "(addr \<Rightarrow> bool) \<Rightarrow> 'a ServerLifeCycle \<Rightarrow> 'a ServerLifeCycle" where
  "Stop last_owner s = (Stop_release last_owner s)\<lparr>sl_clientPool := [], sl_connectedClientCount := 0\<rparr>"

definition Lifecycle_destroy :: "(addr \<Rightarrow> bool) \<Rightarrow> 'a ServerLifeCycle \<Rightarrow> 'a ServerLifeCycle" where
  "Lifecycle_destroy last_owner s = Stop last_owner s"

section \<open>Invariant: the connected count is exact\<close>

definition pooled_client_ok :: "Client \<Rightarrow> bool" where
  "pooled_client_ok c \<longleftrightarrow> client_inv c \<and> cl_callbacks c = all_callbacks
     \<and> (cl_connectionEstablished c \<longrightarrow> cl_socket c \<noteq> InvalidSocket)"

definition counted :: "Client list \<Rightarrow> nat" where
  "counted cs = length (filter cl_connectionEventCounted cs)"

text \<open>What an observer of the connection events makes of them: one more, one less.\<close>

fun out_delta :: "ClientOut \<Rightarrow> int" where
  "out_delta OnConnected = 1"
| "out_delta OnDisconnected = - 1"
| "out_delta _ = 0"

fun connection_delta :: "LifecycleEvent \<Rightarrow> int" where
  "connection_delta (Forwarded e) = out_delta e"
| "connection_delta _ = 0"

definition reports_connections :: "'a ServerLifeCycle \<Rightarrow> bool" where
  "reports_connections s \<longleftrightarrow>
     cb_onConnected (lcb_client (sl_callbacks s)) \<and> cb_onDisconnected (lcb_client (sl_callbacks s))"

definition reports_exact :: "'a ServerLifeCycle \<Rightarrow> bool" where
  "reports_exact s \<longleftrightarrow> (reports_connections s \<longrightarrow>
     sum_list (map connection_delta (sl_events s)) = int (sl_connectedClientCount s))"

definition lifecycle_inv :: "'a ServerLifeCycle \<Rightarrow> bool" where
  "lifecycle_inv s \<longleftrightarrow> (\<forall>c \<in> set (sl_clientPool s). pooled_client_ok c)
     \<and> sl_connectedClientCount s = counted (sl_clientPool s) \<and> reports_exact s"

lemma client_callback_fields [simp]:
  "sl_clientPool (client_callback e s) = sl_clientPool s"
  "sl_app (client_callback e s) = sl_app s"
  "sl_iocp (client_callback e s) = sl_iocp s"
  "sl_acceptor (client_callback e s) = sl_acceptor s"
  "sl_callbacks (client_callback e s) = sl_callbacks s"
  by (cases e; simp add: event_def Let_def)+

lemma fold_client_callback_fields [simp]:
  "sl_clientPool (fold client_callback outs s) = sl_clientPool s"
  "sl_app (fold client_callback outs s) = sl_app s"
  "sl_iocp (fold client_callback outs s) = sl_iocp s"
  "sl_acceptor (fold client_callback outs s) = sl_acceptor s"
  "sl_callbacks (fold client_callback outs s) = sl_callbacks s"
  by (induction outs arbitrary: s; simp)+

text \<open>How the emitted callbacks move the count.\<close>

fun count_after :: "ClientOut list \<Rightarrow> nat \<Rightarrow> nat" where
  "count_after [] n = n"
| "count_after (OnConnected # r) n = count_after r (n + 1)"
| "count_after (OnDisconnected # r) n = count_after r (n - 1)"
| "count_after (_ # r) n = count_after r n"

lemma fold_client_callback_count:
  "sl_connectedClientCount (fold client_callback outs s) = count_after outs (sl_connectedClientCount s)"
proof (induction outs arbitrary: s)
  case (Cons e outs)
  then show ?case by (cases e) (simp_all add: event_def Let_def)
qed simp

lemma fold_client_callback_reports:
  "reports_connections s \<Longrightarrow> sum_list (map connection_delta (sl_events (fold client_callback outs s)))
    = sum_list (map connection_delta (sl_events s)) + sum_list (map out_delta outs)"
proof (induction outs arbitrary: s)
  case (Cons e outs)
  have "reports_connections (client_callback e s)" using Cons.prems by (simp add: reports_connections_def)
  moreover have "sum_list (map connection_delta (sl_events (client_callback e s)))
      = sum_list (map connection_delta (sl_events s)) + out_delta e"
    using Cons.prems by (cases e) (simp_all add: event_def reports_connections_def)
  ultimately show ?case using Cons.IH [of "client_callback e s"] by simp
qed simp

lemma put_client_fields [simp]:
  "sl_clientPool (put_client i c outs s) = (sl_clientPool s)[i := c]"
  "sl_app (put_client i c outs s) = sl_app s"
  "sl_iocp (put_client i c outs s) = sl_iocp s"
  "sl_acceptor (put_client i c outs s) = sl_acceptor s"
  "sl_callbacks (put_client i c outs s) = sl_callbacks s"
  "sl_connectedClientCount (put_client i c outs s) = count_after outs (sl_connectedClientCount s)"
  by (simp_all add: put_client_def fold_client_callback_count)

lemma counted_update:
  "i < length cs \<Longrightarrow> counted (cs[i := c]) + (if cl_connectionEventCounted (cs ! i) then 1 else 0)
    = counted cs + (if cl_connectionEventCounted c then 1 else 0)"
  unfolding counted_def by (rule length_filter_update)

lemma counted_pos: "i < length cs \<Longrightarrow> cl_connectionEventCounted (cs ! i) \<Longrightarrow> counted cs > 0"
  by (auto simp: counted_def filter_empty_conv)

text \<open>A client operation keeps the invariant when it keeps the client well-formed
  and its callbacks account for the change of its counted flag, both in the count
  and for an observer of the events.\<close>

lemma put_client_inv:
  assumes "lifecycle_inv s" and "i < length (sl_clientPool s)" and "pooled_client_ok c"
    and "count_after outs (sl_connectedClientCount s) + (if cl_connectionEventCounted (client_of s i) then 1 else 0)
         = sl_connectedClientCount s + (if cl_connectionEventCounted c then 1 else 0)"
    and "sum_list (map out_delta outs)
         = of_bool (cl_connectionEventCounted c) - of_bool (cl_connectionEventCounted (client_of s i))"
  shows "lifecycle_inv (put_client i c outs s)"
proof -
  let ?s = "s\<lparr>sl_clientPool := (sl_clientPool s)[i := c]\<rparr>"
  have cbs: "reports_connections (put_client i c outs s) = reports_connections s"
    by (simp add: reports_connections_def put_client_def)
  have "sum_list (map connection_delta (sl_events (put_client i c outs s)))
      = int (sl_connectedClientCount (put_client i c outs s))" if "reports_connections s"
    using that fold_client_callback_reports [of ?s outs] assms(1,4,5)
    by (auto simp: put_client_def fold_client_callback_count lifecycle_inv_def reports_exact_def
        reports_connections_def split: if_splits)
  then have "reports_exact (put_client i c outs s)" by (simp add: reports_exact_def cbs)
  then show ?thesis
    using assms counted_update [OF assms(2), of c] set_update_subset_insert [of "sl_clientPool s" i c]
    by (auto simp: lifecycle_inv_def split: if_splits)
qed

lemma pool_member:
  "lifecycle_inv s \<Longrightarrow> i < length (sl_clientPool s) \<Longrightarrow> pooled_client_ok (client_of s i)"
  by (simp add: lifecycle_inv_def)

text \<open>Closing a client, possibly with a change of its frame buffer.\<close>

lemma close_with_buffer_inv:
  assumes "lifecycle_inv s" and "i < length (sl_clientPool s)" and "fb_inv fb"
    and "Client_Close (client_of s i) = (c, outs)"
  shows "lifecycle_inv (put_client i (c\<lparr>cl_frameBuf := fb\<rparr>) outs s)"
proof -
  let ?c = "client_of s i"
  have ok: "pooled_client_ok ?c" by (rule pool_member [OF assms(1,2)])
  have "pooled_client_ok (c\<lparr>cl_frameBuf := fb\<rparr>)"
    using ok assms(3,4) client_inv_Close [of ?c] Close_callbacks [of ?c] Close_flags(1) [of ?c]
    by (simp add: pooled_client_ok_def client_inv_def)
  moreover have "count_after outs n = (if cl_connectionEventCounted ?c then n - 1 else n)" for n
    using assms(4) ok
    by (auto simp: Client_Close_def EmitDisconnectedEvent_def pooled_client_ok_def client_inv_def
        all_callbacks_def emit_def split: if_splits)
  moreover have "\<not> cl_connectionEventCounted c" using assms(4) Close_flags(2) [of ?c] by simp
  moreover have "cl_connectionEventCounted ?c \<Longrightarrow> sl_connectedClientCount s > 0"
    using counted_pos [OF assms(2)] assms(1) by (simp add: lifecycle_inv_def)
  moreover have "sum_list (map out_delta outs) = - of_bool (cl_connectionEventCounted ?c)"
    using assms(4) ok
    by (auto simp: Client_Close_def EmitDisconnectedEvent_def pooled_client_ok_def client_inv_def
        all_callbacks_def emit_def split: if_splits)
  ultimately show ?thesis by (auto intro!: put_client_inv [OF assms(1,2)])
qed

lemma close_client_inv:
  assumes "lifecycle_inv s" and "i < length (sl_clientPool s)"
  shows "lifecycle_inv (close_client i s)"
proof -
  obtain c outs where close: "Client_Close (client_of s i) = (c, outs)" by fastforce
  have "cl_frameBuf c = cl_frameBuf (client_of s i)"
    using close by (auto simp: Client_Close_def EmitDisconnectedEvent_def split: if_splits)
  then have "fb_inv (cl_frameBuf c)"
    using pool_member [OF assms] by (simp add: pooled_client_ok_def client_inv_def)
  from close_with_buffer_inv [OF assms this close] show ?thesis by (simp add: close_client_def close)
qed

lemma frame_buffer_inv:
  assumes "lifecycle_inv s" and "i < length (sl_clientPool s)" and "fb_inv fb"
  shows "lifecycle_inv (put_client i ((client_of s i)\<lparr>cl_frameBuf := fb\<rparr>) [] s)"
  using pool_member [OF assms(1,2)] assms(3)
  by (intro put_client_inv [OF assms(1,2)]) (simp_all add: pooled_client_ok_def client_inv_def)

lemma post_recv_inv:
  assumes "lifecycle_inv s" and "i < length (sl_clientPool s)"
  shows "lifecycle_inv (snd (post_recv r e i s))"
proof -
  obtain res c outs where p: "PostRecv r e (client_of s i) = (res, c, outs)" by (metis prod_cases3)
  have "pooled_client_ok c"
    using pool_member [OF assms] client_inv_PostRecv [of "client_of s i" r e] p
    by (auto simp: pooled_client_ok_def PostRecv_def Let_def split: if_splits)
  moreover have "count_after outs n = n" "sum_list (map out_delta outs) = 0"
      "cl_connectionEventCounted c = cl_connectionEventCounted (client_of s i)" for n
    using p by (auto simp: PostRecv_def Let_def emit_def split: if_splits)
  ultimately show ?thesis
    unfolding post_recv_def p by (auto intro!: put_client_inv [OF assms])
qed

lemma post_send_inv:
  assumes "lifecycle_inv s" and "i < length (sl_clientPool s)"
  shows "lifecycle_inv (snd (post_send r e data i s))"
proof -
  obtain res c outs where p: "PostSend r e data (client_of s i) = (res, c, outs)" by (metis prod_cases3)
  have "pooled_client_ok c"
    using pool_member [OF assms] client_inv_PostSend [of "client_of s i" r e data] p
    by (auto simp: pooled_client_ok_def PostSend_def Let_def split: if_splits)
  moreover have "count_after outs n = n" "sum_list (map out_delta outs) = 0"
      "cl_connectionEventCounted c = cl_connectionEventCounted (client_of s i)" for n
    using p by (auto simp: PostSend_def Let_def emit_def split: if_splits)
  ultimately show ?thesis
    unfolding post_send_def p by (auto intro!: put_client_inv [OF assms])
qed

lemma mark_established_inv:
  assumes "lifecycle_inv s" and "i < length (sl_clientPool s)" and "cl_socket (client_of s i) \<noteq> InvalidSocket"
  shows "lifecycle_inv (mark_established i s)"
proof -
  let ?c = "client_of s i"
  obtain c outs where p: "MarkConnectionEstablished ?c = (c, outs)" by fastforce
  have ok: "pooled_client_ok ?c" by (rule pool_member [OF assms(1,2)])
  have "pooled_client_ok c"
    using ok p assms(3) client_inv_Mark [of ?c]
    by (auto simp: pooled_client_ok_def MarkConnectionEstablished_def EmitConnectedEvent_def split: if_splits)
  moreover have "count_after outs n = (if cl_connectionEventCounted ?c then n else n + 1)"
      "sum_list (map out_delta outs) = of_bool (\<not> cl_connectionEventCounted ?c)" "cl_connectionEventCounted c" for n
    using p ok by (auto simp: MarkConnectionEstablished_def EmitConnectedEvent_def emit_def
        pooled_client_ok_def all_callbacks_def split: if_splits)
  ultimately show ?thesis
    unfolding mark_established_def p by (auto intro!: put_client_inv [OF assms(1,2)])
qed

lemma client_op_length [simp]:
  "length (sl_clientPool (close_client i s)) = length (sl_clientPool s)"
  "length (sl_clientPool (snd (post_recv r e i s))) = length (sl_clientPool s)"
  "length (sl_clientPool (snd (post_send r e d i s))) = length (sl_clientPool s)"
  "length (sl_clientPool (mark_established i s)) = length (sl_clientPool s)"
  by (simp_all add: close_client_def post_recv_def post_send_def mark_established_def split: prod.splits)

lemma client_op_acceptor [simp]:
  "sl_acceptor (close_client i s) = sl_acceptor s"
  "sl_acceptor (snd (post_recv r e i s)) = sl_acceptor s"
  "sl_acceptor (snd (post_send r e d i s)) = sl_acceptor s"
  "sl_acceptor (mark_established i s) = sl_acceptor s"
  "sl_acceptor (event ev s) = sl_acceptor s"
  by (simp_all add: close_client_def post_recv_def post_send_def mark_established_def event_def split: prod.splits)

lemma client_op_callbacks [simp]:
  "sl_callbacks (close_client i s) = sl_callbacks s"
  "sl_callbacks (snd (post_recv r e i s)) = sl_callbacks s"
  "sl_callbacks (snd (post_send r e d i s)) = sl_callbacks s"
  "sl_callbacks (mark_established i s) = sl_callbacks s"
  "sl_callbacks (event ev s) = sl_callbacks s"
  by (simp_all add: close_client_def post_recv_def post_send_def mark_established_def event_def split: prod.splits)

lemma client_op_app [simp]:
  "sl_app (close_client i s) = sl_app s"
  "sl_app (snd (post_recv r e i s)) = sl_app s"
  "sl_app (snd (post_send r e d i s)) = sl_app s"
  "sl_app (mark_established i s) = sl_app s"
  "sl_app (event ev s) = sl_app s"
  "sl_app (put_client i c outs s) = sl_app s"
  by (simp_all add: close_client_def post_recv_def post_send_def mark_established_def event_def put_client_def
      split: prod.splits)

lemma client_op_iocp [simp]:
  "sl_iocp (event ev s) = sl_iocp s" "sl_iocp (put_client i c outs s) = sl_iocp s"
  "sl_iocp (close_client i s) = sl_iocp s"
  by (simp_all add: close_client_def event_def put_client_def split: prod.splits)

lemma event_inv [simp]:
  "connection_delta e = 0 \<Longrightarrow> lifecycle_inv (event e s) = lifecycle_inv s"
  "sl_clientPool (event e s) = sl_clientPool s"
  by (simp_all add: lifecycle_inv_def reports_exact_def reports_connections_def event_def)

lemma FindAvailableClient_Some:
  assumes "FindAvailableClient s = Some i"
  shows "i < length (sl_clientPool s) \<and> cl_socket (client_of s i) = InvalidSocket
    \<and> (\<forall>j < i. cl_socket (client_of s j) \<noteq> InvalidSocket)"
proof -
  obtain k where k: "k < length (sl_clientPool s)" "[0..<length (sl_clientPool s)] ! k = i"
      "cl_socket (client_of s i) = InvalidSocket"
      "\<forall>j < k. cl_socket (client_of s ([0..<length (sl_clientPool s)] ! j)) \<noteq> InvalidSocket"
    using assms unfolding FindAvailableClient_def find_Some_iff by auto
  then show ?thesis by auto
qed

lemma FindAvailableClient_None:
  "FindAvailableClient s = None \<longleftrightarrow> (\<forall>c \<in> set (sl_clientPool s). cl_socket c \<noteq> InvalidSocket)"
  unfolding FindAvailableClient_def find_None_iff all_set_conv_all_nth by auto

text \<open>What comes from the acceptor does not concern connections.\<close>

lemma acceptor_events_inv:
  "lifecycle_inv (s\<lparr>sl_acceptor := a, sl_events := sl_events s @ map FromAcceptor outs\<rparr>) = lifecycle_inv s"
proof -
  have "sum_list (map connection_delta (map FromAcceptor outs)) = 0" by (induction outs) simp_all
  then show ?thesis by (simp add: lifecycle_inv_def reports_exact_def reports_connections_def)
qed

text \<open>The contract of \<open>ISessionEventReceiver\<close>: whatever the application does with
  the connection it is told about, it leaves the client pool and its own state
  consistent.  \<open>ok n\<close> is the application's invariant for a pool of \<open>n\<close> clients.\<close>

definition pool_inv :: "(nat \<Rightarrow> 'a \<Rightarrow> bool) \<Rightarrow> 'a ServerLifeCycle \<Rightarrow> bool" where
  "pool_inv ok s \<longleftrightarrow> lifecycle_inv s \<and> ok (length (sl_clientPool s)) (sl_app s)"

definition keeps_pool_at :: "(nat \<Rightarrow> 'a \<Rightarrow> bool) \<Rightarrow> (addr \<Rightarrow> 'a ServerLifeCycle \<Rightarrow> 'a ServerLifeCycle) \<Rightarrow> bool" where
  "keeps_pool_at ok f \<longleftrightarrow> (\<forall>i s. pool_inv ok s \<and> i < length (sl_clientPool s) \<longrightarrow>
     pool_inv ok (f i s) \<and> length (sl_clientPool (f i s)) = length (sl_clientPool s)
     \<and> sl_acceptor (f i s) = sl_acceptor s \<and> sl_callbacks (f i s) = sl_callbacks s)"

definition server_inv :: "(nat \<Rightarrow> 'a \<Rightarrow> bool) \<Rightarrow> 'a ServerLifeCycle \<Rightarrow> bool" where
  "server_inv ok s \<longleftrightarrow> pool_inv ok s \<and> (\<forall>a. sl_acceptor s = Some a \<longrightarrow> acceptor_inv {#} a)"

lemma keeps_pool_atD:
  assumes "keeps_pool_at ok f" and "pool_inv ok s" and "i < length (sl_clientPool s)"
  shows "pool_inv ok (f i s)" "length (sl_clientPool (f i s)) = length (sl_clientPool s)"
    "sl_acceptor (f i s) = sl_acceptor s" "sl_callbacks (f i s) = sl_callbacks s"
  using assms unfolding keeps_pool_at_def by auto

lemma pool_inv_event [simp]: "connection_delta e = 0 \<Longrightarrow> pool_inv ok (event e s) = pool_inv ok s"
  by (simp add: pool_inv_def)

lemma ignore_keeps: "keeps_pool_at ok (\<lambda>i s. s)"
  by (simp add: keeps_pool_at_def)

locale session_receiver =
  fixes rv :: "'a Receiver" and ok :: "nat \<Rightarrow> 'a \<Rightarrow> bool"
  assumes accept_keeps: "keeps_pool_at ok (rv_OnAccept rv)"
    and recv_keeps: "length d < 2 ^ 32 \<Longrightarrow> keeps_pool_at ok (\<lambda>i. rv_OnRecv rv i d)"
    and send_keeps: "keeps_pool_at ok (\<lambda>i. rv_OnSend rv i n)"
    and disconnect_keeps: "keeps_pool_at ok (rv_OnDisconnect rv)"
begin

lemma setup_socket_inv:
  assumes "lifecycle_inv s" and "i < length (sl_clientPool s)" and "cl_socket (client_of s i) = InvalidSocket"
  shows "lifecycle_inv (s\<lparr>sl_clientPool := (sl_clientPool s)[i := (client_of s i)\<lparr>cl_socket := h\<rparr>]\<rparr>)"
proof -
  let ?c = "(client_of s i)\<lparr>cl_socket := h\<rparr>"
  have "pooled_client_ok ?c"
    using pool_member [OF assms(1,2)] assms(3) by (auto simp: pooled_client_ok_def client_inv_def)
  then have "lifecycle_inv (put_client i ?c [] s)" by (intro put_client_inv [OF assms(1,2)]) simp_all
  then show ?thesis by (simp add: put_client_def)
qed

lemma close_keeps:
  "pool_inv ok s \<Longrightarrow> i < length (sl_clientPool s) \<Longrightarrow> pool_inv ok (close_client i s)"
  using close_client_inv [of s i] by (simp add: pool_inv_def)

lemma SetupClient_keeps:
  assumes "pool_inv ok s" and "h \<noteq> InvalidSocket"
  shows "pool_inv ok (SetupClient (Some rv) env h s)
    \<and> length (sl_clientPool (SetupClient (Some rv) env h s)) = length (sl_clientPool s)
    \<and> sl_callbacks (SetupClient (Some rv) env h s) = sl_callbacks s"
proof (cases "FindAvailableClient s")
  case None
  then show ?thesis using assms by (simp add: setup_defs)
next
  case (Some i)
  note i = FindAvailableClient_Some [OF Some]
  define s1 where "s1 = s\<lparr>sl_clientPool := (sl_clientPool s)[i := (client_of s i)\<lparr>cl_socket := h\<rparr>]\<rparr>"
  have s1: "pool_inv ok s1" "i < length (sl_clientPool s1)" "length (sl_clientPool s1) = length (sl_clientPool s)"
      "cl_socket (client_of s1 i) = h" "sl_callbacks s1 = sl_callbacks s"
    using setup_socket_inv [of s i h] assms(1) i by (simp_all add: s1_def pool_inv_def)
  obtain res s2 where p: "post_recv (se_recv env) (se_recvError env) i s1 = (res, s2)" by fastforce
  have s2: "pool_inv ok s2" "length (sl_clientPool s2) = length (sl_clientPool s)" "sl_callbacks s2 = sl_callbacks s"
    using post_recv_inv [OF _ s1(2), of "se_recv env" "se_recvError env"] s1(1,3,5) p
      client_op_callbacks(2) [of "se_recv env" "se_recvError env" i s1]
      client_op_length(2) [of "se_recv env" "se_recvError env" i s1]
      client_op_app(2) [of "se_recv env" "se_recvError env" i s1] by (simp_all add: pool_inv_def)
  have sock: "cl_socket (client_of s2 i) = h"
    using p s1(2,4) by (auto simp: post_recv_def PostRecv_def Let_def split: if_splits prod.splits)
  have s3: "pool_inv ok (mark_established i s2)"
    using mark_established_inv [of s2 i] s2 i sock assms(2) by (simp add: pool_inv_def)
  show ?thesis
    using Some close_keeps [OF s1(1,2)] close_keeps [OF s2(1), of i] s2(2,3) i s1(3,5) s3
      keeps_pool_atD [OF accept_keeps s3, of i]
    unfolding setup_defs
    by (auto simp: Let_def s1_def [symmetric] p split: sum.splits option.splits)
qed

lemma CloseClient_keeps:
  "pool_inv ok s \<Longrightarrow> i < length (sl_clientPool s) \<Longrightarrow>
    pool_inv ok (CloseClient (Some i) s) \<and> length (sl_clientPool (CloseClient (Some i) s)) = length (sl_clientPool s)
    \<and> sl_acceptor (CloseClient (Some i) s) = sl_acceptor s \<and> sl_callbacks (CloseClient (Some i) s) = sl_callbacks s"
  using close_keeps by (auto simp: CloseClient_def)

lemma HandleRecv_keeps:
  assumes "pool_inv ok s" and "\<forall>i. ev_target ev = Some i \<longrightarrow> i < length (sl_clientPool s)"
  shows "pool_inv ok (HandleRecv (Some rv) env ev s)
    \<and> length (sl_clientPool (HandleRecv (Some rv) env ev s)) = length (sl_clientPool s)
    \<and> sl_acceptor (HandleRecv (Some rv) env ev s) = sl_acceptor s
    \<and> sl_callbacks (HandleRecv (Some rv) env ev s) = sl_callbacks s"
proof (cases "ev_target ev")
  case None
  then show ?thesis using assms(1) by (simp add: HandleRecv_def)
next
  case (Some i)
  define bytes where "bytes = unat (ev_bytesTransferred ev)"
  define s1 where "s1 = (if lcb_onRecvCompleted (sl_callbacks s)
      then event (RecvCompleted bytes (ev_success ev \<and> bytes > 0)) s else s)"
  have s1: "pool_inv ok s1" "i < length (sl_clientPool s1)" "length (sl_clientPool s1) = length (sl_clientPool s)"
      "sl_acceptor s1 = sl_acceptor s" "sl_callbacks s1 = sl_callbacks s"
    using assms Some by (simp_all add: s1_def)
  define data where "data = take bytes (ro_buf (cl_recv (client_of s1 i)))"
  have "length data < 2 ^ 32" using unat_lt32 [of "ev_bytesTransferred ev"] by (simp add: data_def bytes_def min_def)
  then have s2: "pool_inv ok (rv_OnRecv rv i data s1)"
      "length (sl_clientPool (rv_OnRecv rv i data s1)) = length (sl_clientPool s)"
      "sl_acceptor (rv_OnRecv rv i data s1) = sl_acceptor s" "sl_callbacks (rv_OnRecv rv i data s1) = sl_callbacks s"
    using keeps_pool_atD [OF recv_keeps s1(1,2)] s1(3-5) by simp_all
  obtain res s3 where p: "post_recv (se_recv env) (se_recvError env) i (rv_OnRecv rv i data s1) = (res, s3)"
    by fastforce
  have s3: "pool_inv ok s3" "length (sl_clientPool s3) = length (sl_clientPool s)" "sl_acceptor s3 = sl_acceptor s"
      "sl_callbacks s3 = sl_callbacks s"
    using post_recv_inv [of "rv_OnRecv rv i data s1" i "se_recv env" "se_recvError env"] s1 s2
      client_op_app(2) [of "se_recv env" "se_recvError env" i "rv_OnRecv rv i data s1"]
      client_op_length(2) [of "se_recv env" "se_recvError env" i "rv_OnRecv rv i data s1"]
      client_op_acceptor(2) [of "se_recv env" "se_recvError env" i "rv_OnRecv rv i data s1"]
      client_op_callbacks(2) [of "se_recv env" "se_recvError env" i "rv_OnRecv rv i data s1"] p by (simp_all add: pool_inv_def)
  have d: "pool_inv ok (rv_OnDisconnect rv i s1)"
      "length (sl_clientPool (rv_OnDisconnect rv i s1)) = length (sl_clientPool s)"
      "sl_acceptor (rv_OnDisconnect rv i s1) = sl_acceptor s" "sl_callbacks (rv_OnDisconnect rv i s1) = sl_callbacks s"
    using keeps_pool_atD [OF disconnect_keeps s1(1,2)] s1(3-5) by simp_all
  show ?thesis
    using Some CloseClient_keeps [OF s3(1), of i] CloseClient_keeps [OF d(1), of i] s1 s3 d p
    by (auto simp: HandleRecv_def Let_def bytes_def [symmetric] s1_def [symmetric] data_def [symmetric]
        split: sum.splits)
qed

lemma HandleSend_keeps:
  assumes "pool_inv ok s" and "\<forall>i. ev_target ev = Some i \<longrightarrow> i < length (sl_clientPool s)"
  shows "pool_inv ok (HandleSend (Some rv) ev s)
    \<and> length (sl_clientPool (HandleSend (Some rv) ev s)) = length (sl_clientPool s)
    \<and> sl_acceptor (HandleSend (Some rv) ev s) = sl_acceptor s
    \<and> sl_callbacks (HandleSend (Some rv) ev s) = sl_callbacks s"
  using assms keeps_pool_atD [OF send_keeps, of "event _ s"] keeps_pool_atD [OF send_keeps, of s]
  unfolding HandleSend_def by (auto simp: Let_def split: option.splits)

text \<open>The whole completion handler keeps the pool, the count and the acceptor
  consistent.\<close>

lemma OnCompletion_keeps:
  assumes "server_inv ok s" and "\<forall>i. ev_target ev = Some i \<longrightarrow> i < length (sl_clientPool s)"
  shows "server_inv ok (OnCompletion (Some rv) env ev s)
    \<and> length (sl_clientPool (OnCompletion (Some rv) env ev s)) = length (sl_clientPool s)
    \<and> sl_callbacks (OnCompletion (Some rv) env ev s) = sl_callbacks s"
proof (cases "ev_ioType ev")
  case Accept
  show ?thesis
  proof (cases "sl_acceptor s")
    case None
    then show ?thesis using assms(1) Accept by (simp add: OnCompletion_def)
  next
    case (Some a)
    let ?cb = "SetupClient (Some rv) (ce_setup env)"
    obtain r a' s' outs where c: "OnAcceptComplete (ce_thread env) (ce_update env) (ce_accept env) (Some ?cb)
        (ev_overlapped ev) (a, s) = (r, a', s', outs)" by (metis prod_cases4)
    have inv: "pool_inv ok s" "acceptor_inv {#} a" using assms(1) Some by (auto simp: server_inv_def)
    have "acceptor_inv {#} a' \<and> pool_inv ok s' \<and> length (sl_clientPool s') = length (sl_clientPool s)
        \<and> sl_callbacks s' = sl_callbacks s"
    proof (cases "\<exists>x. ev_overlapped ev = Some x \<and> x \<in> set (held a)")
      case True
      then obtain x where x: "ev_overlapped ev = Some x" "x \<in> set (held a)" by blast
      have "ao_clientSocket (ia_store a x) \<noteq> InvalidSocket" using inv(2) x(2) by (simp add: acceptor_inv_def)
      then show ?thesis
        using OnAcceptComplete_held [OF inv(2) x(2) refl c [unfolded x(1)]] SetupClient_keeps [OF inv(1)] inv(1) by auto
    next
      case False
      then have "a' = a \<and> s' = s"
        using OnAcceptComplete_ignored [OF inv(2) _ c] by blast
      then show ?thesis using inv by simp
    qed
    then show ?thesis using Accept Some c by (auto simp: OnCompletion_def server_inv_def pool_inv_def acceptor_events_inv)
  qed
next
  case Recv
  then show ?thesis using HandleRecv_keeps assms by (simp add: OnCompletion_def server_inv_def)
next
  case Send
  then show ?thesis using HandleSend_keeps assms by (simp add: OnCompletion_def server_inv_def)
next
  case Disconnect
  then show ?thesis using assms(1) by (simp add: OnCompletion_def)
qed

end

section \<open>Start, Stop and slot reuse\<close>

lemma fresh_acceptor_inv:
  assumes "hybrid_pool.balanced pool {#}"
  shows "acceptor_inv {#} (fresh_acceptor cbs pool)" "held (fresh_acceptor cbs pool) = []"
  using assms by (simp_all add: acceptor_inv_def fresh_acceptor_def held_def)

lemma Acceptor_Initialize_keeps:
  "acceptor_inv e a \<Longrightarrow> Acceptor_Initialize p i1 i2 l h a = (r, a') \<Longrightarrow>
    acceptor_inv e a' \<and> held a' = held a \<and> pending_sockets a' = pending_sockets a"
  by (auto simp: Acceptor_Initialize_def LoadAcceptExFunctions_def Let_def acceptor_inv_def held_def
      pending_sockets_def split: if_splits)

lemma Start_inv:
  assumes "sl_clientPool s = []" and "sl_connectedClientCount s = 0" and "hybrid_pool.balanced pool {#}"
    and "sl_acceptor s = None" and "reports_exact s"
    and "\<And>n. ok n (sl_app s)"
    and "Start env pool listenSocket config s = (r, s')"
  shows "server_inv ok s'
    \<and> (r = Inr () \<longrightarrow>
        length (sl_clientPool s') = nat (nc_maxClients config)
      \<and> (\<forall>c \<in> set (sl_clientPool s'). cl_socket c = InvalidSocket)
      \<and> GetConnectedClientCount s' = 0 \<and> Lifecycle_IsRunning s'
      \<and> (\<exists>a. sl_acceptor s' = Some a
            \<and> pending_sockets a = mset (map pe_socket (take (nat (nc_backlog config)) (st_accepts env)))))"
proof -
  let ?cbs = "sl_callbacks s"
  define mi where "mi = Multiplexer_Initialize (st_iocp env)
      (worker_count env config) (fresh_multiplexer (lcb_iocp ?cbs))"
  obtain rm m where m: "mi = (rm, m)" by fastforce
  define a0 where "a0 = fresh_acceptor (lcb_acceptor ?cbs) pool"
  obtain ra a where a: "Acceptor_Initialize (st_listenPort env) (st_ioctl1 env) (st_ioctl2 env) listenSocket
      (case GetHandle m of None \<Rightarrow> 0 | Some h \<Rightarrow> h) a0 = (ra, a)" by fastforce
  obtain rp a' outs where p: "PostAccepts 0 (take (nat (nc_backlog config)) (st_accepts env)) a = (rp, a', outs)"
    by (metis prod_cases3)
  have a_inv: "acceptor_inv {#} a" "pending_sockets a = {#}"
    using Acceptor_Initialize_keeps [OF fresh_acceptor_inv(1) [OF assms(3)] a [unfolded a0_def]]
      fresh_acceptor_inv(2) [OF assms(3)] by (auto simp: pending_sockets_def)
  note posts = PostAccepts_step [OF a_inv(1) p]
  have m_ok: "rm = Inr () \<Longrightarrow> mx_isRunning m"
    using m by (auto simp: mi_def Multiplexer_Initialize_def Let_def split: if_splits)
  have slot: "pooled_client_ok (Client_UseCallbacks BuildClientCallbacks Client_new)"
      "cl_socket (Client_UseCallbacks BuildClientCallbacks Client_new) = InvalidSocket"
      "\<not> cl_connectionEventCounted (Client_UseCallbacks BuildClientCallbacks Client_new)"
    using client_inv_UseCallbacks [OF client_inv_new, of all_callbacks]
    by (simp_all add: pooled_client_ok_def Client_UseCallbacks_def Client_new_def BuildClientCallbacks_def)
  have none: "sum_list (map connection_delta (map FromAcceptor outs)) = 0" by (induction outs) simp_all
  show ?thesis
    using assms(1,2,4-7) m a p posts a_inv m_ok slot none
    unfolding Start_def Let_def mi_def [symmetric] a0_def [symmetric]
    by (cases rm; cases ra; cases rp)
       (auto simp: server_inv_def pool_inv_def lifecycle_inv_def counted_def GetConnectedClientCount_def
          Lifecycle_IsRunning_def Multiplexer_IsRunning_def reports_exact_def reports_connections_def)
qed

text \<open>a successful \<open>Start\<close> establishes the server's invariant: the pool has
  exactly \<open>maxClients\<close> free client slots with all callbacks installed, nobody is
  counted as connected, and one accept is pending for each of the first
  \<open>backlog\<close> accept requests, each with its own socket; whether \<open>Start\<close> succeeds
  or not, no overlapped structure is owned twice.\<close>

theorem Start_establishes_inv:
  assumes "sl_clientPool s = []" and "sl_connectedClientCount s = 0" and "hybrid_pool.balanced pool {#}"
    and "sl_acceptor s = None" and "reports_exact s"
    and "\<And>n. ok n (sl_app s)"
    and "Start env pool listenSocket config s = (r, s')"
  shows "server_inv ok s'
    \<and> (r = Inr () \<longrightarrow>
        length (sl_clientPool s') = nat (nc_maxClients config)
      \<and> (\<forall>c \<in> set (sl_clientPool s'). cl_socket c = InvalidSocket)
      \<and> GetConnectedClientCount s' = 0 \<and> Lifecycle_IsRunning s'
      \<and> (\<exists>a. sl_acceptor s' = Some a
            \<and> pending_sockets a = mset (map pe_socket (take (nat (nc_backlog config)) (st_accepts env)))))"
  by (rule Start_inv [OF assms(1-5), where ok = ok, OF assms(6,7)])

definition idle_server :: "'a \<Rightarrow> 'a ServerLifeCycle" where
  "idle_server app =
     \<lparr>sl_iocp = None, sl_acceptor = None, sl_clientPool = [], sl_connectedClientCount = 0,
      sl_callbacks = \<lparr>lcb_client = no_callbacks,
        lcb_acceptor = \<lparr>acb_onAcceptPosted = False, acb_onAcceptPostFailed = False,
          acb_onAcceptCompleted = False, acb_onAcceptCompletionFailed = False\<rparr>,
        lcb_iocp = \<lparr>mcb_onWorkerDispatchBegin = False, mcb_onWorkerDispatchEnd = False\<rparr>,
        lcb_onRecvCompleted = False, lcb_onSendCompleted = False\<rparr>,
      sl_config = WithDefaults, sl_events = [], sl_app = app\<rparr>"

lemma Start_establishes_inv_witness:
  "\<exists>r s'. Start \<lparr>st_concurrency = 4, st_iocp = Some 1, st_listenPort = Some 1, st_ioctl1 = 0, st_ioctl2 = 0,
      st_accepts = [\<lparr>pe_socket = 21, pe_acceptEx = True, pe_lastError = ERROR_IO_PENDING\<rparr>]\<rparr>
      HybridObjectPool_init 3 WithDefaults (idle_server ()) = (r, s') \<and> server_inv (\<lambda>_ _. True) s'"
proof -
  let ?env = "\<lparr>st_concurrency = 4, st_iocp = Some 1, st_listenPort = Some 1, st_ioctl1 = 0, st_ioctl2 = 0,
      st_accepts = [\<lparr>pe_socket = 21, pe_acceptEx = True, pe_lastError = ERROR_IO_PENDING\<rparr>]\<rparr>"
  obtain r s' where st: "Start ?env HybridObjectPool_init 3 WithDefaults (idle_server ()) = (r, s')" by fastforce
  then show ?thesis
    using Start_establishes_inv [OF _ _ hybrid_init_balanced _ _ _ st, of "\<lambda>_ _. True"]
    by (auto simp: idle_server_def reports_exact_def)
qed

text \<open>Closing a connection and setting up the next one in its slot both leave
  the frame buffer alone.\<close>

lemma SetupClient_frameBuf:
  assumes "FindAvailableClient s = Some i" and "sl_iocp s = Some m" and "se_associate env = mx_handle m"
    and "mx_handle m \<noteq> None" and "se_recv env \<noteq> SocketError"
    and "\<And>j t. sl_clientPool (rv_OnAccept rv j t) = sl_clientPool t"
  shows "cl_socket (client_of (SetupClient (Some rv) env h s) i) = h
    \<and> cl_frameBuf (client_of (SetupClient (Some rv) env h s) i) = cl_frameBuf (client_of s i)"
proof -
  have i: "i < length (sl_clientPool s)" using FindAvailableClient_Some [OF assms(1)] by blast
  show ?thesis
    using assms i
    by (auto simp: setup_defs AssociateSocket_def Let_def post_recv_def PostRecv_def mark_established_def
        MarkConnectionEstablished_def EmitConnectedEvent_def split: prod.splits)
qed

lemma Stop_release_app: "sl_app (Stop_release last_owner s) = sl_app s" for s :: "'a ServerLifeCycle"
proof -
  have "sl_app (fold (\<lambda>i s. if last_owner i then close_client i s else s) is t) = sl_app t" for "is" and t :: "'a ServerLifeCycle"
    by (induction "is" arbitrary: t) auto
  then show ?thesis by (simp add: Stop_release_def Let_def)
qed

lemma Stop_again: "Stop last_owner (Stop last_owner' s) = Stop last_owner' s"
proof -
  have pool: "sl_acceptor (fold (\<lambda>i s. if last_owner' i then close_client i s else s) is t) = sl_acceptor t"
      "sl_iocp (fold (\<lambda>i s. if last_owner' i then close_client i s else s) is t) = sl_iocp t"
    for "is" and t :: "'a ServerLifeCycle"
    by (induction "is" arbitrary: t) auto
  then show ?thesis by (simp add: Stop_def Stop_release_def Let_def)
qed

end
