(* ===== verification/Protocol.thy ===== *)
theory Protocol
  imports Prelude "HOL-Library.Signed_Division"
begin

text \<open>
  The message vocabulary: the enumerations and tables of
  \<open>protocol/flatbuf/schemas\<close> and the packet constructors of
  \<open>protocol/PacketFactory.h\<close>.  A \<open>Packet\<close> here is the value its FlatBuffers
  buffer stands for; the FlatBuffers library and the accessors \<open>flatc\<close>
  generates are not in the repository, so serialisation
  (\<open>builder\<close> to bytes), \<open>VerifyPacketBuffer\<close> and \<open>GetPacket\<close> are parameters of
  the components that use them, bundled in \<open>PacketApi\<close>.
\<close>

datatype MessageType =
    MT_None | CS_JoinRoom | CS_LeaveRoom | CS_SendMessage
  | SC_JoinedRoom | SC_LeftRoom
  | B_UserJoined | B_UserLeft | B_ChatMessage
  | SC_Error

datatype ErrorCode = EC_None | InvalidMessage | ServerError

datatype UserStatus = Offline | Online | InRoom | Away

text \<open>The tag of the \<open>Payload\<close> union, in the order of packet.fbs.\<close>

datatype PayloadType =
    P_NONE
  | P_JoinRoomRequest | P_LeaveRoomRequest | P_SendMessageRequest
  | P_JoinedRoomResponse | P_LeftRoomResponse
  | P_UserJoinedBroadcast | P_UserLeftBroadcast | P_ChatMessageBroadcast
  | P_ErrorResponse

text \<open>The union's number on the wire orders the tags.\<close>

fun payload_number :: "PayloadType \<Rightarrow> nat" where
  "payload_number P_NONE = 0"
| "payload_number P_JoinRoomRequest = 1"
| "payload_number P_LeaveRoomRequest = 2"
| "payload_number P_SendMessageRequest = 3"
| "payload_number P_JoinedRoomResponse = 4"
| "payload_number P_LeftRoomResponse = 5"
| "payload_number P_UserJoinedBroadcast = 6"
| "payload_number P_UserLeftBroadcast = 7"
| "payload_number P_ChatMessageBroadcast = 8"
| "payload_number P_ErrorResponse = 9"

lemma payload_number_inject [simp]: "payload_number a = payload_number b \<longleftrightarrow> a = b"
  by (cases a; cases b) auto

instantiation PayloadType :: linorder
begin

definition less_eq_PayloadType :: "PayloadType \<Rightarrow> PayloadType \<Rightarrow> bool" where
  "less_eq_PayloadType a b \<longleftrightarrow> payload_number a \<le> payload_number b"

definition less_PayloadType :: "PayloadType \<Rightarrow> PayloadType \<Rightarrow> bool" where
  "less_PayloadType a b \<longleftrightarrow> payload_number a < payload_number b"

instance
  by standard (auto simp: less_eq_PayloadType_def less_PayloadType_def)

end

text \<open>A FlatBuffers string may contain null bytes; through \<open>c_str()\<close> only what precedes the
  first one is seen.\<close>

definition c_str :: "string \<Rightarrow> string" where
  "c_str = takeWhile (\<lambda>c. c \<noteq> CHR 0x00)"

type_synonym Timestamp = "uint64 \<times> uint32"

datatype Payload =
    JoinRoomRequest (jr_username: string)
  | LeaveRoomRequest (lr_room_id: uint32)
  | SendMessageRequest (sm_room_id: uint32) (sm_username: string) (sm_message: string)
  | JoinedRoomResponse "(ErrorCode \<times> string option) option"
  | LeftRoomResponse "(ErrorCode \<times> string option) option"
  | UserJoinedBroadcast (uj_room_id: uint32) (uj_user_id: uint32) (uj_username: string) (uj_status: UserStatus)
  | UserLeftBroadcast (ul_user_id: uint32) (ul_username: string)
  | ChatMessageBroadcast (cm_sender_id: uint32) (cm_username: string) (cm_message: string) (cm_timestamp: Timestamp)
  | ErrorResponse ErrorCode "string option" "string option"

fun payload_traits :: "Payload \<Rightarrow> PayloadType" where
  "payload_traits (JoinRoomRequest _) = P_JoinRoomRequest"
| "payload_traits (LeaveRoomRequest _) = P_LeaveRoomRequest"
| "payload_traits (SendMessageRequest _ _ _) = P_SendMessageRequest"
| "payload_traits (JoinedRoomResponse _) = P_JoinedRoomResponse"
| "payload_traits (LeftRoomResponse _) = P_LeftRoomResponse"
| "payload_traits (UserJoinedBroadcast _ _ _ _) = P_UserJoinedBroadcast"
| "payload_traits (UserLeftBroadcast _ _) = P_UserLeftBroadcast"
| "payload_traits (ChatMessageBroadcast _ _ _ _) = P_ChatMessageBroadcast"
| "payload_traits (ErrorResponse _ _ _) = P_ErrorResponse"

text \<open>The table pointer of the union may be null whatever the tag says (the
  verifier accepts a missing table), hence the option.\<close>

record Packet =
  pk_type :: MessageType
  pk_payload_type :: PayloadType
  pk_payload :: "Payload option"
  pk_sequence :: uint32

text \<open>\<open>payload_as<T>\<close>: the table when the tag is that of \<open>T\<close>, null otherwise.\<close>

definition payload_as :: "PayloadType \<Rightarrow> Packet \<Rightarrow> Payload option" where
  "payload_as t p = (if pk_payload_type p = t then pk_payload p else None)"

text \<open>The tables carry no tag of their own: the tag says how they are read.\<close>

definition packet_wf :: "Packet \<Rightarrow> bool" where
  "packet_wf p = (case pk_payload p of None \<Rightarrow> True
                  | Some x \<Rightarrow> payload_traits x = pk_payload_type p)"

section \<open>PacketFactory\<close>

definition finishTypedPacket :: "MessageType \<Rightarrow> Payload \<Rightarrow> uint32 \<Rightarrow> Packet" where
  "finishTypedPacket t payload seqn =
     \<lparr>pk_type = t, pk_payload_type = payload_traits payload, pk_payload = Some payload,
      pk_sequence = seqn\<rparr>"

definition makeJoinRoomRequest :: "string \<Rightarrow> uint32 \<Rightarrow> Packet" where
  "makeJoinRoomRequest nickname seqn =
     finishTypedPacket CS_JoinRoom (JoinRoomRequest nickname) seqn"

definition makeLeaveRoomRequest :: "uint32 \<Rightarrow> uint32 \<Rightarrow> Packet" where
  "makeLeaveRoomRequest roomId seqn =
     finishTypedPacket CS_LeaveRoom (LeaveRoomRequest roomId) seqn"

definition makeSendMessageRequest :: "uint32 \<Rightarrow> string \<Rightarrow> string \<Rightarrow> uint32 \<Rightarrow> Packet" where
  "makeSendMessageRequest roomId username message seqn =
     finishTypedPacket CS_SendMessage (SendMessageRequest roomId username message) seqn"

text \<open>The user id is 64 bits wide in the server and 32 bits in the schema: the
  constructor narrows it.\<close>

definition makeUserJoinedBroadcast ::
  "uint32 \<Rightarrow> uint64 \<Rightarrow> string \<Rightarrow> UserStatus \<Rightarrow> uint32 \<Rightarrow> Packet" where
  "makeUserJoinedBroadcast roomId userId userName status seqn =
     finishTypedPacket B_UserJoined (UserJoinedBroadcast roomId (ucast userId) userName status) seqn"

definition makeUserLeftBroadcast :: "uint64 \<Rightarrow> string \<Rightarrow> uint32 \<Rightarrow> Packet" where
  "makeUserLeftBroadcast userId userName seqn =
     finishTypedPacket B_UserLeft (UserLeftBroadcast (ucast userId) userName) seqn"

definition makeChatMessageBroadcast ::
  "uint32 \<Rightarrow> string \<Rightarrow> string \<Rightarrow> Timestamp \<Rightarrow> uint32 \<Rightarrow> Packet" where
  "makeChatMessageBroadcast senderId username message timestamp seqn =
     finishTypedPacket B_ChatMessage (ChatMessageBroadcast senderId username message timestamp) seqn"

definition makeJoinedRoomResponse :: "uint32 \<Rightarrow> Packet" where
  "makeJoinedRoomResponse seqn = finishTypedPacket SC_JoinedRoom (JoinedRoomResponse None) seqn"

definition makeLeftRoomResponse :: "uint32 \<Rightarrow> Packet" where
  "makeLeftRoomResponse seqn = finishTypedPacket SC_LeftRoom (LeftRoomResponse None) seqn"

text \<open>The clock of time.h: a reading of \<open>steady_clock\<close> is its count of nanoseconds.  The
  casts truncate; \<open>NowInNs\<close> keeps 32 bits of the count.\<close>

definition NowInMs :: "int \<Rightarrow> int" where
  "NowInMs reading = reading sdiv 1000000"

definition NowInSec :: "int \<Rightarrow> int" where
  "NowInSec reading = reading sdiv 1000000000"

definition NowInNs :: "int \<Rightarrow> uint32" where
  "NowInNs reading = of_int reading"

text \<open>\<open>protocol::now\<close> reads the clock twice.\<close>

definition protocol_now :: "int \<times> int \<Rightarrow> Timestamp" where
  "protocol_now readings = (of_int (NowInSec (fst readings)), NowInNs (snd readings))"

lemmas packet_factory_defs =
  makeJoinRoomRequest_def makeLeaveRoomRequest_def makeSendMessageRequest_def
  makeUserJoinedBroadcast_def makeUserLeftBroadcast_def makeChatMessageBroadcast_def
  makeJoinedRoomResponse_def makeLeftRoomResponse_def finishTypedPacket_def

lemma finishTypedPacket_wf [simp]: "packet_wf (finishTypedPacket t p s)"
  by (simp add: packet_wf_def finishTypedPacket_def)

lemma payload_as_finish [simp]:
  "payload_as t (finishTypedPacket mt p s) = (if payload_traits p = t then Some p else None)"
  by (simp add: payload_as_def finishTypedPacket_def)

section \<open>Time stamps\<close>

lemma NowInSec_nonneg: "0 \<le> t \<Longrightarrow> NowInSec t = t div 1000000000"
  by (simp add: NowInSec_def signed_divide_int_def sgn_if)

lemma unat_of_int32: "0 \<le> t \<Longrightarrow> int (unat (of_int t :: uint32)) = t mod 2 ^ 32"
  by (simp add: unsigned_of_int take_bit_eq_mod)

lemma unat_of_int64: "0 \<le> t \<Longrightarrow> t < 2 ^ 64 \<Longrightarrow> int (unat (of_int t :: uint64)) = t"
  by (simp add: unsigned_of_int take_bit_eq_mod)

text \<open>What the time stamp of a chat message tells about the moments at which two
  messages were broadcast (each taken with one reading of the clock).  The seconds
  never go back.  The difference of the \<open>nanos\<close> fields, in 32 bits, is the exact time
  between the messages when that is less than \<open>2 ^ 32\<close> nanoseconds.  But \<open>nanos\<close> is
  the whole count of nanoseconds cut to 32 bits, not the part below the second: it
  goes back within one second whenever the count passes a multiple of \<open>2 ^ 32\<close>, so the
  pair (seconds, nanos) does not order the messages.\<close>

theorem timestamp_of_messages:
  assumes "0 \<le> t1" and "t1 \<le> t2" and "t2 < 2 ^ 63"
  shows "fst (protocol_now (t1, t1)) \<le> fst (protocol_now (t2, t2))
    \<and> (t2 - t1 < 2 ^ 32 \<longrightarrow> int (unat (snd (protocol_now (t2, t2)) - snd (protocol_now (t1, t1)))) = t2 - t1)
    \<and> int (unat (snd (protocol_now (t2, t2)))) = t2 mod 2 ^ 32
    \<and> (t1 div 1000000000 = t2 div 1000000000 \<and> t1 div 2 ^ 32 < t2 div 2 ^ 32
        \<longrightarrow> fst (protocol_now (t1, t1)) = fst (protocol_now (t2, t2))
          \<and> snd (protocol_now (t2, t2)) < snd (protocol_now (t1, t1)))"
proof -
  have nn: "0 \<le> t2" using assms by simp
  have sec: "int (unat (fst (protocol_now (t, t)))) = t div 1000000000" if "0 \<le> t" "t < 2 ^ 63" for t :: int
    using that unat_of_int64 [of "t div 1000000000"] by (simp add: protocol_now_def NowInSec_nonneg div_less_iff_less_mult)
  have ns: "int (unat (snd (protocol_now (t, t)))) = t mod 2 ^ 32" if "0 \<le> t" for t
    using unat_of_int32 [OF that] by (simp add: protocol_now_def NowInNs_def)
  have a: "fst (protocol_now (t1, t1)) \<le> fst (protocol_now (t2, t2))"
    using sec [of t1] sec [of t2] assms nn by (simp add: word_le_nat_alt flip: of_nat_le_iff [where 'a = int])
  have "snd (protocol_now (t2, t2)) - snd (protocol_now (t1, t1)) = of_int (t2 - t1)"
    by (simp add: protocol_now_def NowInNs_def)
  then have b: "int (unat (snd (protocol_now (t2, t2)) - snd (protocol_now (t1, t1)))) = t2 - t1" if "t2 - t1 < 2 ^ 32"
    using that assms(2) unat_of_int32 [of "t2 - t1"] by simp
  have c: "snd (protocol_now (t2, t2)) < snd (protocol_now (t1, t1))"
    if "t1 div 1000000000 = t2 div 1000000000" "t1 div 2 ^ 32 < t2 div 2 ^ 32"
  proof -
    have "t2 < t1 + 1000000000"
      using that(1) div_mult_mod_eq [of t1 1000000000] div_mult_mod_eq [of t2 1000000000]
        pos_mod_bound [of 1000000000 t2] pos_mod_sign [of 1000000000 t1] by linarith
    moreover have "t1 div 4294967296 + 1 \<le> t2 div 4294967296" using that(2) by simp
    ultimately have "t2 mod 4294967296 < t1 mod 4294967296"
      using div_mult_mod_eq [of t1 4294967296] div_mult_mod_eq [of t2 4294967296] by linarith
    then show ?thesis using ns [OF assms(1)] ns [OF nn] by (simp add: word_less_nat_alt flip: of_nat_less_iff [where 'a = int])
  qed
  have d: "fst (protocol_now (t1, t1)) = fst (protocol_now (t2, t2))" if "t1 div 1000000000 = t2 div 1000000000"
    using that assms nn by (simp add: protocol_now_def NowInSec_nonneg)
  show ?thesis using a b c d ns [OF nn] by blast
qed

lemma timestamp_of_messages_witness:
  "protocol_now (4294967295, 4294967295) = (4, 4294967295) \<and> protocol_now (4294967296, 4294967296) = (4, 0)
    \<and> snd (protocol_now (4294967296, 4294967296)) < snd (protocol_now (4294967295, 4294967295))"
  using timestamp_of_messages [of 4294967295 4294967296] by (simp add: protocol_now_def NowInSec_nonneg NowInNs_def)

section \<open>The FlatBuffers interface\<close>

text \<open>\<open>api_verify\<close> is \<open>VerifyPacketBuffer\<close>, \<open>api_get\<close> is \<open>GetPacket\<close> (null as
  \<open>None\<close>), \<open>api_bytes\<close> the finished buffer of a builder.\<close>

record PacketApi =
  api_verify :: "byte list \<Rightarrow> bool"
  api_get :: "byte list \<Rightarrow> Packet option"
  api_bytes :: "Packet \<Rightarrow> byte list"

text \<open>What FlatBuffers documents of it: a finished buffer verifies and reads
  back as the packet that was built.\<close>

definition api_reads_back :: "PacketApi \<Rightarrow> Packet \<Rightarrow> bool" where
  "api_reads_back api p \<longleftrightarrow>
     api_verify api (api_bytes api p) \<and> api_get api (api_bytes api p) = Some p"

end
