(* ===== verification/ChatSession.thy ===== *)
theory ChatSession
  imports Lifecycle Protocol
begin

text \<open>
  Sessions and users of the chat server (exec/chat/chat-server/chat-server):
  \<open>Session\<close>, \<open>SessionManager\<close>, \<open>User\<close> and \<open>UserManager\<close>.

  Session and user objects never change after construction, so the shared
  pointers to them are modelled by the values.  The client a session points to
  is the slot of the server's client pool (never null: sessions are only made
  for accepted clients).  Comparing a session with a client reads the sockets
  of the two slots, hence the parameter \<open>sock\<close>.

  A transmission needs the outcome of \<open>WSASend\<close>: \<open>cv_wsaSend k\<close> for a call made
  after \<open>k\<close> events of the server; \<open>cv_clock k\<close> are the two readings of the clock
  made for a time stamp then, \<open>cv_api\<close> the FlatBuffers interface.
\<close>

record ChatEnv =
  cv_api :: PacketApi
  cv_wsaSend :: "nat \<Rightarrow> int \<times> WsaError"
  cv_clock :: "nat \<Rightarrow> int \<times> int"

definition cv_now :: "ChatEnv \<Rightarrow> nat \<Rightarrow> Timestamp" where
  "cv_now env k = protocol_now (cv_clock env k)"

lemma cv_now_zero [simp]: "cv_clock env k = (0, 0) \<Longrightarrow> cv_now env k = (0, 0)"
  by (simp add: cv_now_def protocol_now_def NowInSec_nonneg NowInNs_def)

record Session =
  ss_tcpClient :: addr
  ss_sessionId :: uint64

definition sockets :: "'a ServerLifeCycle \<Rightarrow> addr \<Rightarrow> SocketHandle" where
  "sockets s i = cl_socket (client_of s i)"

definition Session_Send :: "ChatEnv \<Rightarrow> Packet \<Rightarrow> Session \<Rightarrow> 'a ServerLifeCycle \<Rightarrow> 'a ServerLifeCycle" where
  "Session_Send env builder ses s =
     (if \<not> Client_IsConnected (client_of s (ss_tcpClient ses)) then s
      else
        let buf = api_bytes (cv_api env) builder;
            size = length buf in
        if size > 2 ^ 32 - 1 then s
        else
          let frameSize = 4 + size in
          if frameSize > sendBufferSize then s
          else
            let frame = encode_be32 (of_nat size) @ buf in
            case cv_wsaSend env (length (sl_events s)) of
              (r, e) \<Rightarrow> snd (post_send r e frame (ss_tcpClient ses) s))"

definition IsSameSession :: "(addr \<Rightarrow> SocketHandle) \<Rightarrow> addr \<Rightarrow> Session \<Rightarrow> bool" where
  "IsSameSession sock client ses = (sock (ss_tcpClient ses) = sock client)"

section \<open>SessionManager\<close>

record SessionManager =
  sm_sessionCounter :: uint64
  sm_sessions :: "(uint64 \<times> Session) list"

definition SessionManager_new :: SessionManager where
  "SessionManager_new = \<lparr>sm_sessionCounter = 0, sm_sessions = []\<rparr>"

definition CreateSession :: "addr \<Rightarrow> SessionManager \<Rightarrow> Session \<times> SessionManager" where
  "CreateSession client m =
     (let sessionId = sm_sessionCounter m;
          session = \<lparr>ss_tcpClient = client, ss_sessionId = sessionId\<rparr> in
      (session, m\<lparr>sm_sessionCounter := sessionId + 1,
                  sm_sessions := alist_assign sessionId session (sm_sessions m)\<rparr>))"

definition GetSession :: "uint64 \<Rightarrow> SessionManager \<Rightarrow> Session option" where
  "GetSession sessionId m = map_of (sm_sessions m) sessionId"

definition GetSessionByClient :: "(addr \<Rightarrow> SocketHandle) \<Rightarrow> addr \<Rightarrow> SessionManager \<Rightarrow> Session option" where
  "GetSessionByClient sock client m =
     map_option snd (find (\<lambda>(_, ses). IsSameSession sock client ses) (sm_sessions m))"

definition RemoveSession :: "uint64 \<Rightarrow> SessionManager \<Rightarrow> bool \<times> SessionManager" where
  "RemoveSession sessionId m =
     (map_of (sm_sessions m) sessionId \<noteq> None, m\<lparr>sm_sessions := alist_erase sessionId (sm_sessions m)\<rparr>)"

definition RemoveByClient :: "(addr \<Rightarrow> SocketHandle) \<Rightarrow> addr \<Rightarrow> SessionManager \<Rightarrow> bool \<times> SessionManager" where
  "RemoveByClient sock client m =
     (let kept = filter (\<lambda>(_, ses). \<not> IsSameSession sock client ses) (sm_sessions m) in
      (length (sm_sessions m) \<noteq> length kept, m\<lparr>sm_sessions := kept\<rparr>))"

section \<open>User and UserManager\<close>

record User =
  us_session :: Session
  us_id :: uint64
  us_userName :: string
  us_roomId :: uint32

definition User_Send :: "ChatEnv \<Rightarrow> Packet \<Rightarrow> User \<Rightarrow> 'a ServerLifeCycle \<Rightarrow> 'a ServerLifeCycle" where
  "User_Send env builder u s = Session_Send env builder (us_session u) s"

definition IsSameClient :: "(addr \<Rightarrow> SocketHandle) \<Rightarrow> addr \<Rightarrow> User \<Rightarrow> bool" where
  "IsSameClient sock client u = IsSameSession sock client (us_session u)"

definition IsSameUser :: "User \<Rightarrow> User \<Rightarrow> bool" where
  "IsSameUser u v = (us_id u = us_id v \<and> us_userName u = us_userName v)"

record UserManager =
  um_userIdCounter :: uint64
  um_users :: "(uint64 \<times> User) list"

definition UserManager_new :: UserManager where
  "UserManager_new = \<lparr>um_userIdCounter = 0, um_users = []\<rparr>"

definition GetUserByClient :: "(addr \<Rightarrow> SocketHandle) \<Rightarrow> addr \<Rightarrow> UserManager \<Rightarrow> User option" where
  "GetUserByClient sock client m = map_option snd (find (\<lambda>(_, u). IsSameClient sock client u) (um_users m))"

text \<open>The last part of \<open>CreateUser\<close>: the 64-bit room id is narrowed by the
  constructor of \<open>User\<close>.\<close>

definition add_user :: "Session \<Rightarrow> string \<Rightarrow> uint64 \<Rightarrow> UserManager \<Rightarrow> User \<times> UserManager" where
  "add_user session username roomId m =
     (let userId = um_userIdCounter m;
          user = \<lparr>us_session = session, us_id = userId, us_userName = username, us_roomId = ucast roomId\<rparr> in
      (user, m\<lparr>um_userIdCounter := userId + 1, um_users := alist_assign userId user (um_users m)\<rparr>))"

definition CreateUser ::
  "(addr \<Rightarrow> SocketHandle) \<Rightarrow> addr \<Rightarrow> string \<Rightarrow> uint64 \<Rightarrow> SessionManager \<Rightarrow> UserManager
    \<Rightarrow> User option \<times> UserManager" where
  "CreateUser sock client username roomId sm m =
     (case GetSessionByClient sock client sm of
        None \<Rightarrow> (None, m)
      | Some session \<Rightarrow>
        (case GetUserByClient sock client m of
           Some _ \<Rightarrow> (None, m)
         | None \<Rightarrow> (case add_user session username roomId m of (u, m') \<Rightarrow> (Some u, m'))))"

definition RemoveUserByUserId :: "uint64 \<Rightarrow> UserManager \<Rightarrow> UserManager" where
  "RemoveUserByUserId userId m = m\<lparr>um_users := alist_erase userId (um_users m)\<rparr>"

definition RemoveUser :: "User \<Rightarrow> UserManager \<Rightarrow> UserManager" where
  "RemoveUser u m = RemoveUserByUserId (us_id u) m"

definition IsUserExist :: "uint64 \<Rightarrow> UserManager \<Rightarrow> bool" where
  "IsUserExist userId m = (map_of (um_users m) userId \<noteq> None)"

definition GetUser :: "uint64 \<Rightarrow> UserManager \<Rightarrow> User option" where
  "GetUser userId m = map_of (um_users m) userId"

definition Manager_GetUserCount :: "UserManager \<Rightarrow> nat" where
  "Manager_GetUserCount m = length (um_users m)"

definition GetAllUsers :: "UserManager \<Rightarrow> User list" where
  "GetAllUsers m = map snd (um_users m)"

section \<open>The contract of an id-issuing manager\<close>

text \<open>Both managers hand out the values of a counter as keys of a map.  The
  contract: creation stores under the counter and advances it, removal erases.
  As long as the counter has not come round, ids are never reused.\<close>

definition ids_ok :: "uint64 \<Rightarrow> (uint64 \<times> 'v) list \<Rightarrow> bool" where
  "ids_ok n m \<longleftrightarrow> distinct (keys m) \<and> (\<forall>k \<in> set (keys m). k < n)"

locale id_manager =
  fixes entries :: "'m \<Rightarrow> (uint64 \<times> 'v) list"
    and counter :: "'m \<Rightarrow> uint64"
    and create :: "'p \<Rightarrow> 'm \<Rightarrow> 'v \<times> 'm"
    and remove :: "uint64 \<Rightarrow> 'm \<Rightarrow> 'm"
    and id_of :: "'v \<Rightarrow> uint64"
  assumes create_entries: "create p m = (v, m') \<Longrightarrow> entries m' = alist_assign (counter m) v (entries m)"
    and create_counter: "create p m = (v, m') \<Longrightarrow> counter m' = counter m + 1"
    and create_id: "create p m = (v, m') \<Longrightarrow> id_of v = counter m"
    and remove_entries: "entries (remove k m) = alist_erase k (entries m)"
    and remove_counter: "counter (remove k m) = counter m"
begin

definition consistent :: "'m \<Rightarrow> bool" where
  "consistent m \<longleftrightarrow> ids_ok (counter m) (entries m) \<and> (\<forall>(k, v) \<in> set (entries m). id_of v = k)"

lemma fresh: "consistent m \<Longrightarrow> map_of (entries m) (counter m) = None"
  by (auto simp: consistent_def ids_ok_def map_of_eq_None_keys)

lemma create_appends:
  assumes "consistent m" and "create p m = (v, m')"
  shows "entries m' = entries m @ [(id_of v, v)]"
  using create_entries [OF assms(2)] create_id [OF assms(2)] fresh [OF assms(1)]
  by (simp add: alist_update_append)

lemma create_consistent:
  assumes "consistent m" and "create p m = (v, m')" and "counter m \<noteq> - 1"
  shows "consistent m'"
proof -
  have c: "counter m < counter m'"
    using assms(3) create_counter [OF assms(2)] by (simp add: word_less_nat_alt unat_plus_one_less)
  then show ?thesis
    using assms(1) fresh [OF assms(1)] create_appends [OF assms(1,2)] create_id [OF assms(2)]
    by (auto simp: consistent_def ids_ok_def map_of_eq_None_keys)
qed

lemma remove_consistent: "consistent m \<Longrightarrow> consistent (remove k m)"
  using set_alist_erase_subset [of k "entries m"]
  by (auto simp: consistent_def ids_ok_def remove_entries remove_counter keys_erase distinct_keys_erase)

lemma lookup_created:
  "create p m = (v, m') \<Longrightarrow> map_of (entries m') (id_of v) = Some v"
  using create_entries create_id by (simp add: AList.update_conv')

lemma lookup_other:
  "create p m = (v, m') \<Longrightarrow> k \<noteq> id_of v \<Longrightarrow> map_of (entries m') k = map_of (entries m) k"
  using create_entries create_id by (simp add: AList.update_conv')

lemma lookup_removed: "map_of (entries (remove k m)) k' = (if k' = k then None else map_of (entries m) k')"
  by (simp add: remove_entries)

end

interpretation session_manager: id_manager sm_sessions sm_sessionCounter CreateSession
    "\<lambda>k m. snd (RemoveSession k m)" ss_sessionId
  by unfold_locales (auto simp: CreateSession_def RemoveSession_def Let_def)

interpretation user_manager: id_manager um_users um_userIdCounter "\<lambda>(ses, name, rid) m. add_user ses name rid m"
    RemoveUserByUserId us_id
  by unfold_locales (auto simp: add_user_def RemoveUserByUserId_def Let_def)

section \<open>What a transmission does\<close>

text \<open>The messages handed to the network, in order.\<close>

fun deliveries :: "LifecycleEvent list \<Rightarrow> (SocketHandle \<times> byte list) list" where
  "deliveries [] = []"
| "deliveries (Forwarded (WSASend h d) # es) = (h, d) # deliveries es"
| "deliveries (_ # es) = deliveries es"

text \<open>What \<open>Send\<close> contributes: the framed packet, when the session is connected
  and the frame fits the send buffer.\<close>

definition framed :: "ChatEnv \<Rightarrow> Packet \<Rightarrow> byte list" where
  "framed env p = encode_frame (api_bytes (cv_api env) p)"

definition sendable :: "ChatEnv \<Rightarrow> Packet \<Rightarrow> bool" where
  "sendable env p \<longleftrightarrow> length (api_bytes (cv_api env) p) + 4 \<le> sendBufferSize"

definition delivery :: "ChatEnv \<Rightarrow> Packet \<Rightarrow> (addr \<Rightarrow> SocketHandle) \<Rightarrow> Session \<Rightarrow> (SocketHandle \<times> byte list) list" where
  "delivery env p sock ses =
     (if sock (ss_tcpClient ses) \<noteq> InvalidSocket \<and> sendable env p
      then [(sock (ss_tcpClient ses), framed env p)] else [])"

lemma deliveries_append [simp]: "deliveries (a @ b) = deliveries a @ deliveries b"
  by (induction a rule: deliveries.induct) simp_all

lemma deliveries_client_callback:
  "deliveries (sl_events (client_callback e s)) = deliveries (sl_events s) @ deliveries [Forwarded e]"
  by (cases e) (simp_all add: event_def Let_def)

lemma deliveries_fold_callback:
  "deliveries (sl_events (fold client_callback outs s))
    = deliveries (sl_events s) @ deliveries (map Forwarded outs)"
proof (induction outs arbitrary: s)
  case (Cons e outs)
  have "deliveries (map Forwarded (e # outs)) = deliveries [Forwarded e] @ deliveries (map Forwarded outs)"
    by (metis append_Cons append_Nil deliveries_append list.simps(9))
  then show ?case using Cons.IH [of "client_callback e s"] by (simp add: deliveries_client_callback)
qed simp

lemma deliveries_emit [simp]: "e \<in> {OnSendPosted, OnSendPostFailed} \<Longrightarrow> deliveries (map Forwarded (emit b e)) = []"
  by (auto simp: emit_def)

lemma sockets_put_client:
  "cl_socket c = cl_socket (client_of s i) \<Longrightarrow> sockets (put_client i c outs s) = sockets s"
  by (cases "i < length (sl_clientPool s)")
     (auto simp: fun_eq_iff sockets_def put_client_def nth_list_update list_update_beyond)

text \<open>Everything of the server but the send buffers and the event log is left
  alone by a transmission.\<close>

definition quiet :: "'a ServerLifeCycle \<Rightarrow> 'a ServerLifeCycle \<Rightarrow> bool" where
  "quiet s s' \<longleftrightarrow> sl_app s' = sl_app s \<and> sockets s' = sockets s \<and> sl_acceptor s' = sl_acceptor s
     \<and> sl_iocp s' = sl_iocp s \<and> sl_callbacks s' = sl_callbacks s
     \<and> length (sl_clientPool s') = length (sl_clientPool s) \<and> (lifecycle_inv s \<longrightarrow> lifecycle_inv s')"

lemma quiet_refl [simp]: "quiet s s"
  by (simp add: quiet_def)

lemma quiet_trans: "quiet a b \<Longrightarrow> quiet b c \<Longrightarrow> quiet a c"
  by (simp add: quiet_def)

lemma post_send_quiet:
  "i < length (sl_clientPool s) \<Longrightarrow> quiet s (snd (post_send r e d i s))"
  using post_send_inv [of s i r e d]
  by (auto simp: quiet_def post_send_def PostSend_def Let_def sockets_put_client split: prod.splits)

lemma post_send_deliveries:
  assumes "length d \<le> sendBufferSize"
  shows "deliveries (sl_events (snd (post_send r e d i s)))
    = deliveries (sl_events s) @ [(sockets s i, d)]"
proof -
  have "unat (of_nat (length d) :: uint32) = length d"
    using assms by (intro unat_of_nat32) (simp add: sendBufferSize_def)
  then show ?thesis
    by (auto simp: post_send_def PostSend_def Let_def put_client_def deliveries_fold_callback sockets_def
        deliveries_client_callback event_def)
qed

lemma Session_Send_effect:
  assumes "ss_tcpClient ses < length (sl_clientPool s)"
  shows "quiet s (Session_Send env p ses s)"
    and "deliveries (sl_events (Session_Send env p ses s))
      = deliveries (sl_events s) @ delivery env p (sockets s) ses"
proof -
  let ?buf = "api_bytes (cv_api env) p"
  have frame: "encode_be32 (of_nat (length ?buf)) @ ?buf = framed env p" if "sendable env p"
    using that encode_frame_small [of ?buf] by (simp add: framed_def sendable_def sendBufferSize_def)
  have len: "length (framed env p) \<le> sendBufferSize" if "sendable env p"
    using that unfolding frame [OF that, symmetric] by (simp add: sendable_def)
  show "quiet s (Session_Send env p ses s)"
    using post_send_quiet [OF assms] by (auto simp: Session_Send_def Let_def split: prod.splits)
  show "deliveries (sl_events (Session_Send env p ses s))
      = deliveries (sl_events s) @ delivery env p (sockets s) ses"
  proof (cases "sendable env p")
    case True
    then have "\<not> length ?buf > 2 ^ 32 - 1" "\<not> 4 + length ?buf > sendBufferSize"
      by (auto simp: sendable_def sendBufferSize_def)
    then show ?thesis
      using True post_send_deliveries [OF len [OF True]] frame [OF True]
      by (auto simp: Session_Send_def Let_def delivery_def Client_IsConnected_def sockets_def split: prod.splits)
  next
    case False
    then have "4 + length ?buf > sendBufferSize" by (simp add: sendable_def)
    then show ?thesis using False by (simp add: Session_Send_def Let_def delivery_def)
  qed
qed

end
