(* ===== verification/ChatRoom.thy ===== *)
theory ChatRoom
  imports ChatSession
begin

text \<open>
  \<open>Room\<close> and \<open>RoomManager\<close> of the chat server
  (exec/chat/chat-server/chat-server/room): membership and broadcasting, and
  the list of rooms with their capacity.  A room operation that transmits
  takes and returns the server state; a room is named by its position in the
  manager's vector.
\<close>

record Room =
  rm_users :: "User list"
  rm_roomId :: uint64

definition Room_new :: "uint64 \<Rightarrow> Room" where
  "Room_new roomId = \<lparr>rm_users = [], rm_roomId = roomId\<rparr>"

text \<open>The room id is narrowed to the 32 bits of the message.\<close>

definition Room_Join ::
  "ChatEnv \<Rightarrow> User option \<Rightarrow> Room \<Rightarrow> 'a ServerLifeCycle \<Rightarrow> Room \<times> 'a ServerLifeCycle" where
  "Room_Join env user room s =
     (case user of None \<Rightarrow> (room, s)
      | Some u \<Rightarrow>
        let pkt = makeUserJoinedBroadcast (ucast (rm_roomId room)) (us_id u) (us_userName u) Online 0 in
        (room\<lparr>rm_users := rm_users room @ [u]\<rparr>, fold (User_Send env pkt) (rm_users room) s))"

definition Room_Leave :: "ChatEnv \<Rightarrow> uint64 \<Rightarrow> Room \<Rightarrow> 'a ServerLifeCycle \<Rightarrow> Room \<times> 'a ServerLifeCycle" where
  "Room_Leave env userId room s =
     (if rm_users room = [] then (room, s)
      else case find (\<lambda>u. us_id u = userId) (rm_users room) of
          None \<Rightarrow> (room, s)
        | Some found \<Rightarrow>
          let users = remove1 found (rm_users room);
              pkt = makeUserLeftBroadcast userId (us_userName found) 0 in
          (room\<lparr>rm_users := users\<rparr>,
           fold (\<lambda>u s. if us_id u = userId then s else User_Send env pkt u s) users s))"

definition BroadcastChatMessage ::
  "ChatEnv \<Rightarrow> uint32 \<Rightarrow> uint64 \<Rightarrow> string \<Rightarrow> string \<Rightarrow> uint32 \<Rightarrow> Room \<Rightarrow> 'a ServerLifeCycle \<Rightarrow> 'a ServerLifeCycle" where
  "BroadcastChatMessage env senderId userId username chatMessage seqn room s =
     (let pkt = makeChatMessageBroadcast senderId username chatMessage (cv_now env (length (sl_events s))) seqn in
      fold (\<lambda>u s. if us_id u = userId then s else User_Send env pkt u s) (rm_users room) s)"

definition Room_GetUserCount :: "Room \<Rightarrow> nat" where
  "Room_GetUserCount room = length (rm_users room)"

definition Kick :: "uint64 \<Rightarrow> Room \<Rightarrow> Room" where
  "Kick userId room = room\<lparr>rm_users := filter (\<lambda>u. us_id u \<noteq> userId) (rm_users room)\<rparr>"

definition KickByDisconnected :: "(addr \<Rightarrow> SocketHandle) \<Rightarrow> addr \<Rightarrow> Room \<Rightarrow> Room" where
  "KickByDisconnected sock client room =
     room\<lparr>rm_users := filter (\<lambda>u. \<not> IsSameClient sock client u) (rm_users room)\<rparr>"

section \<open>RoomManager\<close>

record RoomManager =
  mg_rooms :: "Room list"
  mg_roomCounter :: uint32
  mg_maxRoomCapacity :: uint32

text \<open>\<open>roomCounter.fetch_add\<close> and the construction of a room appended to the
  vector, as the constructor, \<open>CreateRoom\<close> and \<open>GetOrCreateAvailableRoom\<close> do.\<close>

definition append_room :: "RoomManager \<Rightarrow> RoomManager" where
  "append_room m =
     m\<lparr>mg_rooms := mg_rooms m @ [Room_new (ucast (mg_roomCounter m))],
       mg_roomCounter := mg_roomCounter m + 1\<rparr>"

definition RoomManager_new :: "16 word \<Rightarrow> uint32 \<Rightarrow> RoomManager" where
  "RoomManager_new initRoomCount maxRoomCapacity =
     (append_room ^^ unat initRoomCount)
       \<lparr>mg_rooms = [], mg_roomCounter = 0, mg_maxRoomCapacity = maxRoomCapacity\<rparr>"

definition CreateRoom :: "uint32 option \<Rightarrow> RoomManager \<Rightarrow> nat \<times> RoomManager" where
  "CreateRoom roomIdOverride m =
     (length (mg_rooms m),
      case roomIdOverride of
        Some roomId \<Rightarrow> m\<lparr>mg_rooms := mg_rooms m @ [Room_new (ucast roomId)]\<rparr>
      | None \<Rightarrow> append_room m)"

definition GetOrCreateAvailableRoom :: "RoomManager \<Rightarrow> nat \<times> RoomManager" where
  "GetOrCreateAvailableRoom m =
     (case find (\<lambda>i. Room_GetUserCount (mg_rooms m ! i) < unat (mg_maxRoomCapacity m)) [0..<length (mg_rooms m)] of
        Some i \<Rightarrow> (i, m)
      | None \<Rightarrow> (length (mg_rooms m), append_room m))"

definition DestroyRoom :: "uint32 \<Rightarrow> RoomManager \<Rightarrow> bool \<times> RoomManager" where
  "DestroyRoom roomId m =
     (let rooms = filter (\<lambda>r. rm_roomId r \<noteq> ucast roomId) (mg_rooms m) in
      (length (mg_rooms m) \<noteq> length rooms, m\<lparr>mg_rooms := rooms\<rparr>))"

definition IsRoomExist :: "uint32 \<Rightarrow> RoomManager \<Rightarrow> bool" where
  "IsRoomExist roomId m = list_ex (\<lambda>r. rm_roomId r = ucast roomId) (mg_rooms m)"

definition GetRoom :: "uint32 \<Rightarrow> RoomManager \<Rightarrow> nat option" where
  "GetRoom roomId m = find (\<lambda>i. rm_roomId (mg_rooms m ! i) = ucast roomId) [0..<length (mg_rooms m)]"

definition KickDisconnected :: "(addr \<Rightarrow> SocketHandle) \<Rightarrow> addr \<Rightarrow> RoomManager \<Rightarrow> RoomManager" where
  "KickDisconnected sock client m = m\<lparr>mg_rooms := map (KickByDisconnected sock client) (mg_rooms m)\<rparr>"

section \<open>Broadcasting\<close>

text \<open>A broadcast hands the packet to every chosen recipient, once each and in
  order.\<close>

definition in_pool :: "'a ServerLifeCycle \<Rightarrow> User \<Rightarrow> bool" where
  "in_pool s u \<longleftrightarrow> ss_tcpClient (us_session u) < length (sl_clientPool s)"

definition deliveries_to :: "ChatEnv \<Rightarrow> Packet \<Rightarrow> (addr \<Rightarrow> SocketHandle) \<Rightarrow> User list \<Rightarrow> (SocketHandle \<times> byte list) list" where
  "deliveries_to env p sock us = concat (map (\<lambda>u. delivery env p sock (us_session u)) us)"

lemma broadcast_effect:
  assumes "\<forall>u \<in> set us. in_pool s u"
  shows "quiet s (fold (\<lambda>u s. if skip u then s else User_Send env p u s) us s)
    \<and> deliveries (sl_events (fold (\<lambda>u s. if skip u then s else User_Send env p u s) us s))
      = deliveries (sl_events s) @ deliveries_to env p (sockets s) (filter (\<lambda>u. \<not> skip u) us)"
  using assms
proof (induction us arbitrary: s)
  case (Cons u us)
  show ?case
  proof (cases "skip u")
    case True
    then show ?thesis using Cons by simp
  next
    case False
    let ?s = "User_Send env p u s"
    note eff = Session_Send_effect [of "us_session u" s env p, folded User_Send_def]
    have q: "quiet s ?s" and d: "deliveries (sl_events ?s) = deliveries (sl_events s) @ delivery env p (sockets s) (us_session u)"
      using eff Cons.prems by (simp_all add: in_pool_def)
    have "\<forall>v \<in> set us. in_pool ?s v" "sockets ?s = sockets s" using Cons.prems q by (simp_all add: in_pool_def quiet_def)
    then show ?thesis
      using Cons.IH [of ?s] quiet_trans [OF q] d False by (simp add: deliveries_to_def)
  qed
qed (simp add: deliveries_to_def)

lemma User_Send_effect:
  assumes "in_pool s u"
  shows "quiet s (User_Send env p u s)"
    "deliveries (sl_events (User_Send env p u s)) = deliveries (sl_events s) @ deliveries_to env p (sockets s) [u]"
  using broadcast_effect [of "[u]" s "\<lambda>_. False" env p] assms by simp_all

lemma Room_Join_effect:
  assumes "\<forall>u \<in> set (rm_users room). in_pool s u" and "Room_Join env (Some v) room s = (room', s')"
  shows "room' = room\<lparr>rm_users := rm_users room @ [v]\<rparr>" and "quiet s s'"
    and "deliveries (sl_events s') = deliveries (sl_events s) @
      deliveries_to env (makeUserJoinedBroadcast (ucast (rm_roomId room)) (us_id v) (us_userName v) Online 0)
        (sockets s) (rm_users room)"
  using broadcast_effect [OF assms(1), of "\<lambda>_. False"] assms(2)
  by (auto simp: Room_Join_def Let_def)

lemma find_ids_remove1:
  assumes "distinct (map us_id us)" and "find (\<lambda>u. us_id u = k) us = Some v"
  shows "us_id v = k" and "v \<in> set us" and "remove1 v us = filter (\<lambda>u. us_id u \<noteq> k) us"
proof -
  show v: "us_id v = k" "v \<in> set us" using assms(2) by (auto simp: find_Some_iff)
  show "remove1 v us = filter (\<lambda>u. us_id u \<noteq> k) us"
    using assms(1) v
  proof (induction us)
    case (Cons a us)
    show ?case
    proof (cases "us_id a = k")
      case True
      then have "us_id u \<noteq> k" if "u \<in> set us" for u
        using that Cons.prems(1) True by (metis distinct.simps(2) image_eqI list.simps(9) set_map)
      then have "v = a" "filter (\<lambda>u. us_id u \<noteq> k) us = us" using Cons.prems by (auto simp: filter_id_conv)
      then show ?thesis using True by simp
    next
      case False
      then show ?thesis using Cons by auto
    qed
  qed simp
qed

lemma Room_Leave_effect:
  assumes "\<forall>u \<in> set (rm_users room). in_pool s u" and "distinct (map us_id (rm_users room))"
    and "Room_Leave env k room s = (room', s')"
  shows "room' = Kick k room" and "quiet s s'"
    and "deliveries (sl_events s') = deliveries (sl_events s) @
      (case find (\<lambda>u. us_id u = k) (rm_users room) of None \<Rightarrow> []
       | Some v \<Rightarrow> deliveries_to env (makeUserLeftBroadcast k (us_userName v) 0) (sockets s) (rm_users room'))"
proof -
  show "room' = Kick k room"
  proof (cases "find (\<lambda>u. us_id u = k) (rm_users room)")
    case None
    then have "filter (\<lambda>u. us_id u \<noteq> k) (rm_users room) = rm_users room"
      by (auto simp: find_None_iff filter_id_conv)
    then show ?thesis using None assms(3) by (auto simp: Room_Leave_def Kick_def split: if_splits)
  next
    case (Some v)
    then show ?thesis
      using find_ids_remove1 [OF assms(2) Some] assms(3)
      by (auto simp: Room_Leave_def Kick_def Let_def split: if_splits)
  qed
  have sub: "\<forall>u \<in> set (remove1 v (rm_users room)). in_pool s u" for v
    using assms(1) set_remove1_subset by fastforce
  show "quiet s s'"
    using assms(3) broadcast_effect [OF sub, of "\<lambda>u. us_id u = k"]
    by (auto simp: Room_Leave_def Let_def split: if_splits option.splits)
  show "deliveries (sl_events s') = deliveries (sl_events s) @
      (case find (\<lambda>u. us_id u = k) (rm_users room) of None \<Rightarrow> []
       | Some v \<Rightarrow> deliveries_to env (makeUserLeftBroadcast k (us_userName v) 0) (sockets s) (rm_users room'))"
  proof (cases "find (\<lambda>u. us_id u = k) (rm_users room)")
    case None
    then show ?thesis using assms(3) by (auto simp: Room_Leave_def split: if_splits)
  next
    case (Some v)
    have "filter (\<lambda>u. us_id u \<noteq> k) (remove1 v (rm_users room)) = remove1 v (rm_users room)"
      using find_ids_remove1(3) [OF assms(2) Some] by simp
    then show ?thesis
      using Some assms(3) broadcast_effect [OF sub [of v], of "\<lambda>u. us_id u = k"]
      by (auto simp: Room_Leave_def Let_def split: if_splits)
  qed
qed

lemma BroadcastChatMessage_effect:
  assumes "\<forall>u \<in> set (rm_users room). in_pool s u"
  shows "quiet s (BroadcastChatMessage env sid k name msg n room s)"
    and "deliveries (sl_events (BroadcastChatMessage env sid k name msg n room s)) = deliveries (sl_events s) @
      deliveries_to env (makeChatMessageBroadcast sid name msg (cv_now env (length (sl_events s))) n)
        (sockets s) (filter (\<lambda>u. us_id u \<noteq> k) (rm_users room))"
  using broadcast_effect [OF assms, of "\<lambda>u. us_id u = k"] by (simp_all add: BroadcastChatMessage_def Let_def)

section \<open>Choosing a room\<close>

text \<open>The chosen room has a free place: it is the first one below capacity, or a
  new empty one when every room is full.\<close>

lemma GetOrCreateAvailableRoom_cases:
  assumes "GetOrCreateAvailableRoom m = (i, m')"
  obtains (existing) "m' = m" "i < length (mg_rooms m)"
      "length (rm_users (mg_rooms m ! i)) < unat (mg_maxRoomCapacity m)"
      "\<forall>j < i. unat (mg_maxRoomCapacity m) \<le> length (rm_users (mg_rooms m ! j))"
  | (full) "m' = append_room m" "i = length (mg_rooms m)"
      "\<forall>r \<in> set (mg_rooms m). unat (mg_maxRoomCapacity m) \<le> length (rm_users r)"
proof (cases "find (\<lambda>i. Room_GetUserCount (mg_rooms m ! i) < unat (mg_maxRoomCapacity m)) [0..<length (mg_rooms m)]")
  case None
  then have "\<forall>j < length (mg_rooms m). unat (mg_maxRoomCapacity m) \<le> length (rm_users (mg_rooms m ! j))"
    by (simp add: find_None_iff Room_GetUserCount_def not_less) (metis leD)
  then have "\<forall>r \<in> set (mg_rooms m). unat (mg_maxRoomCapacity m) \<le> length (rm_users r)"
    by (auto simp: in_set_conv_nth)
  then show ?thesis using None assms that(2) by (simp add: GetOrCreateAvailableRoom_def)
next
  case (Some k)
  then have "i = k" "m' = m" using assms by (simp_all add: GetOrCreateAvailableRoom_def)
  moreover obtain j where "j < length (mg_rooms m)" "[0..<length (mg_rooms m)] ! j = k"
      "Room_GetUserCount (mg_rooms m ! k) < unat (mg_maxRoomCapacity m)"
      "\<forall>l < j. \<not> Room_GetUserCount (mg_rooms m ! ([0..<length (mg_rooms m)] ! l)) < unat (mg_maxRoomCapacity m)"
    using Some by (auto simp: find_Some_iff)
  ultimately show ?thesis using that(1) by (auto simp: Room_GetUserCount_def not_less)
qed

lemma GetRoom_Some:
  assumes "GetRoom k m = Some i"
  shows "i < length (mg_rooms m)" "rm_roomId (mg_rooms m ! i) = ucast k"
  using assms by (auto simp: GetRoom_def find_Some_iff)

lemma GetRoom_None: "GetRoom k m = None \<longleftrightarrow> \<not> IsRoomExist k m"
  unfolding GetRoom_def IsRoomExist_def find_None_iff list_ex_iff
  by (metis (mono_tags) atLeastLessThan_iff in_set_conv_nth le0 set_upt)

end
