(* ===== verification/CommandQueue.thy ===== *)
theory CommandQueue
  imports Prelude
begin

text \<open>
  \<open>concurrency::MPSCCommandQueue\<close> (lib/inc/concurrency/MPSCCommandQueue.hpp):
  the queue between the IOCP worker threads (producers) and the logic thread
  (the one consumer).  Every operation takes the mutex for its whole access to
  \<open>_writeQueue\<close>, so an execution of the program is an interleaving of atomic
  operations; \<open>out.clear()\<close> happens before the lock but on a vector only the
  consumer owns.
\<close>

record 'a MPSCCommandQueue =
  q_writeQueue :: "'a list"

definition queue_init :: "'a MPSCCommandQueue" where
  "queue_init = \<lparr>q_writeQueue = []\<rparr>"

definition Push :: "'a \<Rightarrow> 'a MPSCCommandQueue \<Rightarrow> 'a MPSCCommandQueue" where
  "Push item q = q\<lparr>q_writeQueue := q_writeQueue q @ [item]\<rparr>"

text \<open>\<open>out\<close> is cleared, then swapped with the write queue.\<close>

definition DrainTo :: "'a list \<Rightarrow> 'a MPSCCommandQueue \<Rightarrow> 'a list \<times> 'a MPSCCommandQueue" where
  "DrainTo out q = (let out = [] in (q_writeQueue q, q\<lparr>q_writeQueue := out\<rparr>))"

definition Empty :: "'a MPSCCommandQueue \<Rightarrow> bool" where
  "Empty q = (q_writeQueue q = [])"

text \<open>The events of a run: a producer \<open>p\<close> pushes, the consumer drains.\<close>

datatype ('p, 'a) queue_event = Pushed 'p 'a | Drained

fun pushed_items :: "('p, 'a) queue_event list \<Rightarrow> ('p \<times> 'a) list" where
  "pushed_items [] = []"
| "pushed_items (Pushed p x # es) = (p, x) # pushed_items es"
| "pushed_items (Drained # es) = pushed_items es"

lemma pushed_items_append [simp]: "pushed_items (a @ b) = pushed_items a @ pushed_items b"
  by (induction a rule: pushed_items.induct) auto

text \<open>The contract the dispatcher relies on, over the sequence of pending items.\<close>

locale command_queue =
  fixes push :: "'a \<Rightarrow> 'q \<Rightarrow> 'q"
    and drain :: "'q \<Rightarrow> 'a list \<times> 'q"
    and pending :: "'q \<Rightarrow> 'a list"
  assumes pending_push: "pending (push x q) = pending q @ [x]"
    and fst_drain: "fst (drain q) = pending q"
    and pending_drain: "pending (snd (drain q)) = []"
begin

fun run :: "('p, 'a) queue_event list \<Rightarrow> 'q \<Rightarrow> 'a list list \<times> 'q" where
  "run [] q = ([], q)"
| "run (Pushed p x # es) q = run es (push x q)"
| "run (Drained # es) q = (case run es (snd (drain q)) of (bs, q') \<Rightarrow> (fst (drain q) # bs, q'))"

lemma run_conserves:
  "run es q = (bs, q') \<Longrightarrow> concat bs @ pending q' = pending q @ map snd (pushed_items es)"
proof (induction es q arbitrary: bs rule: run.induct)
  case (2 p x es q)
  then show ?case by (simp add: pending_push)
next
  case (3 es q)
  then obtain cs where "run es (snd (drain q)) = (cs, q')" "bs = fst (drain q) # cs"
    by (auto split: prod.splits)
  then show ?case using "3.IH" by (simp add: fst_drain pending_drain)
qed auto

text \<open>A drain that ends a run has delivered everything pushed.\<close>

lemma run_drained:
  assumes "run (es @ [Drained]) q = (bs, q')"
  shows "pending q' = [] \<and> concat bs = pending q @ map snd (pushed_items es)"
proof -
  have "run (es @ [Drained]) q = (bs, q') \<Longrightarrow> pending q' = []" for bs
  proof (induction es q arbitrary: bs rule: run.induct)
    case (3 es q)
    then show ?case by (auto split: prod.splits)
  qed (auto simp: pending_drain)
  then show ?thesis using run_conserves [OF assms] assms by auto
qed

end

interpretation mpsc: command_queue Push "DrainTo out" q_writeQueue for out
  by unfold_locales (auto simp: Push_def DrainTo_def)

text \<open>Items of one producer, in the order of the run.\<close>

definition of_producer :: "'p \<Rightarrow> ('p \<times> 'a) list \<Rightarrow> 'a list" where
  "of_producer p xs = map snd (filter (\<lambda>x. fst x = p) xs)"

text \<open>C9: under every interleaving of producers and consumer, no command is
  lost, duplicated or reordered: the drained batches, followed by what is still
  queued, are exactly the pushed commands in the order the pushes took the
  mutex; in particular each producer's commands, tagged with their producer,
  come out in that producer's order, and a final drain leaves nothing behind.\<close>

theorem mpsc_no_loss:
  fixes es :: "('p, 'p \<times> 'a) queue_event list"
  assumes "\<forall>(p, x) \<in> set (pushed_items es). fst x = p"
    and "mpsc.run out es queue_init = (bs, q')"
  shows "concat bs @ q_writeQueue q' = map snd (pushed_items es)
    \<and> of_producer p (concat bs @ q_writeQueue q') = map snd (of_producer p (pushed_items es))
    \<and> (\<forall>bs' q''. mpsc.run out (es @ [Drained]) queue_init = (bs', q'') \<longrightarrow>
          Empty q'' \<and> concat bs' = map snd (pushed_items es))"
proof -
  have all: "concat bs @ q_writeQueue q' = map snd (pushed_items es)"
    using mpsc.run_conserves [OF assms(2)] by (simp add: queue_init_def)
  have "of_producer p (map snd xs) = map snd (of_producer p xs)"
    if "\<forall>(p, x) \<in> set xs. fst x = p" for xs :: "('p \<times> 'p \<times> 'a) list"
    using that by (induction xs) (auto simp: of_producer_def)
  then have "of_producer p (concat bs @ q_writeQueue q') = map snd (of_producer p (pushed_items es))"
    unfolding all using assms(1) .
  moreover have "Empty q'' \<and> concat bs' = map snd (pushed_items es)"
    if "mpsc.run out (es @ [Drained]) queue_init = (bs', q'')" for bs' q''
    using mpsc.run_drained [OF that] by (simp add: Empty_def queue_init_def)
  ultimately show ?thesis using all by blast
qed

lemma mpsc_no_loss_witness:
  "\<exists>bs q'. mpsc.run [] [Pushed (1 :: nat) (1 :: nat, ''a''), Pushed 2 (2, ''x''), Drained, Pushed 1 (1, ''b'')]
       queue_init = (bs, q') \<and> concat bs @ q_writeQueue q' = [(1, ''a''), (2, ''x''), (1, ''b'')]"
proof -
  let ?es = "[Pushed (1 :: nat) (1 :: nat, ''a''), Pushed 2 (2, ''x''), Drained, Pushed 1 (1, ''b'')]"
  obtain bs q' where r: "mpsc.run [] ?es queue_init = (bs, q')" by fastforce
  have "concat bs @ q_writeQueue q' = map snd (pushed_items ?es)"
    using mpsc_no_loss [OF _ r] by simp
  then show ?thesis using r by (intro exI conjI) auto
qed

end
