(* ===== verification/Dispatcher.thy ===== *)
theory Dispatcher
  imports Connection Protocol CommandQueue
begin

text \<open>
  \<open>net::PacketDispatcher\<close> (network/inc/server/PacketDispatcher.hpp,
  network/src/server/PacketDispatcher.cpp): frame assembly and validation on
  the worker threads (\<open>Receive\<close>), the command queue, and dispatch to the
  registered handlers on the logic thread (\<open>Tick\<close>).

  \<open>'s\<close> is the state the handlers work on (the application and its client
  objects).  The clock \<open>Time::NowInNs64\<close> is a parameter \<open>now\<close>: the k-th reading
  is \<open>now k\<close>.  \<open>pd_events\<close> lists the metric callbacks invoked, oldest first.
\<close>

record PacketCommand =
  cmd_client :: addr
  cmd_payloadType :: PayloadType
  cmd_data :: "byte list"
  cmd_enqueuedAtNs :: int

record DispatcherCallbacks =
  dcb_onPacketValidationSucceeded :: bool
  dcb_onPacketValidationFailed :: bool
  dcb_onQueuePushed :: bool
  dcb_onQueueDrained :: bool
  dcb_onQueueWait :: bool
  dcb_onDispatchProcess :: bool

datatype DispatcherEvent =
    PacketValidationSucceeded
  | PacketValidationFailed
  | QueuePushed nat
  | QueueDrained nat
  | QueueWait int
  | DispatchProcess int

type_synonym 's dispatch_fn = "addr \<Rightarrow> Packet \<Rightarrow> 's \<Rightarrow> 's"

record 's PacketDispatcher =
  pd_callbacks :: DispatcherCallbacks
  pd_handlers :: "(PayloadType \<times> 's dispatch_fn) list"
  pd_commandQueue :: "PacketCommand MPSCCommandQueue"
  pd_tickBatch :: "PacketCommand list"
  pd_clock :: nat
  pd_events :: "DispatcherEvent list"

definition PacketDispatcher_new :: "'s PacketDispatcher" where
  "PacketDispatcher_new =
     \<lparr>pd_callbacks = \<lparr>dcb_onPacketValidationSucceeded = False, dcb_onPacketValidationFailed = False,
        dcb_onQueuePushed = False, dcb_onQueueDrained = False, dcb_onQueueWait = False,
        dcb_onDispatchProcess = False\<rparr>,
      pd_handlers = [], pd_commandQueue = queue_init, pd_tickBatch = [], pd_clock = 0, pd_events = []\<rparr>"

definition Dispatcher_UseCallbacks :: "DispatcherCallbacks \<Rightarrow> 's PacketDispatcher \<Rightarrow> 's PacketDispatcher" where
  "Dispatcher_UseCallbacks cbs d = d\<lparr>pd_callbacks := cbs\<rparr>"

definition RegisterHandler ::
  "PayloadType \<Rightarrow> (addr \<Rightarrow> Packet \<Rightarrow> Payload \<Rightarrow> 's \<Rightarrow> 's) \<Rightarrow> 's PacketDispatcher \<Rightarrow> 's PacketDispatcher" where
  "RegisterHandler key handler d =
     d\<lparr>pd_handlers := alist_assign key
         (\<lambda>client packet s. case payload_as key packet of
             None \<Rightarrow> s
           | Some payload \<Rightarrow> handler client packet payload s)
         (pd_handlers d)\<rparr>"

definition notify ::
  "(DispatcherCallbacks \<Rightarrow> bool) \<Rightarrow> DispatcherEvent \<Rightarrow> 's PacketDispatcher \<Rightarrow> 's PacketDispatcher" where
  "notify isSet e d = (if isSet (pd_callbacks d) then d\<lparr>pd_events := pd_events d @ [e]\<rparr> else d)"

definition NowInNs64 :: "(nat \<Rightarrow> int) \<Rightarrow> 's PacketDispatcher \<Rightarrow> int \<times> 's PacketDispatcher" where
  "NowInNs64 now d = (now (pd_clock d), d\<lparr>pd_clock := Suc (pd_clock d)\<rparr>)"

definition ParsePacket :: "PacketApi \<Rightarrow> byte list \<Rightarrow> EPacketError + Packet" where
  "ParsePacket api data =
     (if \<not> api_verify api data then Inl FbFailedVerify
      else case api_get api data of None \<Rightarrow> Inl FbGetPacket | Some packet \<Rightarrow> Inr packet)"

definition PushCommand ::
  "(nat \<Rightarrow> int) \<Rightarrow> addr \<Rightarrow> PayloadType \<Rightarrow> byte list \<Rightarrow> 's PacketDispatcher \<Rightarrow> 's PacketDispatcher" where
  "PushCommand now client payloadType rawPayload d =
     (case NowInNs64 now d of (t, d1) \<Rightarrow>
        notify dcb_onQueuePushed (QueuePushed 1)
          (d1\<lparr>pd_commandQueue := Push \<lparr>cmd_client = client, cmd_payloadType = payloadType,
                 cmd_data = rawPayload, cmd_enqueuedAtNs = t\<rparr> (pd_commandQueue d1)\<rparr>))"

definition DispatchPacket ::
  "addr \<Rightarrow> Packet \<Rightarrow> 's PacketDispatcher \<Rightarrow> 's \<Rightarrow> (EPacketError + unit) \<times> 's" where
  "DispatchPacket client packet d s =
     (case map_of (pd_handlers d) (pk_payload_type packet) of
        None \<Rightarrow> (Inl FbPayloadTypeNotFound, s)
      | Some h \<Rightarrow> (Inr (), h client packet s))"

section \<open>Receive\<close>

text \<open>The three refusals of \<open>Receive\<close> share this: report, close.\<close>

definition refuse ::
  "Client \<Rightarrow> 's PacketDispatcher \<Rightarrow> Client \<times> 's PacketDispatcher \<times> ClientOut list" where
  "refuse c d =
     (case Client_Close c of (c', outs) \<Rightarrow>
        (c', notify dcb_onPacketValidationFailed PacketValidationFailed d, outs))"

definition consume_frame :: "nat \<Rightarrow> Client \<Rightarrow> Client" where
  "consume_frame frameSize c = c\<lparr>cl_frameBuf := Consume (of_nat frameSize) (cl_frameBuf c)\<rparr>"

text \<open>The frame assembly loop.  The deferred \<open>Consume\<close> runs when the iteration
  ends, also on the refusal of an invalid packet.\<close>

function receive_loop ::
  "PacketApi \<Rightarrow> (nat \<Rightarrow> int) \<Rightarrow> addr \<Rightarrow> Client \<Rightarrow> 's PacketDispatcher
    \<Rightarrow> Client \<times> 's PacketDispatcher \<times> ClientOut list" where
  "receive_loop api now client c d =
     (let buf = Data (cl_frameBuf c) in
      if length buf < kHeaderSize then (c, d, [])
      else
        let payloadLen = unat (decode_be32 buf) in
        if payloadLen > maxFrameSize then refuse c d
        else
          let frameSize = kHeaderSize + payloadLen in
          if length buf < frameSize then (c, d, [])
          else
            let payload = take payloadLen (drop kHeaderSize buf) in
            case ParsePacket api payload of
              Inl _ \<Rightarrow> (case refuse c d of (c', d', outs) \<Rightarrow> (consume_frame frameSize c', d', outs))
            | Inr packet \<Rightarrow>
                receive_loop api now client (consume_frame frameSize c)
                  (PushCommand now client (pk_payload_type packet) payload
                    (notify dcb_onPacketValidationSucceeded PacketValidationSucceeded d)))"
  by pat_completeness auto
termination
proof (relation "measure (\<lambda>(api, now, client, c, d). unat (fb_len (cl_frameBuf c)))", goal_cases)
  case (2 api now client c d buf payloadLen frameSize payload packet)
  let ?fb = "cl_frameBuf c"
  have fs: "4 \<le> frameSize" "frameSize \<le> unat (fb_len ?fb)"
    using 2 length_Data_le [of ?fb] by (auto simp: kHeaderSize_def)
  then have "unat (of_nat frameSize :: size_t) = frameSize"
    using unat_lt64 [of "fb_len ?fb"] by (intro unat_of_nat64) linarith
  then show ?case
    using Consume_decreases [of "of_nat frameSize" ?fb] fs
    by (simp add: consume_frame_def word_less_nat_alt)
qed auto

declare receive_loop.simps [simp del]

definition Receive ::
  "PacketApi \<Rightarrow> (nat \<Rightarrow> int) \<Rightarrow> addr \<Rightarrow> byte list \<Rightarrow> Client \<Rightarrow> 's PacketDispatcher
    \<Rightarrow> Client \<times> 's PacketDispatcher \<times> ClientOut list" where
  "Receive api now client data c d =
     (case Append data (cl_frameBuf c) of
        (False, fb) \<Rightarrow> refuse (c\<lparr>cl_frameBuf := fb\<rparr>) d
      | (True, fb) \<Rightarrow> receive_loop api now client (c\<lparr>cl_frameBuf := fb\<rparr>) d)"

section \<open>Tick\<close>

text \<open>One round of the loop of \<open>Tick\<close>; \<open>close\<close> is \<open>Client::Close\<close> on the shared
  client object.\<close>

definition process_command ::
  "PacketApi \<Rightarrow> (nat \<Rightarrow> int) \<Rightarrow> (addr \<Rightarrow> 's \<Rightarrow> 's) \<Rightarrow> PacketCommand
    \<Rightarrow> 's PacketDispatcher \<times> 's \<Rightarrow> 's PacketDispatcher \<times> 's" where
  "process_command api now close cmd ds =
     (case ds of (d, s) \<Rightarrow>
      let d1 = (if cmd_enqueuedAtNs cmd > 0 then
                  (case NowInNs64 now d of (t, d') \<Rightarrow>
                     notify dcb_onQueueWait (QueueWait (t - cmd_enqueuedAtNs cmd)) d')
                else d)
      in case api_get api (cmd_data cmd) of
           None \<Rightarrow> (d1, s)
         | Some packet \<Rightarrow>
             (case NowInNs64 now d1 of (start, d2) \<Rightarrow>
              case DispatchPacket (cmd_client cmd) packet d2 s of (res, s') \<Rightarrow>
              let d3 = (if dcb_onDispatchProcess (pd_callbacks d2) then
                          (case NowInNs64 now d2 of (t, d') \<Rightarrow>
                             notify dcb_onDispatchProcess (DispatchProcess (t - start)) d')
                        else d2)
              in if has_err res then (d3, close (cmd_client cmd) s') else (d3, s')))"

definition Tick ::
  "PacketApi \<Rightarrow> (nat \<Rightarrow> int) \<Rightarrow> (addr \<Rightarrow> 's \<Rightarrow> 's) \<Rightarrow> 's PacketDispatcher \<times> 's \<Rightarrow> 's PacketDispatcher \<times> 's" where
  "Tick api now close ds =
     (case ds of (d, s) \<Rightarrow>
      case DrainTo (pd_tickBatch d) (pd_commandQueue d) of (batch, q) \<Rightarrow>
        fold (process_command api now close) batch
          (notify dcb_onQueueDrained (QueueDrained (length batch))
             (d\<lparr>pd_commandQueue := q, pd_tickBatch := batch\<rparr>), s))"

section \<open>Receive refines the framing of the stream\<close>

definition valid_payload :: "PacketApi \<Rightarrow> byte list \<Rightarrow> bool" where
  "valid_payload api p = is_ok (ParsePacket api p)"

text \<open>What accepting one payload does to the dispatcher.\<close>

definition accept_payload ::
  "PacketApi \<Rightarrow> (nat \<Rightarrow> int) \<Rightarrow> addr \<Rightarrow> byte list \<Rightarrow> 's PacketDispatcher \<Rightarrow> 's PacketDispatcher" where
  "accept_payload api now client p d =
     (case ParsePacket api p of
        Inl _ \<Rightarrow> d
      | Inr packet \<Rightarrow> PushCommand now client (pk_payload_type packet) p
          (notify dcb_onPacketValidationSucceeded PacketValidationSucceeded d))"

text \<open>The abstract receiver: split the stream, accept the payloads, and close
  the connection when the stream is refused.\<close>

definition receive_spec ::
  "PacketApi \<Rightarrow> (nat \<Rightarrow> int) \<Rightarrow> addr \<Rightarrow> byte list \<Rightarrow> Client \<Rightarrow> 's PacketDispatcher
    \<Rightarrow> byte list \<times> Client \<times> 's PacketDispatcher \<times> ClientOut list" where
  "receive_spec api now client stream c d =
     (case frames_of (valid_payload api) stream of (ps, rest, st) \<Rightarrow>
        let d' = fold (accept_payload api now client) ps d in
        case st of
          Waiting \<Rightarrow> (rest, c, d', [])
        | Refused \<Rightarrow> (rest, fst (Client_Close c),
                      notify dcb_onPacketValidationFailed PacketValidationFailed d',
                      snd (Client_Close c)))"

text \<open>Concrete and abstract client agree up to the bytes of the frame buffer's
  array behind its length.\<close>

definition client_rel :: "byte list \<Rightarrow> Client \<Rightarrow> Client \<Rightarrow> bool" where
  "client_rel rest c c' \<longleftrightarrow> (\<exists>fb. c' = c\<lparr>cl_frameBuf := fb\<rparr> \<and> fb_inv fb \<and> Data fb = rest)"

lemma Close_frameBuf_commute:
  "Client_Close (c\<lparr>cl_frameBuf := fb\<rparr>) =
    ((fst (Client_Close c))\<lparr>cl_frameBuf := fb\<rparr>, snd (Client_Close c))"
  by (auto simp: Client_Close_def EmitDisconnectedEvent_def)

lemma Data_consume_frame:
  assumes "fb_inv (cl_frameBuf c)" and "n \<le> length (Data (cl_frameBuf c))"
  shows "Data (cl_frameBuf (consume_frame n c)) = drop n (Data (cl_frameBuf c))"
    "fb_inv (cl_frameBuf (consume_frame n c))"
proof -
  have "n < 2 ^ 64" using Data_bound [OF assms(1)] assms(2) by (simp add: maxFrameSize_def)
  then show "Data (cl_frameBuf (consume_frame n c)) = drop n (Data (cl_frameBuf c))"
    using assms(1) by (simp add: consume_frame_def Data_Consume unat_of_nat64)
qed (use assms(1) in \<open>simp add: consume_frame_def Consume_inv\<close>)

lemma consume_frame_frameBuf: "consume_frame n c = c\<lparr>cl_frameBuf := cl_frameBuf (consume_frame n c)\<rparr>"
  by (simp add: consume_frame_def)

lemma receive_loop_head:
  fixes c :: Client
  defines "buf \<equiv> Data (cl_frameBuf c)"
  shows "incomplete buf \<Longrightarrow> receive_loop api now client c d = (c, d, [])"
    and "oversized buf \<Longrightarrow> receive_loop api now client c d = refuse c d"
    and "complete buf \<Longrightarrow> \<not> valid_payload api (frame_payload buf) \<Longrightarrow>
      receive_loop api now client c d =
        (case refuse c d of (c', d', outs) \<Rightarrow> (consume_frame (4 + frame_len buf) c', d', outs))"
    and "complete buf \<Longrightarrow> valid_payload api (frame_payload buf) \<Longrightarrow>
      receive_loop api now client c d =
        receive_loop api now client (consume_frame (4 + frame_len buf) c)
          (accept_payload api now client (frame_payload buf) d)"
  unfolding receive_loop.simps [of api now client c d] buf_def [symmetric]
  by (auto simp: incomplete_def oversized_def complete_def frame_len_def frame_payload_def
                 kHeaderSize_def Let_def valid_payload_def accept_payload_def split: sum.splits)

lemma receive_spec_head:
  "incomplete s \<Longrightarrow> receive_spec api now client s c d = (s, c, d, [])"
  "oversized s \<Longrightarrow> receive_spec api now client s c d = (s, refuse c d)"
  "complete s \<Longrightarrow> \<not> valid_payload api (frame_payload s) \<Longrightarrow>
     receive_spec api now client s c d = (drop (4 + frame_len s) s, refuse c d)"
  "complete s \<Longrightarrow> valid_payload api (frame_payload s) \<Longrightarrow>
     receive_spec api now client s c d =
       receive_spec api now client (drop (4 + frame_len s) s) c
         (accept_payload api now client (frame_payload s) d)"
  by (auto simp: receive_spec_def refuse_def frames_of_head split: prod.splits stream_status.splits)

lemma receive_spec_frameBuf:
  "receive_spec api now client s (c\<lparr>cl_frameBuf := fb\<rparr>) d =
    (case receive_spec api now client s c d of
       (rest, ca, da, outs) \<Rightarrow> (rest, ca\<lparr>cl_frameBuf := fb\<rparr>, da, outs))"
  by (auto simp: receive_spec_def Close_frameBuf_commute Let_def split: prod.splits stream_status.splits)

lemma client_rel_refl: "fb_inv (cl_frameBuf c) \<Longrightarrow> client_rel (Data (cl_frameBuf c)) c c"
  unfolding client_rel_def by (rule exI [of _ "cl_frameBuf c"]) simp

lemma client_rel_frameBuf [simp]: "client_rel rest (c\<lparr>cl_frameBuf := fb\<rparr>) c' \<longleftrightarrow> client_rel rest c c'"
  by (simp add: client_rel_def)

lemma client_rel_consume:
  assumes "fb_inv (cl_frameBuf c)" and "n \<le> length (Data (cl_frameBuf c))"
  shows "client_rel (drop n (Data (cl_frameBuf c))) c (consume_frame n c)"
  using Data_consume_frame [OF assms] unfolding client_rel_def
  by (intro exI [of _ "cl_frameBuf (consume_frame n c)"]) (simp add: consume_frame_def)

lemma receive_loop_refines:
  assumes "fb_inv (cl_frameBuf c)"
    and "receive_loop api now client c d = (c', d', outs)"
    and "receive_spec api now client (Data (cl_frameBuf c)) c d = (rest, ca, da, outsa)"
  shows "client_rel rest ca c' \<and> d' = da \<and> outs = outsa"
  using assms
proof (induction api now client c d arbitrary: ca rule: receive_loop.induct)
  case (1 api now client c d)
  let ?buf = "Data (cl_frameBuf c)"
  have cl: "fst (refuse c d) = fst (Client_Close c)" by (simp add: refuse_def split: prod.splits)
  show ?case
  proof (cases ?buf rule: head_cases)
    case 1
    then show ?thesis
      using "1.prems" client_rel_refl [of c] by (auto simp: receive_loop_head receive_spec_head)
  next
    case 2
    then show ?thesis
      using "1.prems" client_rel_refl [of "fst (Client_Close c)"] cl
      by (auto simp: receive_loop_head receive_spec_head)
  next
    case 3
    let ?n = "4 + frame_len ?buf"
    have n: "?n \<le> length ?buf" using 3 by (simp add: complete_def)
    show ?thesis
    proof (cases "valid_payload api (frame_payload ?buf)")
      case False
      then show ?thesis
        using "1.prems" 3 n cl client_rel_consume [of "fst (Client_Close c)" ?n]
        by (auto simp: receive_loop_head receive_spec_head split: prod.splits)
    next
      case True
      then obtain packet where p: "ParsePacket api (frame_payload ?buf) = Inr packet"
        by (cases "ParsePacket api (frame_payload ?buf)") (auto simp: valid_payload_def)
      obtain fb where fb: "consume_frame ?n c = c\<lparr>cl_frameBuf := fb\<rparr>" "fb_inv fb"
          "Data fb = drop ?n ?buf"
        using client_rel_consume [OF "1.prems"(1) n] by (auto simp: client_rel_def)
      have "receive_spec api now client (Data (cl_frameBuf (consume_frame ?n c))) (consume_frame ?n c)
          (accept_payload api now client (frame_payload ?buf) d) = (rest, ca\<lparr>cl_frameBuf := fb\<rparr>, da, outsa)"
        using "1.prems"(3) 3 True fb by (simp add: receive_spec_head receive_spec_frameBuf)
      then have "client_rel rest (ca\<lparr>cl_frameBuf := fb\<rparr>) c' \<and> d' = da \<and> outs = outsa"
        using "1.IH" [OF refl _ refl _ refl _ refl, of packet] 3 True p "1.prems"(2) fb
        by (auto simp: receive_loop_head accept_payload_def frame_payload_def frame_len_def
                       complete_def kHeaderSize_def)
      then show ?thesis by simp
    qed
  qed
qed

lemma Receive_stream:
  assumes "fb_inv (cl_frameBuf c)" and "length data < 2 ^ 64"
    and "Receive api now client data c d = (c', d', outs)"
  shows "if length (Data (cl_frameBuf c)) + length data \<le> maxFrameSize then
           case receive_spec api now client (Data (cl_frameBuf c) @ data) c d of
             (rest, ca, da, outsa) \<Rightarrow> client_rel rest ca c' \<and> d' = da \<and> outs = outsa
         else (c', d', outs) = refuse c d"
proof (cases "length (Data (cl_frameBuf c)) + length data \<le> maxFrameSize")
  case True
  obtain fb where fb: "Append data (cl_frameBuf c) = (True, fb)" "fb_inv fb"
      "Data fb = Data (cl_frameBuf c) @ data"
    using frame_buffer.append_fits [OF assms(1) True] by blast
  obtain rest ca da outsa where spec: "receive_spec api now client (Data (cl_frameBuf c) @ data) c d
      = (rest, ca, da, outsa)" by (metis prod_cases4)
  have "client_rel rest (ca\<lparr>cl_frameBuf := fb\<rparr>) c' \<and> d' = da \<and> outs = outsa"
    using assms(3) fb spec
    by (intro receive_loop_refines [of "c\<lparr>cl_frameBuf := fb\<rparr>" api now client d])
       (simp_all add: Receive_def receive_spec_frameBuf)
  then show ?thesis using True spec by simp
next
  case False
  then show ?thesis
    using frame_buffer.append_full [OF assms(1,2)] assms(3) by (simp add: Receive_def)
qed

text \<open>C2: \<open>Receive\<close> implements the abstract receiver.  The bytes left in the
  frame buffer followed by the new data are one stream; exactly the payloads of
  its complete frames are accepted, in order, up to the first refused one; the
  connection is closed exactly when a frame is refused (length over the limit
  or verification failure); the unread rest stays in the buffer; and data that
  does not fit the buffer closes the connection and leaves the buffer as it
  was.  \<open>Receive\<close> always returns (its loop is a total function).\<close>

theorem Receive_refines:
  assumes "fb_inv (cl_frameBuf c)" and "length data < 2 ^ 64"
    and "Receive api now client data c d = (c', d', outs)"
  shows "if length (Data (cl_frameBuf c)) + length data \<le> maxFrameSize then
           case receive_spec api now client (Data (cl_frameBuf c) @ data) c d of
             (rest, ca, da, outsa) \<Rightarrow> client_rel rest ca c' \<and> d' = da \<and> outs = outsa
         else (c', d', outs) = refuse c d"
  using assms by (rule Receive_stream)

text \<open>A codec of two packets, for concrete runs: byte 1 is a join request,
  byte 2 a request to leave room 7.\<close>

definition tiny_api :: PacketApi where
  "tiny_api = \<lparr>api_verify = (\<lambda>b. b = [1] \<or> b = [2]),
     api_get = (\<lambda>b. Some (if b = [1] then makeJoinRoomRequest ''ann'' 0 else makeLeaveRoomRequest 7 0)),
     api_bytes = (\<lambda>p. if pk_type p = CS_JoinRoom then [1] else [2])\<rparr>"

lemma Receive_refines_witness:
  "\<exists>c' d' outs. Receive tiny_api (\<lambda>_. 5) 3 [0, 0, 0, 1, 1, 0] Client_new
       (PacketDispatcher_new :: unit PacketDispatcher) = (c', d', outs)
     \<and> client_rel [0] Client_new c' \<and> map cmd_data (q_writeQueue (pd_commandQueue d')) = [[1]]"
proof -
  let ?data = "[0, 0, 0, 1, 1, 0] :: byte list"
  let ?d = "PacketDispatcher_new :: unit PacketDispatcher"
  have head: "frame_len ?data = 1" by (simp add: frame_len_def decode_be32_def kHeaderSize_def)
  have "frames_of (valid_payload tiny_api) ?data = ([[1]], [0], Waiting)"
    by (simp add: frames_of_good frames_of_incomplete complete_def incomplete_def frame_payload_def
        head maxFrameSize_def valid_payload_def ParsePacket_def tiny_api_def)
  then have spec: "receive_spec tiny_api (\<lambda>_. 5) 3 ?data Client_new ?d =
      ([0], Client_new, accept_payload tiny_api (\<lambda>_. 5) 3 [1] ?d, [])"
    by (simp add: receive_spec_def)
  obtain c' d' outs where r: "Receive tiny_api (\<lambda>_. 5) 3 ?data Client_new ?d = (c', d', outs)"
    by (metis prod_cases3)
  have "fb_inv (cl_frameBuf Client_new)" "Data (cl_frameBuf Client_new) = []"
    by (simp_all add: Client_new_def fb_inv_init)
  then have "client_rel [0] Client_new c'" and "d' = accept_payload tiny_api (\<lambda>_. 5) 3 [1] ?d"
    using Receive_refines [OF _ _ r] spec by (simp_all add: maxFrameSize_def)
  moreover from this have "map cmd_data (q_writeQueue (pd_commandQueue d')) = [[1]]"
    by (simp add: accept_payload_def ParsePacket_def tiny_api_def PushCommand_def notify_def
        NowInNs64_def PacketDispatcher_new_def queue_init_def Push_def)
  ultimately show ?thesis
    using r by (intro exI [of _ c'] exI [of _ d'] exI [of _ outs]) simp
qed

lemma receive_spec_append:
  assumes "frames_of (valid_payload api) s = (ps, r, Waiting)"
  shows "receive_spec api now client (s @ t) c d =
    receive_spec api now client (r @ t) c (fold (accept_payload api now client) ps d)"
  using frames_of_append [OF assms, of t]
  by (auto simp: receive_spec_def Let_def split: prod.splits stream_status.splits)

lemma frames_of_rest_length:
  "frames_of v s = (ps, r, st) \<Longrightarrow> length r \<le> length s"
proof (induction v s arbitrary: ps rule: frames_of.induct)
  case (1 v s)
  show ?case
  proof (cases s rule: head_cases)
    case 3
    show ?thesis
    proof (cases "v (frame_payload s)")
      case True
      then obtain qs where qs: "frames_of v (drop (4 + frame_len s) s) = (qs, r, st)"
        using "1.prems" 3 by (auto simp: frames_of_head split: prod.splits)
      then have "length r \<le> length (drop (4 + frame_len s) s)"
        using "1.IH" [OF _ refl _ _ refl refl] True 3
        by (auto simp: kHeaderSize_def complete_def frame_len_def frame_payload_def)
      then show ?thesis by simp
    qed (use "1.prems" 3 in \<open>auto simp: frames_of_head\<close>)
  qed (use "1.prems" in \<open>auto simp: frames_of_head\<close>)
qed



text \<open>C25: the length limit of the receiver is larger than its buffer.  A header
  announcing 65533 to 65536 payload bytes passes the check against
  \<open>maxFrameSize\<close>, but the frame with its header exceeds the 65536-byte frame
  buffer: no command is ever queued for it, the bytes only accumulate, and the
  receive that would exceed the buffer closes the connection.\<close>

theorem frame_limit_gap:
  assumes "fb_inv (cl_frameBuf c)" and "length data < 2 ^ 64"
    and "4 \<le> length (Data (cl_frameBuf c) @ data)"
    and "maxFrameSize - 4 < frame_len (Data (cl_frameBuf c) @ data)"
    and "frame_len (Data (cl_frameBuf c) @ data) \<le> maxFrameSize"
    and "Receive api now client data c d = (c', d', outs)"
  shows "if length (Data (cl_frameBuf c) @ data) \<le> maxFrameSize
         then d' = d \<and> outs = [] \<and> client_rel (Data (cl_frameBuf c) @ data) c c'
         else (c', d', outs) = refuse c d"
proof (cases "length (Data (cl_frameBuf c) @ data) \<le> maxFrameSize")
  case True
  have "incomplete (Data (cl_frameBuf c) @ data)"
    using True assms(4,5) by (simp add: incomplete_def maxFrameSize_def)
  then show ?thesis
    using Receive_stream [OF assms(1,2,6)] True by (simp add: receive_spec_head)
next
  case False
  then show ?thesis using Receive_stream [OF assms(1,2,6)] by simp
qed

lemma frame_limit_gap_witness:
  "\<exists>c' d' outs. Receive tiny_api (\<lambda>_. 5) 3 [0, 0, 255, 255] Client_new
      (PacketDispatcher_new :: unit PacketDispatcher) = (c', d', outs)
    \<and> client_rel [0, 0, 255, 255] Client_new c'"
proof -
  have n: "frame_len [0, 0, 255, 255] = 65535"
    by (simp add: frame_len_def decode_be32_def kHeaderSize_def)
  obtain c' d' outs where r: "Receive tiny_api (\<lambda>_. 5) 3 [0, 0, 255, 255] Client_new
      (PacketDispatcher_new :: unit PacketDispatcher) = (c', d', outs)" by (metis prod_cases3)
  then show ?thesis
    using frame_limit_gap [OF _ _ _ _ _ r] n
    by (auto simp: Client_new_def fb_inv_init maxFrameSize_def)
qed

section \<open>Dispatch on the logic thread\<close>

text \<open>The effect of one command on the application: the packet is read again
  and handed to the handler registered for its payload type; without one the
  client is closed.\<close>

definition dispatch_payload ::
  "PacketApi \<Rightarrow> (addr \<Rightarrow> 's \<Rightarrow> 's) \<Rightarrow> (PayloadType \<times> 's dispatch_fn) list \<Rightarrow> addr \<Rightarrow> byte list \<Rightarrow> 's \<Rightarrow> 's" where
  "dispatch_payload api close handlers client payload s =
     (case api_get api payload of
        None \<Rightarrow> s
      | Some packet \<Rightarrow> (case map_of handlers (pk_payload_type packet) of
                          None \<Rightarrow> close client s
                        | Some h \<Rightarrow> h client packet s))"

lemma notify_fields [simp]:
  "pd_handlers (notify p e d) = pd_handlers d" "pd_commandQueue (notify p e d) = pd_commandQueue d"
  "pd_callbacks (notify p e d) = pd_callbacks d" "pd_tickBatch (notify p e d) = pd_tickBatch d"
  by (simp_all add: notify_def)

lemma process_command_spec:
  assumes "process_command api now close cmd (d, s) = (d', s')"
  shows "s' = dispatch_payload api close (pd_handlers d) (cmd_client cmd) (cmd_data cmd) s
    \<and> pd_handlers d' = pd_handlers d \<and> pd_commandQueue d' = pd_commandQueue d
    \<and> pd_callbacks d' = pd_callbacks d"
  using assms
  by (auto simp: process_command_def dispatch_payload_def DispatchPacket_def NowInNs64_def Let_def
           split: option.splits if_splits prod.splits)

lemma fold_process_command:
  "fold (process_command api now close) cmds (d, s) = (d', s') \<Longrightarrow>
   s' = fold (\<lambda>cmd. dispatch_payload api close (pd_handlers d) (cmd_client cmd) (cmd_data cmd)) cmds s
   \<and> pd_handlers d' = pd_handlers d \<and> pd_commandQueue d' = pd_commandQueue d"
proof (induction cmds arbitrary: d s)
  case (Cons cmd cmds)
  obtain d1 s1 where 1: "process_command api now close cmd (d, s) = (d1, s1)" by fastforce
  show ?case using Cons.IH [of d1 s1] Cons.prems process_command_spec [OF 1] 1 by simp
qed simp

lemma Tick_commands:
  assumes "Tick api now close (d, s) = (d', s')"
  shows "s' = fold (\<lambda>cmd. dispatch_payload api close (pd_handlers d) (cmd_client cmd) (cmd_data cmd))
                (q_writeQueue (pd_commandQueue d)) s
    \<and> Empty (pd_commandQueue d') \<and> pd_handlers d' = pd_handlers d"
proof -
  let ?q = "q_writeQueue (pd_commandQueue d)"
  define d0 where "d0 = notify dcb_onQueueDrained (QueueDrained (length ?q))
      (d\<lparr>pd_commandQueue := (pd_commandQueue d)\<lparr>q_writeQueue := []\<rparr>, pd_tickBatch := ?q\<rparr>)"
  have "fold (process_command api now close) ?q (d0, s) = (d', s')"
    using assms by (simp add: Tick_def DrainTo_def d0_def)
  then show ?thesis
    using fold_process_command [of api now close ?q d0 s d' s'] by (simp add: d0_def Empty_def)
qed

text \<open>\<open>Tick\<close> handles exactly the commands queued when it starts, each once
  and in queue order, by the handler of its payload type (closing the client
  when there is none), and leaves the queue empty.\<close>

theorem Tick_in_order:
  assumes "Tick api now close (d, s) = (d', s')"
  shows "s' = fold (\<lambda>cmd. dispatch_payload api close (pd_handlers d) (cmd_client cmd) (cmd_data cmd))
                (q_writeQueue (pd_commandQueue d)) s
    \<and> Empty (pd_commandQueue d') \<and> pd_handlers d' = pd_handlers d"
  using assms by (rule Tick_commands)

lemma Tick_in_order_witness:
  "\<exists>d' s'. Tick tiny_api (\<lambda>_. 5) (\<lambda>c s. s @ [c])
      (PushCommand (\<lambda>_. 5) 4 P_NONE [1] (PacketDispatcher_new :: nat list PacketDispatcher), []) = (d', s')
    \<and> s' = [4] \<and> Empty (pd_commandQueue d')"
proof -
  let ?d = "PushCommand (\<lambda>_. 5) 4 P_NONE [1] (PacketDispatcher_new :: nat list PacketDispatcher)"
  have q: "q_writeQueue (pd_commandQueue ?d) = [\<lparr>cmd_client = 4, cmd_payloadType = P_NONE, cmd_data = [1],
      cmd_enqueuedAtNs = 5\<rparr>]" "pd_handlers ?d = []"
    by (simp_all add: PushCommand_def NowInNs64_def PacketDispatcher_new_def Push_def queue_init_def)
  obtain d' s' where t: "Tick tiny_api (\<lambda>_. 5) (\<lambda>c s. s @ [c]) (?d, []) = (d', s')" by fastforce
  have "s' = [4] \<and> Empty (pd_commandQueue d')"
    using Tick_in_order [OF t] by (simp add: q dispatch_payload_def tiny_api_def)
  then show ?thesis using t by blast
qed

lemma accept_payload_queue:
  "valid_payload api p \<Longrightarrow> \<exists>cmd. q_writeQueue (pd_commandQueue (accept_payload api now client p d)) =
     q_writeQueue (pd_commandQueue d) @ [cmd] \<and> cmd_client cmd = client \<and> cmd_data cmd = p"
  "pd_handlers (accept_payload api now client p d) = pd_handlers d"
  by (auto simp: valid_payload_def accept_payload_def PushCommand_def NowInNs64_def Push_def is_ok_def
           split: sum.splits)

lemma fold_accept_dispatch:
  "\<forall>p \<in> set ps. valid_payload api p \<Longrightarrow>
   fold (\<lambda>cmd. dispatch_payload api close hs (cmd_client cmd) (cmd_data cmd))
     (q_writeQueue (pd_commandQueue (fold (accept_payload api now client) ps d))) s =
   fold (dispatch_payload api close hs client) ps
     (fold (\<lambda>cmd. dispatch_payload api close hs (cmd_client cmd) (cmd_data cmd))
        (q_writeQueue (pd_commandQueue d)) s)
   \<and> pd_handlers (fold (accept_payload api now client) ps d) = pd_handlers d"
proof (induction ps arbitrary: d)
  case (Cons p ps)
  obtain cmd where cmd: "q_writeQueue (pd_commandQueue (accept_payload api now client p d)) =
      q_writeQueue (pd_commandQueue d) @ [cmd]" "cmd_client cmd = client" "cmd_data cmd = p"
    using accept_payload_queue(1) Cons.prems by (metis list.set_intros(1))
  show ?case
    using Cons.IH [of "accept_payload api now client p d"] Cons.prems cmd
    by (simp add: accept_payload_queue(2))
qed simp

section \<open>The queue as its observers see it\<close>

fun queue_delta :: "DispatcherEvent \<Rightarrow> int" where
  "queue_delta (QueuePushed n) = int n"
| "queue_delta (QueueDrained n) = - int n"
| "queue_delta _ = 0"

text \<open>When both callbacks are installed, the commands reported as pushed less those
  reported as drained are the commands in the queue.\<close>

definition queue_reported :: "'s PacketDispatcher \<Rightarrow> bool" where
  "queue_reported d \<longleftrightarrow> (dcb_onQueuePushed (pd_callbacks d) \<and> dcb_onQueueDrained (pd_callbacks d) \<longrightarrow>
     sum_list (map queue_delta (pd_events d)) = int (length (q_writeQueue (pd_commandQueue d))))"

lemma queue_reported_notify [simp]:
  "queue_delta e = 0 \<Longrightarrow> queue_reported (notify p e d) = queue_reported d"
  by (simp add: queue_reported_def notify_def)

lemma queue_reported_clock [simp]: "queue_reported (d\<lparr>pd_clock := t\<rparr>) = queue_reported d"
  by (simp add: queue_reported_def)

lemma queue_reported_accept: "queue_reported d \<Longrightarrow> queue_reported (accept_payload api now client p d)"
  by (auto simp: queue_reported_def accept_payload_def PushCommand_def NowInNs64_def Push_def notify_def
      split: sum.splits)

lemma queue_reported_accepts: "queue_reported d \<Longrightarrow> queue_reported (fold (accept_payload api now client) ps d)"
  by (induction ps arbitrary: d) (simp_all add: queue_reported_accept)

lemma queue_reported_Receive:
  assumes "fb_inv (cl_frameBuf c)" and "length data < 2 ^ 64"
    and "Receive api now client data c d = (c', d', outs)" and "queue_reported d"
  shows "queue_reported d'"
  using Receive_stream [OF assms(1-3)] queue_reported_accepts [OF assms(4)] assms(4)
  by (auto simp: receive_spec_def refuse_def Let_def split: prod.splits stream_status.splits if_splits)

lemma queue_reported_process:
  "process_command api now close cmd (d, s) = (d', s') \<Longrightarrow> queue_reported d' = queue_reported d"
  by (auto simp: process_command_def NowInNs64_def Let_def split: option.splits if_splits prod.splits)

lemma queue_reported_commands:
  "fold (process_command api now close) cmds (d, s) = (d', s') \<Longrightarrow> queue_reported d' = queue_reported d"
proof (induction cmds arbitrary: d s)
  case (Cons cmd cmds)
  obtain d1 s1 where 1: "process_command api now close cmd (d, s) = (d1, s1)" by fastforce
  then show ?case using Cons queue_reported_process [OF 1] by simp
qed simp

lemma queue_reported_Tick:
  assumes "Tick api now close (d, s) = (d', s')" and "queue_reported d"
  shows "queue_reported d'"
proof -
  let ?q = "q_writeQueue (pd_commandQueue d)"
  define d0 where "d0 = notify dcb_onQueueDrained (QueueDrained (length ?q))
      (d\<lparr>pd_commandQueue := (pd_commandQueue d)\<lparr>q_writeQueue := []\<rparr>, pd_tickBatch := ?q\<rparr>)"
  have "fold (process_command api now close) ?q (d0, s) = (d', s')"
    using assms(1) by (simp add: Tick_def DrainTo_def d0_def)
  moreover have "queue_reported d0"
    using assms(2) by (simp add: queue_reported_def d0_def notify_def)
  ultimately show ?thesis using queue_reported_commands [of api now close ?q d0 s d' s'] by simp
qed

text \<open>The installed callbacks stay.\<close>

lemma accepts_callbacks: "pd_callbacks (fold (accept_payload api now client) ps d) = pd_callbacks d"
proof (induction ps arbitrary: d)
  case (Cons p ps)
  have "pd_callbacks (accept_payload api now client p d) = pd_callbacks d"
    by (simp add: accept_payload_def PushCommand_def NowInNs64_def split: sum.splits)
  then show ?case using Cons.IH [of "accept_payload api now client p d"] by simp
qed simp

lemma Receive_callbacks:
  assumes "fb_inv (cl_frameBuf c)" and "length data < 2 ^ 64"
    and "Receive api now client data c d = (c', d', outs)"
  shows "pd_callbacks d' = pd_callbacks d"
  using Receive_stream [OF assms]
  by (auto simp: receive_spec_def refuse_def Let_def accepts_callbacks
      split: prod.splits stream_status.splits if_splits)

lemma Tick_callbacks:
  assumes "Tick api now close (d, s) = (d', s')"
  shows "pd_callbacks d' = pd_callbacks d"
proof -
  have *: "fold (process_command api now close) cmds (e, t) = (d', s') \<Longrightarrow> pd_callbacks d' = pd_callbacks e" for cmds e t
  proof (induction cmds arbitrary: e t)
    case (Cons cmd cmds)
    obtain e1 t1 where 1: "process_command api now close cmd (e, t) = (e1, t1)" by fastforce
    then show ?case using Cons process_command_spec [OF 1] by simp
  qed simp
  show ?thesis using assms * by (auto simp: Tick_def DrainTo_def Let_def dest!: *)
qed

section \<open>End to end\<close>

text \<open>C4: end to end, from the wire to the handlers.  When a connection with an
  empty buffer receives the frames of a sequence of packets and the logic
  thread ticks, the handlers have been applied to exactly those packets, in the
  order they were sent, for that client; nothing stays in the buffer or the
  queue and the connection stays open.\<close>

theorem packets_delivered:
  assumes "fb_inv (cl_frameBuf c)" and "Data (cl_frameBuf c) = []"
    and "Empty (pd_commandQueue d)"
    and "\<forall>pk \<in> set pks. api_reads_back api pk \<and> length (api_bytes api pk) \<le> maxFrameSize"
    and "length (concat (map (\<lambda>pk. encode_frame (api_bytes api pk)) pks)) \<le> maxFrameSize"
    and "Receive api now client (concat (map (\<lambda>pk. encode_frame (api_bytes api pk)) pks)) c d = (c', d1, outs)"
    and "Tick api now close (d1, s) = (d2, s')"
  shows "s' = fold (\<lambda>pk s. case map_of (pd_handlers d) (pk_payload_type pk) of
                         None \<Rightarrow> close client s | Some h \<Rightarrow> h client pk s) pks s
    \<and> Empty (pd_commandQueue d2) \<and> Data (cl_frameBuf c') = [] \<and> cl_socket c' = cl_socket c \<and> outs = []"
proof -
  let ?ps = "map (api_bytes api) pks"
  let ?data = "concat (map encode_frame ?ps)"
  have data: "concat (map (\<lambda>pk. encode_frame (api_bytes api pk)) pks) = ?data" by (simp add: comp_def)
  have valid: "\<forall>p \<in> set ?ps. length p \<le> maxFrameSize \<and> valid_payload api p"
    using assms(4) by (auto simp: api_reads_back_def valid_payload_def ParsePacket_def)
  have "frames_of (valid_payload api) ?data = (?ps, [], Waiting)"
    using frames_of_concat [OF valid, of "[]"] by (simp add: frames_of_incomplete incomplete_def)
  then have rel: "client_rel [] c c'" and d1: "d1 = fold (accept_payload api now client) ?ps d" "outs = []"
    using Receive_stream [OF assms(1) _ assms(6)] assms(2,5)
    by (auto simp: data receive_spec_def maxFrameSize_def)
  have "s' = fold (dispatch_payload api close (pd_handlers d) client) ?ps s"
      "Empty (pd_commandQueue d2)"
    using Tick_commands [OF assms(7)] fold_accept_dispatch [of ?ps api close "pd_handlers d" now client d s]
      valid assms(3) by (simp_all add: d1(1) Empty_def)
  moreover have "fold (dispatch_payload api close (pd_handlers d) client) ?ps s =
      fold (\<lambda>pk s. case map_of (pd_handlers d) (pk_payload_type pk) of
              None \<Rightarrow> close client s | Some h \<Rightarrow> h client pk s) pks s"
    using assms(4) unfolding fold_map
    by (intro fold_cong) (auto simp: api_reads_back_def dispatch_payload_def fun_eq_iff)
  ultimately show ?thesis using rel d1(2) by (auto simp: client_rel_def)
qed

lemma packets_delivered_witness:
  "\<exists>c' d1 d2 s'.
     Receive tiny_api (\<lambda>_. 5) 4 [0, 0, 0, 1, 1, 0, 0, 0, 1, 2] Client_new
       (RegisterHandler P_LeaveRoomRequest (\<lambda>c pk pl s. s @ [lr_room_id pl])
         (RegisterHandler P_JoinRoomRequest (\<lambda>c pk pl s. s @ [0]) PacketDispatcher_new)) = (c', d1, [])
     \<and> Tick tiny_api (\<lambda>_. 5) (\<lambda>c s. []) (d1, []) = (d2, s') \<and> s' = [0, 7]"
proof -
  let ?d = "RegisterHandler P_LeaveRoomRequest (\<lambda>c pk pl s. s @ [lr_room_id pl])
      (RegisterHandler P_JoinRoomRequest (\<lambda>c pk pl s. s @ [0]) PacketDispatcher_new)"
  let ?pks = "[makeJoinRoomRequest ''ann'' 0, makeLeaveRoomRequest 7 0]"
  have data: "concat (map (\<lambda>pk. encode_frame (api_bytes tiny_api pk)) ?pks)
      = [0, 0, 0, 1, 1, 0, 0, 0, 1, 2]"
    by (simp add: packet_factory_defs tiny_api_def encode_frame_def encode_be32_def)
  obtain c' d1 outs where r: "Receive tiny_api (\<lambda>_. 5) 4
      (concat (map (\<lambda>pk. encode_frame (api_bytes tiny_api pk)) ?pks)) Client_new ?d = (c', d1, outs)"
    by (metis prod_cases3)
  obtain d2 s' where t: "Tick tiny_api (\<lambda>_. 5) (\<lambda>c s. []) (d1, []) = (d2, s')" by fastforce
  have "\<forall>pk \<in> set ?pks. api_reads_back tiny_api pk \<and> length (api_bytes tiny_api pk) \<le> maxFrameSize"
    by (simp add: packet_factory_defs tiny_api_def api_reads_back_def maxFrameSize_def)
  then have "s' = [0, 7] \<and> outs = []"
    using packets_delivered [OF _ _ _ _ _ r t] unfolding data
    by (simp add: Client_new_def fb_inv_init maxFrameSize_def RegisterHandler_def PacketDispatcher_new_def
          Empty_def queue_init_def payload_as_def packet_factory_defs)
  then show ?thesis using r t unfolding data by blast
qed

end
