(* ===== verification/ChatHandlers.thy ===== *)
theory ChatHandlers
  imports ChatRoom Dispatcher
begin

text \<open>
  The packet handlers of the chat server (exec/chat/chat-server/chat-server/
  handlers) and their registration (SelfHandlerRegistry).  They run on the
  logic thread, on the rooms, sessions and users of the application and the
  client objects of the server.

  \<open>ch_nullDeref\<close> records that a null room was dereferenced, which is undefined
  behaviour in C++: \<open>LeaveRoomHandler\<close> does not check what \<open>GetRoom\<close> returns.
  The packet pointer a handler gets is never null, because the dispatcher has
  read the payload through it.
\<close>

record Chat =
  ch_rooms :: RoomManager
  ch_sessions :: SessionManager
  ch_users :: UserManager
  ch_nullDeref :: bool

type_synonym chat_server = "Chat ServerLifeCycle"

definition on_app :: "('a \<Rightarrow> 'a) \<Rightarrow> 'a ServerLifeCycle \<Rightarrow> 'a ServerLifeCycle" where
  "on_app f s = s\<lparr>sl_app := f (sl_app s)\<rparr>"

definition put_room :: "nat \<Rightarrow> Room \<Rightarrow> Chat \<Rightarrow> Chat" where
  "put_room i room ch = ch\<lparr>ch_rooms := (ch_rooms ch)\<lparr>mg_rooms := (mg_rooms (ch_rooms ch))[i := room]\<rparr>\<rparr>"

abbreviation room_at :: "Chat \<Rightarrow> nat \<Rightarrow> Room" where
  "room_at ch i \<equiv> mg_rooms (ch_rooms ch) ! i"

section \<open>The handlers\<close>

text \<open>\<open>JoinRoomHandler::Handle\<close> in two parts, before and after the null check of
  the new user: the worker threads may run between them.\<close>

definition join_prepare :: "addr \<Rightarrow> Payload \<Rightarrow> chat_server \<Rightarrow> (nat \<times> User option) \<times> chat_server" where
  "join_prepare client payload s =
     (case GetOrCreateAvailableRoom (ch_rooms (sl_app s)) of (i, rooms) \<Rightarrow>
      case CreateUser (sockets s) client (c_str (jr_username payload)) (rm_roomId (mg_rooms rooms ! i))
             (ch_sessions (sl_app s)) (ch_users (sl_app s)) of (newUser, users) \<Rightarrow>
        ((i, newUser), on_app (\<lambda>ch. ch\<lparr>ch_rooms := rooms, ch_users := users\<rparr>) s))"

definition join_finish :: "ChatEnv \<Rightarrow> Packet \<Rightarrow> nat \<Rightarrow> User \<Rightarrow> chat_server \<Rightarrow> chat_server" where
  "join_finish env packet i newUser s =
     (case Room_Join env (Some newUser) (room_at (sl_app s) i) s of (room, s1) \<Rightarrow>
        User_Send env (makeJoinedRoomResponse (pk_sequence packet)) newUser (on_app (put_room i room) s1))"

definition JoinRoomHandler_Handle :: "ChatEnv \<Rightarrow> addr \<Rightarrow> Packet \<Rightarrow> Payload \<Rightarrow> chat_server \<Rightarrow> chat_server" where
  "JoinRoomHandler_Handle env client packet payload s =
     (case join_prepare client payload s of
        ((i, None), s1) \<Rightarrow> s1
      | ((i, Some newUser), s1) \<Rightarrow> join_finish env packet i newUser s1)"

definition LeaveRoomHandler_Handle :: "ChatEnv \<Rightarrow> addr \<Rightarrow> Packet \<Rightarrow> Payload \<Rightarrow> chat_server \<Rightarrow> chat_server" where
  "LeaveRoomHandler_Handle env client packet payload s =
     (case GetUserByClient (sockets s) client (ch_users (sl_app s)) of
        None \<Rightarrow> s
      | Some user \<Rightarrow>
        (case GetRoom (us_roomId user) (ch_rooms (sl_app s)) of
           None \<Rightarrow> on_app (\<lambda>ch. ch\<lparr>ch_nullDeref := True\<rparr>) s
         | Some i \<Rightarrow>
           (case Room_Leave env (us_id user) (room_at (sl_app s) i) s of (room, s1) \<Rightarrow>
            let s2 = User_Send env (makeLeftRoomResponse (pk_sequence packet)) user (on_app (put_room i room) s1)
            in on_app (\<lambda>ch. ch\<lparr>ch_users := RemoveUserByUserId (us_id user) (ch_users ch)\<rparr>) s2)))"

definition ChatMessageHandler_Handle :: "ChatEnv \<Rightarrow> addr \<Rightarrow> Packet \<Rightarrow> Payload \<Rightarrow> chat_server \<Rightarrow> chat_server" where
  "ChatMessageHandler_Handle env client packet payload s =
     (case GetUserByClient (sockets s) client (ch_users (sl_app s)) of
        None \<Rightarrow> s
      | Some user \<Rightarrow>
        (case GetRoom (us_roomId user) (ch_rooms (sl_app s)) of
           None \<Rightarrow> s
         | Some i \<Rightarrow>
           BroadcastChatMessage env (ucast (us_id user)) (us_id user) (us_userName user) (sm_message payload)
             (pk_sequence packet) (room_at (sl_app s) i) s))"

section \<open>Registration\<close>

type_synonym factory = "ChatEnv \<Rightarrow> chat_server PacketDispatcher \<Rightarrow> chat_server PacketDispatcher"

record SelfHandlerRegistry =
  hr_factories :: "factory list"

definition Registry_Add :: "factory \<Rightarrow> SelfHandlerRegistry \<Rightarrow> SelfHandlerRegistry" where
  "Registry_Add fn r = r\<lparr>hr_factories := hr_factories r @ [fn]\<rparr>"

definition RegisterAll ::
  "ChatEnv \<Rightarrow> SelfHandlerRegistry \<Rightarrow> chat_server PacketDispatcher \<Rightarrow> chat_server PacketDispatcher" where
  "RegisterAll env r d = fold (\<lambda>fn. fn env) (hr_factories r) d"

definition registerSelf ::
  "PayloadType \<Rightarrow> (ChatEnv \<Rightarrow> addr \<Rightarrow> Packet \<Rightarrow> Payload \<Rightarrow> chat_server \<Rightarrow> chat_server) \<Rightarrow> bool
    \<Rightarrow> SelfHandlerRegistry \<Rightarrow> bool \<times> SelfHandlerRegistry" where
  "registerSelf key handler isEnable r =
     (if \<not> isEnable then (False, r)
      else (True, Registry_Add (\<lambda>env. RegisterHandler key (handler env)) r))"

text \<open>The static initialisers of the three handler files, in the order of the
  project file; their order is unspecified.\<close>

definition register_LeaveRoomHandler :: "SelfHandlerRegistry \<Rightarrow> bool \<times> SelfHandlerRegistry" where
  "register_LeaveRoomHandler = registerSelf P_LeaveRoomRequest LeaveRoomHandler_Handle True"

definition register_JoinRoomHandler :: "SelfHandlerRegistry \<Rightarrow> bool \<times> SelfHandlerRegistry" where
  "register_JoinRoomHandler = registerSelf P_JoinRoomRequest JoinRoomHandler_Handle True"

definition register_ChatMessageHandler :: "SelfHandlerRegistry \<Rightarrow> bool \<times> SelfHandlerRegistry" where
  "register_ChatMessageHandler = registerSelf P_SendMessageRequest ChatMessageHandler_Handle True"

definition chat_registry :: SelfHandlerRegistry where
  "chat_registry =
     snd (register_LeaveRoomHandler (snd (register_JoinRoomHandler (snd (register_ChatMessageHandler \<lparr>hr_factories = []\<rparr>)))))"

lemmas registry_defs = RegisterAll_def chat_registry_def register_LeaveRoomHandler_def register_JoinRoomHandler_def
  register_ChatMessageHandler_def registerSelf_def Registry_Add_def RegisterHandler_def

text \<open>The three register distinct keys, so whatever order the static initialisers run
  in, the dispatcher ends up with the same handler for every payload type.\<close>

lemma registration_order_irrelevant:
  assumes "mset regs = {#register_ChatMessageHandler, register_JoinRoomHandler, register_LeaveRoomHandler#}"
  shows "map_of (pd_handlers (RegisterAll env (fold (\<lambda>r s. snd (r s)) regs \<lparr>hr_factories = []\<rparr>) PacketDispatcher_new))
    = map_of (pd_handlers (RegisterAll env chat_registry PacketDispatcher_new))"
proof -
  have "length regs = 3" using arg_cong [OF assms, of size] by simp
  then obtain a b c where r: "regs = [a, b, c]" by (auto simp: numeral_3_eq_3 length_Suc_conv)
  show ?thesis
    using assms unfolding r by (auto simp: registry_defs update_conv' add_eq_conv_ex add_mset_eq_single fun_upd_twist)
qed

section \<open>Invariant\<close>

text \<open>\<open>n\<close> is the size of the client pool.\<close>

definition rooms_ok :: "RoomManager \<Rightarrow> bool" where
  "rooms_ok m \<longleftrightarrow>
     distinct (map rm_roomId (mg_rooms m))
   \<and> (\<forall>r \<in> set (mg_rooms m). rm_roomId r < ucast (mg_roomCounter m)
        \<and> length (rm_users r) \<le> max 1 (unat (mg_maxRoomCapacity m)))"

definition members :: "RoomManager \<Rightarrow> User list" where
  "members m = concat (map rm_users (mg_rooms m))"

definition users_ok :: "nat \<Rightarrow> Chat \<Rightarrow> bool" where
  "users_ok n ch \<longleftrightarrow>
     user_manager.consistent (ch_users ch)
   \<and> (\<forall>u \<in> snd ` set (um_users (ch_users ch)). ss_tcpClient (us_session u) < n
        \<and> IsRoomExist (us_roomId u) (ch_rooms ch))"

definition members_ok :: "Chat \<Rightarrow> bool" where
  "members_ok ch \<longleftrightarrow>
     distinct (map us_id (members (ch_rooms ch)))
   \<and> (\<forall>r \<in> set (mg_rooms (ch_rooms ch)). \<forall>u \<in> set (rm_users r).
        (us_id u, u) \<in> set (um_users (ch_users ch)) \<and> rm_roomId r = ucast (us_roomId u))"

definition sessions_ok :: "nat \<Rightarrow> SessionManager \<Rightarrow> bool" where
  "sessions_ok n m \<longleftrightarrow> (\<forall>ses \<in> snd ` set (sm_sessions m). ss_tcpClient ses < n)"

definition chat_inv :: "nat \<Rightarrow> Chat \<Rightarrow> bool" where
  "chat_inv n ch \<longleftrightarrow> \<not> ch_nullDeref ch \<and> rooms_ok (ch_rooms ch) \<and> users_ok n ch \<and> members_ok ch
     \<and> sessions_ok n (ch_sessions ch)"

text \<open>The user and room counters are not about to come round.\<close>

definition ids_left :: "Chat \<Rightarrow> bool" where
  "ids_left ch \<longleftrightarrow> um_userIdCounter (ch_users ch) \<noteq> - 1 \<and> mg_roomCounter (ch_rooms ch) \<noteq> - 1"

section \<open>Rooms\<close>

lemma members_append_room [simp]: "members (append_room m) = members m"
  by (simp add: members_def append_room_def Room_new_def)

lemma IsRoomExist_set: "IsRoomExist k m \<longleftrightarrow> (\<exists>r \<in> set (mg_rooms m). rm_roomId r = ucast k)"
  by (simp add: IsRoomExist_def list_ex_iff)

lemma IsRoomExist_image: "IsRoomExist k m \<longleftrightarrow> ucast k \<in> rm_roomId ` set (mg_rooms m)"
  by (auto simp: IsRoomExist_set intro: rev_image_eqI)

lemma append_room_ok:
  assumes "rooms_ok m" and "mg_roomCounter m \<noteq> - 1"
  shows "rooms_ok (append_room m)"
proof -
  have "unat (mg_roomCounter m) < unat (mg_roomCounter m + 1)" using assms(2) by (rule unat_plus_one_less)
  then show ?thesis
    using assms(1)
    by (auto simp: rooms_ok_def append_room_def Room_new_def word_less_nat_alt dest: less_trans)
       (metis less_irrefl unat_ucast_32_64)
qed

lemma room_choice_inv:
  assumes "chat_inv n ch" and "ids_left ch" and "GetOrCreateAvailableRoom (ch_rooms ch) = (i, m)"
  shows "chat_inv n (ch\<lparr>ch_rooms := m\<rparr>)" and "i < length (mg_rooms m)"
    and "length (rm_users (mg_rooms m ! i)) < max 1 (unat (mg_maxRoomCapacity m))"
    and "members m = members (ch_rooms ch)" and "mg_maxRoomCapacity m = mg_maxRoomCapacity (ch_rooms ch)"
proof -
  have "chat_inv n (ch\<lparr>ch_rooms := m\<rparr>) \<and> i < length (mg_rooms m)
    \<and> length (rm_users (mg_rooms m ! i)) < max 1 (unat (mg_maxRoomCapacity m))
    \<and> members m = members (ch_rooms ch) \<and> mg_maxRoomCapacity m = mg_maxRoomCapacity (ch_rooms ch)"
    using assms(3)
  proof (cases rule: GetOrCreateAvailableRoom_cases)
    case existing
    then show ?thesis using assms(1) by simp
  next
    case full
    have "rooms_ok m" using append_room_ok assms(1,2) full(1) by (simp add: chat_inv_def ids_left_def)
    moreover have "users_ok n (ch\<lparr>ch_rooms := m\<rparr>)" "members_ok (ch\<lparr>ch_rooms := m\<rparr>)"
      using assms(1) full(1)
      by (auto simp: chat_inv_def users_ok_def members_ok_def IsRoomExist_set append_room_def Room_new_def members_def)
    ultimately show ?thesis
      using assms(1) full(1,2) by (simp add: chat_inv_def) (simp add: append_room_def Room_new_def nth_append)
  qed
  then show "chat_inv n (ch\<lparr>ch_rooms := m\<rparr>)" and "i < length (mg_rooms m)"
    and "length (rm_users (mg_rooms m ! i)) < max 1 (unat (mg_maxRoomCapacity m))"
    and "members m = members (ch_rooms ch)" and "mg_maxRoomCapacity m = mg_maxRoomCapacity (ch_rooms ch)" by auto
qed

text \<open>A new user, not yet in a room.\<close>

lemma add_user_inv:
  assumes "chat_inv n ch" and "um_userIdCounter (ch_users ch) \<noteq> - 1"
    and "i < length (mg_rooms (ch_rooms ch))" and "ss_tcpClient ses < n"
    and "add_user ses name (rm_roomId (room_at ch i)) (ch_users ch) = (u, um)"
  shows "chat_inv n (ch\<lparr>ch_users := um\<rparr>)" and "(us_id u, u) \<in> set (um_users um)"
    and "rm_roomId (room_at ch i) = ucast (us_roomId u)" and "us_id u \<notin> us_id ` set (members (ch_rooms ch))"
    and "us_session u = ses" and "us_userName u = name"
proof -
  have c: "user_manager.consistent (ch_users ch)" using assms(1) by (simp add: chat_inv_def users_ok_def)
  have u: "(\<lambda>(ses, name, rid) m. add_user ses name rid m) (ses, name, rm_roomId (room_at ch i)) (ch_users ch) = (u, um)"
    using assms(5) by simp
  note um = user_manager.create_appends [OF c u] user_manager.create_consistent [OF c u assms(2)]
    user_manager.create_id [OF u] user_manager.fresh [OF c]
  have "rm_roomId (room_at ch i) < ucast (mg_roomCounter (ch_rooms ch))"
    using assms(1,3) by (simp add: chat_inv_def rooms_ok_def)
  then have "unat (rm_roomId (room_at ch i)) < 2 ^ 32"
    using unat_lt32 [of "mg_roomCounter (ch_rooms ch)"] by (simp add: word_less_nat_alt)
  then show rid: "rm_roomId (room_at ch i) = ucast (us_roomId u)"
    using assms(5) by (auto simp: add_user_def Let_def ucast_ucast_small)
  show s: "us_session u = ses" "us_userName u = name" using assms(5) by (auto simp: add_user_def Let_def)
  show "(us_id u, u) \<in> set (um_users um)" using um(1) by simp
  have "IsRoomExist (us_roomId u) (ch_rooms ch)" using rid assms(3) nth_mem by (force simp: IsRoomExist_set)
  then show "chat_inv n (ch\<lparr>ch_users := um\<rparr>)"
    using assms(1,4) um(1,2) s(1) by (auto simp: chat_inv_def users_ok_def members_ok_def)
  show "us_id u \<notin> us_id ` set (members (ch_rooms ch))"
    using um(3,4) assms(1) by (force simp: chat_inv_def members_ok_def members_def map_of_eq_None_keys keys_def)
qed

lemma ids_concat_update:
  "i < length rs \<Longrightarrow> mset (map us_id (concat (map rm_users (rs[i := (rs ! i)\<lparr>rm_users := rm_users (rs ! i) @ [u]\<rparr>]))))
    = add_mset (us_id u) (mset (map us_id (concat (map rm_users rs))))"
proof (induction rs arbitrary: i)
  case (Cons r rs)
  then show ?case by (cases i) simp_all
qed simp

lemma join_inv:
  assumes "chat_inv n ch" and "i < length (mg_rooms (ch_rooms ch))" and "(us_id u, u) \<in> set (um_users (ch_users ch))"
    and "rm_roomId (room_at ch i) = ucast (us_roomId u)" and "us_id u \<notin> us_id ` set (members (ch_rooms ch))"
    and "length (rm_users (room_at ch i)) < max 1 (unat (mg_maxRoomCapacity (ch_rooms ch)))"
  shows "chat_inv n (put_room i ((room_at ch i)\<lparr>rm_users := rm_users (room_at ch i) @ [u]\<rparr>) ch)"
proof -
  let ?rs = "mg_rooms (ch_rooms ch)" and ?r = "(room_at ch i)\<lparr>rm_users := rm_users (room_at ch i) @ [u]\<rparr>"
  have ids: "map rm_roomId (?rs[i := ?r]) = map rm_roomId ?rs"
    by (simp add: map_update) (metis list_update_id map_update)
  have sub: "set (?rs[i := ?r]) \<subseteq> insert ?r (set ?rs)" by (rule set_update_subset_insert)
  have old: "room_at ch i \<in> set ?rs" using assms(2) by simp
  have "rooms_ok (ch_rooms (put_room i ?r ch))"
    using assms(1,6) sub ids old by (fastforce simp: chat_inv_def rooms_ok_def put_room_def)
  moreover have "rm_roomId ` set (?rs[i := ?r]) = rm_roomId ` set ?rs"
    using ids by (metis list.set_map)
  then have "IsRoomExist k (ch_rooms (put_room i ?r ch)) = IsRoomExist k (ch_rooms ch)" for k
    by (simp add: IsRoomExist_image put_room_def)
  then have "users_ok n (put_room i ?r ch)" using assms(1) by (auto simp: chat_inv_def users_ok_def put_room_def)
  moreover have "distinct (map us_id (members (ch_rooms (put_room i ?r ch))))"
  proof -
    have "mset (map us_id (concat (map rm_users (?rs[i := ?r])))) = mset (us_id u # map us_id (concat (map rm_users ?rs)))"
      using ids_concat_update [OF assms(2)] by simp
    then have "distinct (map us_id (concat (map rm_users (?rs[i := ?r])))) =
        distinct (us_id u # map us_id (concat (map rm_users ?rs)))" by (rule mset_eq_imp_distinct_iff)
    then show ?thesis
      using assms(1,5) by (simp add: chat_inv_def members_ok_def members_def put_room_def image_image)
  qed
  moreover have "\<forall>r \<in> set (?rs[i := ?r]). \<forall>v \<in> set (rm_users r).
      (us_id v, v) \<in> set (um_users (ch_users ch)) \<and> rm_roomId r = ucast (us_roomId v)"
  proof (intro ballI)
    fix r v assume r: "r \<in> set (?rs[i := ?r])" and v: "v \<in> set (rm_users r)"
    have ok: "\<forall>r \<in> set ?rs. \<forall>v \<in> set (rm_users r).
        (us_id v, v) \<in> set (um_users (ch_users ch)) \<and> rm_roomId r = ucast (us_roomId v)"
      using assms(1) by (simp add: chat_inv_def members_ok_def)
    show "(us_id v, v) \<in> set (um_users (ch_users ch)) \<and> rm_roomId r = ucast (us_roomId v)"
    proof (cases "r = ?r")
      case True
      then show ?thesis using v assms(3,4) bspec [OF ok old] by auto
    next
      case False
      then show ?thesis using r v sub ok by blast
    qed
  qed
  ultimately show ?thesis
    using assms(1) by (simp add: chat_inv_def members_ok_def put_room_def)
qed

text \<open>Removing members, by whatever condition.\<close>

definition shrunk :: "Room \<Rightarrow> Room \<Rightarrow> bool" where
  "shrunk r r' \<longleftrightarrow> rm_roomId r' = rm_roomId r \<and> (\<exists>P. rm_users r' = filter P (rm_users r))"

lemma shrunk_simps [simp]: "shrunk r r" "shrunk r (Kick k r)" "shrunk r (KickByDisconnected sock i r)"
  unfolding shrunk_def Kick_def KickByDisconnected_def
  by (auto intro: exI [of _ "\<lambda>_. True"])

lemma shrunk_ids:
  "list_all2 shrunk rs rs' \<Longrightarrow> map rm_roomId rs' = map rm_roomId rs"
  by (induction rule: list_all2_induct) (simp_all add: shrunk_def)

lemma shrunk_member:
  "list_all2 shrunk rs rs' \<Longrightarrow> r' \<in> set rs' \<Longrightarrow> \<exists>r \<in> set rs. shrunk r r'"
  by (metis in_set_conv_nth list_all2_conv_all_nth)

lemma shrunk_distinct:
  "list_all2 shrunk rs rs' \<Longrightarrow> distinct (map us_id (concat (map rm_users rs))) \<Longrightarrow>
    distinct (map us_id (concat (map rm_users rs'))) \<and> set (concat (map rm_users rs')) \<subseteq> set (concat (map rm_users rs))"
proof (induction rule: list_all2_induct)
  case (Cons r rs r' rs')
  obtain P where "rm_users r' = filter P (rm_users r)" using Cons.hyps(1) by (auto simp: shrunk_def)
  then have r': "set (rm_users r') \<subseteq> set (rm_users r)" "distinct (map us_id (rm_users r'))"
    using Cons.prems by (auto intro: distinct_map_filter)
  have "us_id ` set (rm_users r') \<inter> us_id ` set (concat (map rm_users rs')) = {}"
    using Cons.prems r'(1) Cons.IH by (simp, blast)
  then show ?case using Cons.IH Cons.prems r' by auto
qed simp

lemma shrink_inv:
  assumes "chat_inv n ch" and "list_all2 shrunk (mg_rooms (ch_rooms ch)) rs"
  shows "chat_inv n (ch\<lparr>ch_rooms := (ch_rooms ch)\<lparr>mg_rooms := rs\<rparr>\<rparr>)"
proof -
  have ids: "map rm_roomId rs = map rm_roomId (mg_rooms (ch_rooms ch))" by (rule shrunk_ids [OF assms(2)])
  have idset: "rm_roomId ` set rs = rm_roomId ` set (mg_rooms (ch_rooms ch))" using ids by (metis list.set_map)
  have sub: "\<exists>r \<in> set (mg_rooms (ch_rooms ch)). rm_roomId r' = rm_roomId r \<and> set (rm_users r') \<subseteq> set (rm_users r)
      \<and> length (rm_users r') \<le> length (rm_users r)" if "r' \<in> set rs" for r'
    using shrunk_member [OF assms(2) that] by (auto simp: shrunk_def)
  have "rooms_ok ((ch_rooms ch)\<lparr>mg_rooms := rs\<rparr>)"
    using assms(1) ids sub by (fastforce simp: chat_inv_def rooms_ok_def)
  moreover have "IsRoomExist k ((ch_rooms ch)\<lparr>mg_rooms := rs\<rparr>) = IsRoomExist k (ch_rooms ch)" for k
    using idset by (simp add: IsRoomExist_image)
  moreover have "distinct (map us_id (concat (map rm_users rs)))"
    using shrunk_distinct [OF assms(2)] assms(1) by (simp add: chat_inv_def members_ok_def members_def)
  moreover have "\<forall>r \<in> set rs. \<forall>u \<in> set (rm_users r).
      (us_id u, u) \<in> set (um_users (ch_users ch)) \<and> rm_roomId r = ucast (us_roomId u)"
    using assms(1) sub by (fastforce simp: chat_inv_def members_ok_def)
  ultimately show ?thesis
    using assms(1) by (simp add: chat_inv_def users_ok_def members_ok_def members_def)
qed

section \<open>What the handlers do\<close>

lemma find_snd_member:
  assumes "map_option snd (find P xs) = Some v"
  shows "\<exists>k. (k, v) \<in> set xs \<and> P (k, v)"
proof -
  obtain k where "find P xs = Some (k, v)" using assms by auto
  then show ?thesis unfolding find_Some_iff by (metis nth_mem)
qed

lemma GetSessionByClient_member:
  "GetSessionByClient sock client m = Some ses \<Longrightarrow> ses \<in> snd ` set (sm_sessions m) \<and> IsSameSession sock client ses"
  unfolding GetSessionByClient_def by (drule find_snd_member) (auto intro: rev_image_eqI)

lemma GetUserByClient_member:
  "GetUserByClient sock client m = Some u \<Longrightarrow> (\<exists>k. (k, u) \<in> set (um_users m)) \<and> IsSameClient sock client u"
  unfolding GetUserByClient_def by (drule find_snd_member) auto

lemma GetUserByClient_None:
  "GetUserByClient sock client m = None \<longleftrightarrow> (\<forall>u \<in> snd ` set (um_users m). \<not> IsSameClient sock client u)"
  by (force simp: GetUserByClient_def find_None_iff)

lemma on_app_simps [simp]:
  "sl_app (on_app f s) = f (sl_app s)" "sockets (on_app f s) = sockets s" "sl_events (on_app f s) = sl_events s"
  "sl_clientPool (on_app f s) = sl_clientPool s" "sl_acceptor (on_app f s) = sl_acceptor s"
  "sl_callbacks (on_app f s) = sl_callbacks s"
  "lifecycle_inv (on_app f s) = lifecycle_inv s" "in_pool (on_app f s) = in_pool s"
  by (simp_all add: on_app_def sockets_def lifecycle_inv_def reports_exact_def reports_connections_def
      in_pool_def fun_eq_iff)

text \<open>The server around the application: sockets, acceptor and pool size stay, and
  the pool stays consistent.\<close>

definition same_server :: "'a ServerLifeCycle \<Rightarrow> 'a ServerLifeCycle \<Rightarrow> bool" where
  "same_server s s' \<longleftrightarrow> sockets s' = sockets s \<and> sl_acceptor s' = sl_acceptor s \<and> sl_callbacks s' = sl_callbacks s
     \<and> length (sl_clientPool s') = length (sl_clientPool s) \<and> (lifecycle_inv s \<longrightarrow> lifecycle_inv s')"

lemma same_server_simps [simp]: "same_server s s" "same_server s (on_app f s)"
  by (simp_all add: same_server_def)

lemma quiet_same_server: "quiet s s' \<Longrightarrow> same_server s s'"
  by (simp add: quiet_def same_server_def)

lemma same_server_trans: "same_server a b \<Longrightarrow> same_server b c \<Longrightarrow> same_server a c"
  by (simp add: same_server_def)

lemma members_in_pool:
  assumes "chat_inv (length (sl_clientPool s)) ch" and "i < length (mg_rooms (ch_rooms ch))"
  shows "\<forall>u \<in> set (rm_users (room_at ch i)). in_pool s u"
proof
  fix u assume u: "u \<in> set (rm_users (room_at ch i))"
  have "room_at ch i \<in> set (mg_rooms (ch_rooms ch))" using assms(2) by simp
  then have "(us_id u, u) \<in> set (um_users (ch_users ch))"
    using assms(1) u unfolding chat_inv_def members_ok_def by blast
  then show "in_pool s u" using assms(1) by (force simp: chat_inv_def users_ok_def in_pool_def)
qed

lemma room_ids_distinct:
  assumes "chat_inv n ch" and "i < length (mg_rooms (ch_rooms ch))"
  shows "distinct (map us_id (rm_users (room_at ch i)))"
proof -
  have d: "distinct (map us_id (concat (map rm_users (mg_rooms (ch_rooms ch)))))"
    using assms(1) by (simp add: chat_inv_def members_ok_def members_def)
  have "distinct (map us_id (concat (map rm_users rs))) \<Longrightarrow> r \<in> set rs \<Longrightarrow> distinct (map us_id (rm_users r))" for r rs
    by (induction rs) auto
  then show ?thesis using d assms(2) nth_mem by blast
qed

lemma join_prepare_refused:
  assumes "join_prepare client payload s = ((i, None), s')"
  shows "ch_users (sl_app s') = ch_users (sl_app s) \<and> sl_events s' = sl_events s \<and> same_server s s'
    \<and> ch_rooms (sl_app s') = snd (GetOrCreateAvailableRoom (ch_rooms (sl_app s)))
    \<and> sl_app s' = (sl_app s)\<lparr>ch_rooms := ch_rooms (sl_app s')\<rparr>"
  using assms by (auto simp: join_prepare_def CreateUser_def split: prod.splits option.splits)

lemma join_prepare_admitted:
  fixes s :: chat_server
  defines "n \<equiv> length (sl_clientPool s)" and "ch \<equiv> sl_app s"
  assumes "chat_inv n ch" and "ids_left ch" and "join_prepare client payload s = ((i, Some u), s')"
  shows "chat_inv n (sl_app s')" and "i < length (mg_rooms (ch_rooms (sl_app s')))"
    and "(us_id u, u) \<in> set (um_users (ch_users (sl_app s')))" and "in_pool s u"
    and "rm_roomId (room_at (sl_app s') i) = ucast (us_roomId u)"
    and "us_id u \<notin> us_id ` set (members (ch_rooms (sl_app s')))"
    and "length (rm_users (room_at (sl_app s') i)) < max 1 (unat (mg_maxRoomCapacity (ch_rooms (sl_app s'))))"
    and "us_userName u = c_str (jr_username payload)"
    and "um_users (ch_users (sl_app s')) = um_users (ch_users ch) @ [(us_id u, u)]"
    and "IsSameClient (sockets s) client u"
    and "GetOrCreateAvailableRoom (ch_rooms ch) = (i, ch_rooms (sl_app s'))"
    and "sl_events s' = sl_events s" and "same_server s s'"
proof -
  obtain rooms where r: "GetOrCreateAvailableRoom (ch_rooms ch) = (i, rooms)"
    using assms(5) by (auto simp: join_prepare_def ch_def split: prod.splits)
  define ch1 where "ch1 = ch\<lparr>ch_rooms := rooms\<rparr>"
  obtain ses um where ses: "GetSessionByClient (sockets s) client (ch_sessions ch) = Some ses"
    and add: "add_user ses (c_str (jr_username payload)) (rm_roomId (room_at ch1 i)) (ch_users ch1) = (u, um)"
    and s': "s' = on_app (\<lambda>ch. ch\<lparr>ch_rooms := rooms, ch_users := um\<rparr>) s"
    using assms(5) r by (auto simp: join_prepare_def CreateUser_def ch_def ch1_def split: prod.splits option.splits)
  note rc = room_choice_inv [OF assms(3,4) r, folded ch1_def]
  have c: "user_manager.consistent (ch_users ch)" "um_userIdCounter (ch_users ch) \<noteq> - 1"
    using assms(3,4) by (simp_all add: chat_inv_def users_ok_def ids_left_def)
  have sn: "ss_tcpClient ses < n" "IsSameSession (sockets s) client ses"
    using GetSessionByClient_member [OF ses] assms(3) by (auto simp: chat_inv_def sessions_ok_def)
  have i: "i < length (mg_rooms (ch_rooms ch1))" using rc(2) by (simp add: ch1_def)
  note au = add_user_inv [OF rc(1) _ i sn(1) add]
  have app: "sl_app s' = ch1\<lparr>ch_users := um\<rparr>" by (simp add: s' ch1_def ch_def)
  show "chat_inv n (sl_app s')" "i < length (mg_rooms (ch_rooms (sl_app s')))"
    "(us_id u, u) \<in> set (um_users (ch_users (sl_app s')))" "in_pool s u"
    "rm_roomId (room_at (sl_app s') i) = ucast (us_roomId u)"
    "us_id u \<notin> us_id ` set (members (ch_rooms (sl_app s')))"
    "us_userName u = c_str (jr_username payload)"
    "GetOrCreateAvailableRoom (ch_rooms ch) = (i, ch_rooms (sl_app s'))"
    "sl_events s' = sl_events s" "same_server s s'" "IsSameClient (sockets s) client u"
    using au c(2) i sn r by (simp_all add: app in_pool_def n_def IsSameClient_def) (simp_all add: s' ch1_def)
  show "length (rm_users (room_at (sl_app s') i)) < max 1 (unat (mg_maxRoomCapacity (ch_rooms (sl_app s'))))"
    using rc(3) by (simp add: app ch1_def)
  show "um_users (ch_users (sl_app s')) = um_users (ch_users ch) @ [(us_id u, u)]"
    using user_manager.create_appends [OF c(1), of "(ses, c_str (jr_username payload), rm_roomId (room_at ch1 i))"] add
    by (simp add: app ch1_def)
qed

lemma join_finish_effect:
  assumes "chat_inv (length (sl_clientPool s)) (sl_app s)" and "i < length (mg_rooms (ch_rooms (sl_app s)))"
    and "in_pool s u"
  shows "sl_app (join_finish env packet i u s)
      = put_room i ((room_at (sl_app s) i)\<lparr>rm_users := rm_users (room_at (sl_app s) i) @ [u]\<rparr>) (sl_app s)"
    and "same_server s (join_finish env packet i u s)"
    and "deliveries (sl_events (join_finish env packet i u s)) = deliveries (sl_events s)
      @ deliveries_to env (makeUserJoinedBroadcast (ucast (rm_roomId (room_at (sl_app s) i))) (us_id u) (us_userName u) Online 0)
          (sockets s) (rm_users (room_at (sl_app s) i))
      @ deliveries_to env (makeJoinedRoomResponse (pk_sequence packet)) (sockets s) [u]"
proof -
  obtain room s1 where j: "Room_Join env (Some u) (room_at (sl_app s) i) s = (room, s1)" by fastforce
  note je = Room_Join_effect [OF members_in_pool [OF assms(1,2)] j]
  let ?s2 = "on_app (put_room i room) s1"
  have pool: "in_pool ?s2 u" using assms(3) je(2) by (simp add: in_pool_def quiet_def)
  note se = User_Send_effect [OF pool, of env "makeJoinedRoomResponse (pk_sequence packet)"]
  have eq: "join_finish env packet i u s = User_Send env (makeJoinedRoomResponse (pk_sequence packet)) u ?s2"
    by (simp add: join_finish_def j)
  show "sl_app (join_finish env packet i u s)
      = put_room i ((room_at (sl_app s) i)\<lparr>rm_users := rm_users (room_at (sl_app s) i) @ [u]\<rparr>) (sl_app s)"
    using se(1) je(1,2) by (simp add: eq quiet_def)
  show "same_server s (join_finish env packet i u s)"
    unfolding eq
    by (rule same_server_trans [OF same_server_trans [OF quiet_same_server [OF je(2)] same_server_simps(2)]
          quiet_same_server [OF se(1)]])
  show "deliveries (sl_events (join_finish env packet i u s)) = deliveries (sl_events s)
      @ deliveries_to env (makeUserJoinedBroadcast (ucast (rm_roomId (room_at (sl_app s) i))) (us_id u) (us_userName u) Online 0)
          (sockets s) (rm_users (room_at (sl_app s) i))
      @ deliveries_to env (makeJoinedRoomResponse (pk_sequence packet)) (sockets s) [u]"
    using se(2) je(2,3) by (simp add: eq quiet_def)
qed

text \<open>Join, whatever the outcome, keeps the application and the pool consistent.\<close>

lemma JoinRoomHandler_inv [inv_intros]:
  assumes "chat_inv (length (sl_clientPool s)) (sl_app s)" and "ids_left (sl_app s)"
  shows "chat_inv (length (sl_clientPool s)) (sl_app (JoinRoomHandler_Handle env client packet payload s))
    \<and> same_server s (JoinRoomHandler_Handle env client packet payload s)"
proof -
  obtain i w s1 where p: "join_prepare client payload s = ((i, w), s1)" by (metis prod.exhaust)
  show ?thesis
  proof (cases w)
    case None
    note r = join_prepare_refused [OF p [unfolded None]]
    have "chat_inv (length (sl_clientPool s)) (sl_app s1)"
      using r room_choice_inv(1) [OF assms, of "fst (GetOrCreateAvailableRoom (ch_rooms (sl_app s)))" "ch_rooms (sl_app s1)"]
      by (metis prod.collapse)
    then show ?thesis using r p None by (simp add: JoinRoomHandler_Handle_def)
  next
    case (Some u)
    note a = join_prepare_admitted [OF assms p [unfolded Some]]
    have len: "length (sl_clientPool s1) = length (sl_clientPool s)" using a(13) by (simp add: same_server_def)
    have pool: "in_pool s1 u" using a(4) len by (simp add: in_pool_def)
    note f = join_finish_effect [OF a(1) [folded len] a(2) pool, of env packet]
    have "chat_inv (length (sl_clientPool s)) (sl_app (join_finish env packet i u s1))"
      unfolding f(1) by (rule join_inv [OF a(1,2,3,5,6,7)])
    then show ?thesis
      using same_server_trans [OF a(13) f(2)] p Some by (simp add: JoinRoomHandler_Handle_def)
  qed
qed

text \<open>A small server for the witnesses: two connected clients with sessions, one
  room, and (with \<open>us\<close>) the users already registered in it.\<close>

definition demo_env :: ChatEnv where
  "demo_env = \<lparr>cv_api = tiny_api, cv_wsaSend = (\<lambda>_. (0, ERROR_IO_PENDING)), cv_clock = (\<lambda>_. (0, 0))\<rparr>"

definition demo_user :: User where
  "demo_user = \<lparr>us_session = \<lparr>ss_tcpClient = 0, ss_sessionId = 0\<rparr>, us_id = 0, us_userName = ''ann'', us_roomId = 0\<rparr>"

definition demo_packet :: Packet where
  "demo_packet = makeLeaveRoomRequest 0 7"

definition demo_chat :: "User list \<Rightarrow> Chat" where
  "demo_chat us =
     \<lparr>ch_rooms = \<lparr>mg_rooms = [\<lparr>rm_users = us, rm_roomId = 0\<rparr>], mg_roomCounter = 1, mg_maxRoomCapacity = 2\<rparr>,
      ch_sessions = \<lparr>sm_sessionCounter = 2, sm_sessions = [(0, \<lparr>ss_tcpClient = 0, ss_sessionId = 0\<rparr>),
                                                           (1, \<lparr>ss_tcpClient = 1, ss_sessionId = 1\<rparr>)]\<rparr>,
      ch_users = \<lparr>um_userIdCounter = of_nat (length us), um_users = map (\<lambda>u. (us_id u, u)) us\<rparr>,
      ch_nullDeref = False\<rparr>"

definition demo_server :: "User list \<Rightarrow> chat_server" where
  "demo_server us = (idle_server (demo_chat us))\<lparr>sl_clientPool :=
     map (\<lambda>h. (Client_UseCallbacks BuildClientCallbacks Client_new)\<lparr>cl_socket := h\<rparr>) [21, 22]\<rparr>"

lemma demo_server_fields [simp]:
  "sl_app (demo_server us) = demo_chat us" "length (sl_clientPool (demo_server us)) = 2"
  "sockets (demo_server us) 0 = 21" "sockets (demo_server us) (Suc 0) = 22"
  by (simp_all add: demo_server_def sockets_def idle_server_def)

lemma demo_chat_inv: "chat_inv 2 (demo_chat [])" "chat_inv 2 (demo_chat [demo_user])"
  by (simp_all add: chat_inv_def rooms_ok_def users_ok_def members_ok_def sessions_ok_def demo_chat_def members_def
      user_manager.consistent_def ids_ok_def IsRoomExist_def demo_user_def)

lemma demo_lookup:
  "GetSessionByClient (sockets (demo_server us)) 0 (ch_sessions (demo_chat us)) = Some \<lparr>ss_tcpClient = 0, ss_sessionId = 0\<rparr>"
  "GetUserByClient (sockets (demo_server [])) 0 (ch_users (demo_chat [])) = None"
  "GetUserByClient (sockets (demo_server [demo_user])) 0 (ch_users (demo_chat [demo_user])) = Some demo_user"
  "GetOrCreateAvailableRoom (ch_rooms (demo_chat [])) = (0, ch_rooms (demo_chat []))"
  by (simp_all add: GetSessionByClient_def GetUserByClient_def IsSameClient_def IsSameSession_def demo_chat_def
      demo_user_def GetOrCreateAvailableRoom_def Room_GetUserCount_def)

lemma demo_ids_left: "ids_left (demo_chat us) \<longleftrightarrow> of_nat (length us) \<noteq> (- 1 :: uint64)"
  by (simp add: ids_left_def demo_chat_def)

text \<open>C6: a join request from a client that has a session and no user is
  admitted.  One user is registered under the next id, with the requested name;
  it is appended to exactly one room, the first one with a free place or a new
  one, and no room ever exceeds the capacity; the members that were in the room
  are told, in order, and then the new user gets the response with the sequence
  number of its request.  Nothing else is sent.\<close>

theorem JoinRoom_admits:
  fixes s :: chat_server
  defines "ch \<equiv> sl_app s"
  assumes "chat_inv (length (sl_clientPool s)) ch" and "ids_left ch"
    and "GetSessionByClient (sockets s) client (ch_sessions ch) = Some ses"
    and "GetUserByClient (sockets s) client (ch_users ch) = None"
    and "JoinRoomHandler_Handle env client packet (JoinRoomRequest name) s = s'"
    and "GetOrCreateAvailableRoom (ch_rooms ch) = (i, rooms)"
  shows "\<exists>u. us_session u = ses \<and> us_id u = um_userIdCounter (ch_users ch) \<and> us_userName u = c_str name
    \<and> um_users (ch_users (sl_app s')) = um_users (ch_users ch) @ [(us_id u, u)]
    \<and> mg_rooms (ch_rooms (sl_app s')) = (mg_rooms rooms)[i := (mg_rooms rooms ! i)\<lparr>rm_users := rm_users (mg_rooms rooms ! i) @ [u]\<rparr>]
    \<and> (\<forall>r \<in> set (mg_rooms (ch_rooms (sl_app s'))). length (rm_users r) \<le> max 1 (unat (mg_maxRoomCapacity (ch_rooms ch))))
    \<and> deliveries (sl_events s') = deliveries (sl_events s)
        @ deliveries_to env (makeUserJoinedBroadcast (us_roomId u) (us_id u) (c_str name) Online 0)
            (sockets s) (rm_users (mg_rooms rooms ! i))
        @ deliveries_to env (makeJoinedRoomResponse (pk_sequence packet)) (sockets s) [u]"
proof -
  obtain w s1 where p: "join_prepare client (JoinRoomRequest name) s = ((i, w), s1)"
    using assms(7)
    by (cases "CreateUser (sockets s) client (c_str name) (rm_roomId (mg_rooms rooms ! i)) (ch_sessions ch) (ch_users ch)")
       (auto simp: join_prepare_def ch_def)
  then obtain u where w: "w = Some u" and u: "us_session u = ses" "us_id u = um_userIdCounter (ch_users ch)"
    using assms(4,5,7) by (auto simp: join_prepare_def ch_def CreateUser_def add_user_def Let_def)
  note a = join_prepare_admitted [OF assms(2,3) [unfolded ch_def] p [unfolded w]]
  have len: "length (sl_clientPool s1) = length (sl_clientPool s)" and sock: "sockets s1 = sockets s"
    using a(13) by (simp_all add: same_server_def)
  have pool: "in_pool s1 u" using a(4) len by (simp add: in_pool_def)
  note f = join_finish_effect [OF a(1) [folded len] a(2) pool, of env packet]
  have s': "s' = join_finish env packet i u s1" using assms(6) p w by (simp add: JoinRoomHandler_Handle_def)
  have rooms: "ch_rooms (sl_app s1) = rooms" using a(11) assms(7) by (simp add: ch_def)
  have "rooms_ok (ch_rooms (sl_app s'))"
    using join_inv [OF a(1,2,3,5,6,7)] by (simp add: s' f(1) chat_inv_def)
  moreover have "mg_maxRoomCapacity (ch_rooms (sl_app s')) = mg_maxRoomCapacity (ch_rooms ch)"
    using room_choice_inv(5) [OF assms(2,3,7)] by (simp add: s' f(1) put_room_def rooms)
  ultimately have cap: "\<forall>r \<in> set (mg_rooms (ch_rooms (sl_app s'))).
      length (rm_users r) \<le> max 1 (unat (mg_maxRoomCapacity (ch_rooms ch)))"
    by (simp add: rooms_ok_def)
  have rid: "(ucast (rm_roomId (mg_rooms rooms ! i)) :: uint32) = us_roomId u"
    using a(5) by (simp add: rooms)
  show ?thesis
    using u a(8,9,12) f(3) cap by (intro exI [of _ u]) (simp add: s' f(1) put_room_def rooms sock rid ch_def)
qed

lemma JoinRoom_admits_witness:
  "\<exists>u. us_userName u = ''bob'' \<and>
     um_users (ch_users (sl_app (JoinRoomHandler_Handle demo_env 0 demo_packet (JoinRoomRequest ''bob'') (demo_server []))))
       = [(us_id u, u)]"
proof -
  have "ids_left (demo_chat [])" by (simp add: demo_ids_left)
  then obtain u where "us_userName u = c_str ''bob''"
    "um_users (ch_users (sl_app (JoinRoomHandler_Handle demo_env 0 demo_packet (JoinRoomRequest ''bob'') (demo_server []))))
       = um_users (ch_users (demo_chat [])) @ [(us_id u, u)]"
    using JoinRoom_admits [of "demo_server []" 0 _ demo_env demo_packet "''bob''", OF _ _ _ _ refl]
      demo_chat_inv(1) demo_lookup by fastforce
  then show ?thesis by (simp add: demo_chat_def c_str_def)
qed

text \<open>Leaving.  The user's room is found because rooms are never destroyed while
  they have users, and it is the only one the user can be in.\<close>

lemma user_room:
  assumes "chat_inv n ch" and "(k, u) \<in> set (um_users (ch_users ch))"
  obtains i where "GetRoom (us_roomId u) (ch_rooms ch) = Some i" "i < length (mg_rooms (ch_rooms ch))"
    "rm_roomId (room_at ch i) = ucast (us_roomId u)" "us_id u = k"
    "\<forall>j < length (mg_rooms (ch_rooms ch)). j \<noteq> i \<longrightarrow> k \<notin> us_id ` set (rm_users (room_at ch j))"
proof -
  have "IsRoomExist (us_roomId u) (ch_rooms ch)" using assms by (force simp: chat_inv_def users_ok_def)
  then obtain i where g: "GetRoom (us_roomId u) (ch_rooms ch) = Some i" using GetRoom_None by (metis not_None_eq)
  note i = GetRoom_Some [OF g]
  have con: "user_manager.consistent (ch_users ch)" using assms(1) by (simp add: chat_inv_def users_ok_def)
  then have k: "us_id u = k" "distinct (keys (um_users (ch_users ch)))"
    using assms(2) by (auto simp: user_manager.consistent_def ids_ok_def)
  have "k \<notin> us_id ` set (rm_users (room_at ch j))" if "j < length (mg_rooms (ch_rooms ch))" "j \<noteq> i" for j
  proof
    assume "k \<in> us_id ` set (rm_users (room_at ch j))"
    then obtain v where v: "v \<in> set (rm_users (room_at ch j))" "us_id v = k" by auto
    have "room_at ch j \<in> set (mg_rooms (ch_rooms ch))" using that(1) by simp
    then have m: "(k, v) \<in> set (um_users (ch_users ch))" "rm_roomId (room_at ch j) = ucast (us_roomId v)"
      using assms(1) v unfolding chat_inv_def members_ok_def by blast+
    have "v = u" using m(1) assms(2) k(2) eq_key_imp_eq_value by (metis keys_def)
    then have "map rm_roomId (mg_rooms (ch_rooms ch)) ! j = map rm_roomId (mg_rooms (ch_rooms ch)) ! i"
      using m(2) i that(1) by simp
    then show False
      using assms(1) that i(1) nth_eq_iff_index_eq [of "map rm_roomId (mg_rooms (ch_rooms ch))" j i]
      by (simp add: chat_inv_def rooms_ok_def)
  qed
  then show ?thesis using that g i k(1) by blast
qed

lemma put_room_shrunk:
  "i < length (mg_rooms (ch_rooms ch)) \<Longrightarrow> shrunk (room_at ch i) r \<Longrightarrow>
    list_all2 shrunk (mg_rooms (ch_rooms ch)) ((mg_rooms (ch_rooms ch))[i := r])"
  by (simp add: list_all2_conv_all_nth nth_list_update)

lemma remove_user_inv:
  assumes "chat_inv n ch" and "k \<notin> us_id ` set (members (ch_rooms ch))"
  shows "chat_inv n (ch\<lparr>ch_users := RemoveUserByUserId k (ch_users ch)\<rparr>)"
proof -
  have "set (alist_erase k m) = {p \<in> set m. fst p \<noteq> k}" for m :: "(uint64 \<times> User) list"
    by (auto simp: AList.delete_eq)
  then show ?thesis
    using assms user_manager.remove_consistent [of "ch_users ch" k]
    by (auto simp: chat_inv_def users_ok_def members_ok_def members_def RemoveUserByUserId_def)
qed

lemma leave_app_inv:
  assumes "chat_inv n ch" and "(k, u) \<in> set (um_users (ch_users ch))" and "GetRoom (us_roomId u) (ch_rooms ch) = Some i"
    and "ch1 = put_room i (Kick k (room_at ch i)) ch"
  shows "chat_inv n (ch1\<lparr>ch_users := RemoveUserByUserId k (ch_users ch1)\<rparr>)"
    and "k \<notin> us_id ` set (members (ch_rooms ch1))"
proof -
  obtain i' where i': "GetRoom (us_roomId u) (ch_rooms ch) = Some i'" "i' < length (mg_rooms (ch_rooms ch))"
    "\<forall>j < length (mg_rooms (ch_rooms ch)). j \<noteq> i' \<longrightarrow> k \<notin> us_id ` set (rm_users (room_at ch j))"
    using user_room [OF assms(1,2)] by metis
  then have i: "i < length (mg_rooms (ch_rooms ch))"
    and others: "\<forall>j < length (mg_rooms (ch_rooms ch)). j \<noteq> i \<longrightarrow> k \<notin> us_id ` set (rm_users (room_at ch j))"
    using assms(3) by auto
  have inv1: "chat_inv n ch1"
    unfolding assms(4) put_room_def using shrink_inv [OF assms(1) put_room_shrunk [OF i]] by simp
  show gone: "k \<notin> us_id ` set (members (ch_rooms ch1))"
  proof
    assume "k \<in> us_id ` set (members (ch_rooms ch1))"
    then obtain j where j: "j < length (mg_rooms (ch_rooms ch))"
        "k \<in> us_id ` set (rm_users ((mg_rooms (ch_rooms ch))[i := Kick k (room_at ch i)] ! j))"
      by (auto simp: members_def assms(4) put_room_def in_set_conv_nth) (metis imageI nth_mem)
    show False
      using j others i by (cases "j = i") (auto simp: Kick_def)
  qed
  show "chat_inv n (ch1\<lparr>ch_users := RemoveUserByUserId k (ch_users ch1)\<rparr>)" by (rule remove_user_inv [OF inv1 gone])
qed

lemma LeaveRoomHandler_effect:
  fixes s :: chat_server
  defines "ch \<equiv> sl_app s"
  assumes "chat_inv (length (sl_clientPool s)) ch"
    and "GetUserByClient (sockets s) client (ch_users ch) = Some u"
    and "LeaveRoomHandler_Handle env client packet payload s = s'"
  obtains i where "GetRoom (us_roomId u) (ch_rooms ch) = Some i"
    "sl_app s' = (put_room i (Kick (us_id u) (room_at ch i)) ch)\<lparr>ch_users := RemoveUserByUserId (us_id u) (ch_users ch)\<rparr>"
    "chat_inv (length (sl_clientPool s)) (sl_app s')" "us_id u \<notin> us_id ` set (members (ch_rooms (sl_app s')))"
    "same_server s s'"
    "deliveries (sl_events s') = deliveries (sl_events s)
      @ (case find (\<lambda>v. us_id v = us_id u) (rm_users (room_at ch i)) of None \<Rightarrow> []
         | Some v \<Rightarrow> deliveries_to env (makeUserLeftBroadcast (us_id u) (us_userName v) 0) (sockets s)
                       (filter (\<lambda>v. us_id v \<noteq> us_id u) (rm_users (room_at ch i))))
      @ deliveries_to env (makeLeftRoomResponse (pk_sequence packet)) (sockets s) [u]"
proof -
  obtain k where ku: "(k, u) \<in> set (um_users (ch_users ch))" using GetUserByClient_member [OF assms(3)] by blast
  obtain i where i: "GetRoom (us_roomId u) (ch_rooms ch) = Some i" "i < length (mg_rooms (ch_rooms ch))" "us_id u = k"
    using user_room [OF assms(2) ku] by metis
  obtain room s1 where l: "Room_Leave env k (room_at ch i) s = (room, s1)" by fastforce
  note le = Room_Leave_effect [OF members_in_pool [OF assms(2) i(2)] room_ids_distinct [OF assms(2) i(2)] l]
  let ?s2 = "on_app (put_room i room) s1" and ?resp = "makeLeftRoomResponse (pk_sequence packet)"
  have "in_pool s u" using assms(2) ku by (force simp: chat_inv_def users_ok_def in_pool_def)
  then have pool: "in_pool ?s2 u" using le(2) by (simp add: in_pool_def quiet_def)
  note se = User_Send_effect [OF pool, of env ?resp]
  let ?s3 = "User_Send env ?resp u ?s2"
  have s': "s' = on_app (\<lambda>ch. ch\<lparr>ch_users := RemoveUserByUserId k (ch_users ch)\<rparr>) ?s3"
    using assms(3,4) i l by (simp add: LeaveRoomHandler_Handle_def ch_def)
  have app: "sl_app ?s3 = put_room i (Kick k (room_at ch i)) ch"
    using se(1) le(1,2) by (simp add: quiet_def ch_def)
  note inv = leave_app_inv [OF assms(2) ku i(1) refl]
  have same: "same_server s s'"
    unfolding s'
    by (rule same_server_trans [OF same_server_trans [OF same_server_trans
          [OF quiet_same_server [OF le(2)] same_server_simps(2)] quiet_same_server [OF se(1)]] same_server_simps(2)])
  have del: "deliveries (sl_events s') = deliveries (sl_events s)
      @ (case find (\<lambda>v. us_id v = k) (rm_users (room_at ch i)) of None \<Rightarrow> []
         | Some v \<Rightarrow> deliveries_to env (makeUserLeftBroadcast k (us_userName v) 0) (sockets s)
                       (filter (\<lambda>v. us_id v \<noteq> k) (rm_users (room_at ch i))))
      @ deliveries_to env ?resp (sockets s) [u]"
    using se(2) le by (simp add: s' quiet_def Kick_def split: option.splits)
  have app': "sl_app s' = (put_room i (Kick k (room_at ch i)) ch)\<lparr>ch_users := RemoveUserByUserId k (ch_users ch)\<rparr>"
    by (simp add: s' app put_room_def)
  show ?thesis
    by (rule that [of i, unfolded i(3), OF i(1) app' _ _ same del])
       (use inv in \<open>simp_all add: app' put_room_def\<close>)
qed

text \<open>C7: a leave request of a registered user removes that user from the
  application: no room lists its id any more and the manager forgets it, while all
  other rooms are untouched and the application stays consistent.  The remaining
  members of the room are told (when the user was still a member), and the user
  gets the response.  In particular the room pointer that the handler does not
  check is never null.\<close>

theorem LeaveRoom_removes:
  fixes s :: chat_server
  defines "ch \<equiv> sl_app s"
  assumes "chat_inv (length (sl_clientPool s)) ch"
    and "GetUserByClient (sockets s) client (ch_users ch) = Some u"
    and "LeaveRoomHandler_Handle env client packet payload s = s'"
  shows "chat_inv (length (sl_clientPool s)) (sl_app s') \<and> same_server s s'
    \<and> us_id u \<notin> us_id ` set (members (ch_rooms (sl_app s')))
    \<and> um_users (ch_users (sl_app s')) = alist_erase (us_id u) (um_users (ch_users ch))
    \<and> (\<exists>i. GetRoom (us_roomId u) (ch_rooms ch) = Some i
        \<and> mg_rooms (ch_rooms (sl_app s')) = (mg_rooms (ch_rooms ch))[i := Kick (us_id u) (room_at ch i)]
        \<and> deliveries (sl_events s') = deliveries (sl_events s)
            @ (case find (\<lambda>v. us_id v = us_id u) (rm_users (room_at ch i)) of None \<Rightarrow> []
               | Some v \<Rightarrow> deliveries_to env (makeUserLeftBroadcast (us_id u) (us_userName v) 0) (sockets s)
                             (filter (\<lambda>v. us_id v \<noteq> us_id u) (rm_users (room_at ch i))))
            @ deliveries_to env (makeLeftRoomResponse (pk_sequence packet)) (sockets s) [u])"
proof -
  obtain i where eff: "GetRoom (us_roomId u) (ch_rooms ch) = Some i"
    "sl_app s' = (put_room i (Kick (us_id u) (room_at ch i)) ch)\<lparr>ch_users := RemoveUserByUserId (us_id u) (ch_users ch)\<rparr>"
    "chat_inv (length (sl_clientPool s)) (sl_app s')" "us_id u \<notin> us_id ` set (members (ch_rooms (sl_app s')))"
    "same_server s s'"
    "deliveries (sl_events s') = deliveries (sl_events s)
      @ (case find (\<lambda>v. us_id v = us_id u) (rm_users (room_at ch i)) of None \<Rightarrow> []
         | Some v \<Rightarrow> deliveries_to env (makeUserLeftBroadcast (us_id u) (us_userName v) 0) (sockets s)
                       (filter (\<lambda>v. us_id v \<noteq> us_id u) (rm_users (room_at ch i))))
      @ deliveries_to env (makeLeftRoomResponse (pk_sequence packet)) (sockets s) [u]"
    by (rule LeaveRoomHandler_effect [OF assms(2-4) [unfolded ch_def], folded ch_def])
  have "um_users (ch_users (sl_app s')) = alist_erase (us_id u) (um_users (ch_users ch))"
    "mg_rooms (ch_rooms (sl_app s')) = (mg_rooms (ch_rooms ch))[i := Kick (us_id u) (room_at ch i)]"
    by (simp_all add: eff(2) RemoveUserByUserId_def put_room_def)
  then show ?thesis using eff by (intro conjI exI [of _ i])
qed

lemma LeaveRoom_removes_witness:
  "um_users (ch_users (sl_app (LeaveRoomHandler_Handle demo_env 0 demo_packet (LeaveRoomRequest 0) (demo_server [demo_user]))))
     = alist_erase (us_id demo_user) (um_users (ch_users (demo_chat [demo_user])))"
  using LeaveRoom_removes [of "demo_server [demo_user]" 0 demo_user demo_env demo_packet "LeaveRoomRequest 0", OF _ _ refl]
    demo_chat_inv(2) demo_lookup(3) by simp

lemma ChatMessageHandler_effect:
  fixes s :: chat_server
  defines "ch \<equiv> sl_app s"
  assumes "chat_inv (length (sl_clientPool s)) ch"
    and "GetUserByClient (sockets s) client (ch_users ch) = Some u"
    and "ChatMessageHandler_Handle env client packet payload s = s'"
  shows "sl_app s' = ch \<and> same_server s s'
    \<and> (\<exists>i. GetRoom (us_roomId u) (ch_rooms ch) = Some i
        \<and> deliveries (sl_events s') = deliveries (sl_events s)
            @ deliveries_to env
                (makeChatMessageBroadcast (ucast (us_id u)) (us_userName u) (sm_message payload)
                   (cv_now env (length (sl_events s))) (pk_sequence packet))
                (sockets s) (filter (\<lambda>v. us_id v \<noteq> us_id u) (rm_users (room_at ch i))))"
proof -
  obtain k where ku: "(k, u) \<in> set (um_users (ch_users ch))" using GetUserByClient_member [OF assms(3)] by blast
  obtain i where i: "GetRoom (us_roomId u) (ch_rooms ch) = Some i" "i < length (mg_rooms (ch_rooms ch))"
    using user_room [OF assms(2) ku] by metis
  note b = BroadcastChatMessage_effect [OF members_in_pool [OF assms(2) i(2)]]
  show ?thesis
    using assms(3,4) i(1) b(2) b(1) quiet_same_server [OF b(1)]
    by (auto simp: ChatMessageHandler_Handle_def ch_def quiet_def)
qed



text \<open>Requests of clients without a user have no effect.\<close>

lemma strangers_ignored:
  assumes "GetUserByClient (sockets s) client (ch_users (sl_app s)) = None"
  shows "LeaveRoomHandler_Handle env client packet payload s = s"
    and "ChatMessageHandler_Handle env client packet payload s = s"
  using assms by (simp_all add: LeaveRoomHandler_Handle_def ChatMessageHandler_Handle_def)

end
