(* ===== verification/ChatServer.thy ===== *)
theory ChatServer
  imports ChatHandlers
begin

text \<open>
  The chat server's \<open>GameLoop\<close> (GameLoop.cpp), its \<open>Server\<close> (Server.cpp), the
  callbacks of \<open>MetricsCallbacksFactory\<close> and \<open>LogicThread\<close>: the application
  behind \<open>ISessionEventReceiver\<close>.

  The handlers registered in the dispatcher work on the client objects and the
  managers, not on the dispatcher itself; so the state of the game loop holds
  the dispatcher and the managers side by side, and \<open>with_app\<close> exchanges the
  application part of the server state around a tick.  The clock of the
  dispatcher is \<open>ns\<close>; a round of the logic thread reads \<open>steady_clock\<close> at its
  start and after the tick.
\<close>

record GameLoopCallbacks =
  gcb_dispatcher :: DispatcherCallbacks
  gcb_onTickDuration :: bool
  gcb_onTickLag :: bool
  gcb_onLogicThreadStarted :: bool

datatype GameLoopEvent =
    TickDuration int
  | TickLag int
  | LogicThreadStarted nat
  | ThreadYield
  | SleepUntil int

record GameLoop =
  gl_tickMs :: int
  gl_dispatcher :: "chat_server PacketDispatcher"
  gl_logicThread :: bool
  gl_hasStopped :: bool
  gl_chat :: Chat
  gl_callbacks :: GameLoopCallbacks
  gl_events :: "GameLoopEvent list"

type_synonym server = "GameLoop ServerLifeCycle"

definition with_app :: "'b \<Rightarrow> 'a ServerLifeCycle \<Rightarrow> 'b ServerLifeCycle" where
  "with_app app s =
     \<lparr>sl_iocp = sl_iocp s, sl_acceptor = sl_acceptor s, sl_clientPool = sl_clientPool s,
      sl_connectedClientCount = sl_connectedClientCount s, sl_callbacks = sl_callbacks s,
      sl_config = sl_config s, sl_events = sl_events s, sl_app = app\<rparr>"

section \<open>GameLoop\<close>

definition GameLoop_new ::
  "ChatEnv \<Rightarrow> chat_server PacketDispatcher \<Rightarrow> RoomManager \<Rightarrow> SessionManager \<Rightarrow> UserManager \<Rightarrow> NetworkCfg \<Rightarrow> GameLoop" where
  "GameLoop_new env packetDispatcher roomManager sessionManager userManager networkConfig =
     \<lparr>gl_tickMs = nc_tickMs networkConfig,
      gl_dispatcher = RegisterAll env chat_registry packetDispatcher,
      gl_logicThread = False, gl_hasStopped = False,
      gl_chat = \<lparr>ch_rooms = roomManager, ch_sessions = sessionManager, ch_users = userManager, ch_nullDeref = False\<rparr>,
      gl_callbacks = \<lparr>gcb_dispatcher = pd_callbacks (PacketDispatcher_new :: chat_server PacketDispatcher), gcb_onTickDuration = False,
                      gcb_onTickLag = False, gcb_onLogicThreadStarted = False\<rparr>,
      gl_events = []\<rparr>"

definition GameLoop_UseCallbacks :: "GameLoopCallbacks \<Rightarrow> GameLoop \<Rightarrow> GameLoop" where
  "GameLoop_UseCallbacks cbs g =
     g\<lparr>gl_callbacks := cbs, gl_dispatcher := Dispatcher_UseCallbacks (gcb_dispatcher cbs) (gl_dispatcher g)\<rparr>"

definition GameLoop_Connect :: "addr \<Rightarrow> server \<Rightarrow> server" where
  "GameLoop_Connect client s =
     (if gl_hasStopped (sl_app s) then s
      else on_app (\<lambda>g. g\<lparr>gl_chat := (gl_chat g)\<lparr>ch_sessions := snd (CreateSession client (ch_sessions (gl_chat g)))\<rparr>\<rparr>) s)"

text \<open>\<open>Receive\<close> works on the client object and the dispatcher.\<close>

definition GameLoop_Receive :: "ChatEnv \<Rightarrow> (nat \<Rightarrow> int) \<Rightarrow> addr \<Rightarrow> byte list \<Rightarrow> server \<Rightarrow> server" where
  "GameLoop_Receive env ns client data s =
     (if gl_hasStopped (sl_app s) then s
      else case Receive (cv_api env) ns client data (client_of s client) (gl_dispatcher (sl_app s)) of
             (c, d, outs) \<Rightarrow> put_client client c outs (on_app (\<lambda>g. g\<lparr>gl_dispatcher := d\<rparr>) s))"

definition GameLoop_Disconnect :: "addr \<Rightarrow> server \<Rightarrow> server" where
  "GameLoop_Disconnect client s =
     on_app (\<lambda>g. g\<lparr>gl_chat := (gl_chat g)\<lparr>
        ch_rooms := KickDisconnected (sockets s) client (ch_rooms (gl_chat g)),
        ch_sessions := snd (RemoveByClient (sockets s) client (ch_sessions (gl_chat g)))\<rparr>\<rparr>) s"

definition GameLoop_Tick :: "ChatEnv \<Rightarrow> (nat \<Rightarrow> int) \<Rightarrow> server \<Rightarrow> server" where
  "GameLoop_Tick env ns s =
     (case Tick (cv_api env) ns close_client (gl_dispatcher (sl_app s), with_app (gl_chat (sl_app s)) s) of
        (d, s') \<Rightarrow> with_app ((sl_app s)\<lparr>gl_dispatcher := d, gl_chat := sl_app s'\<rparr>) s')"

definition log_event :: "GameLoopEvent \<Rightarrow> server \<Rightarrow> server" where
  "log_event e = on_app (\<lambda>g. g\<lparr>gl_events := gl_events g @ [e]\<rparr>)"

text \<open>One round of the loop of \<open>Update\<close>; times in nanoseconds.\<close>

definition update_round :: "ChatEnv \<Rightarrow> (nat \<Rightarrow> int) \<Rightarrow> int \<Rightarrow> int \<Rightarrow> server \<Rightarrow> server" where
  "update_round env ns tickStart tickEnd s =
     (let targetNextTick = tickStart + gl_tickMs (sl_app s) * 1000000;
          s1 = GameLoop_Tick env ns s;
          cbs = gl_callbacks (sl_app s1);
          s2 = (if gcb_onTickDuration cbs then log_event (TickDuration (tickEnd - tickStart)) s1 else s1);
          s3 = (if gcb_onTickLag cbs
                then log_event (TickLag (if tickEnd > targetNextTick then tickEnd - targetNextTick else 0)) s2 else s2)
      in if targetNextTick < tickEnd then log_event ThreadYield s3
         else log_event (SleepUntil targetNextTick) s3)"

text \<open>The logic thread from its start, for the rounds made before a stop is
  requested; the deferred last tick runs on the way out.\<close>

definition update_begin :: "nat \<Rightarrow> server \<Rightarrow> server" where
  "update_begin threadId s =
     (if gcb_onLogicThreadStarted (gl_callbacks (sl_app s)) then log_event (LogicThreadStarted threadId) s else s)"

definition update_end :: "ChatEnv \<Rightarrow> (nat \<Rightarrow> int) \<Rightarrow> server \<Rightarrow> server" where
  "update_end env ns s = GameLoop_Tick env ns s"

definition Update :: "ChatEnv \<Rightarrow> (nat \<Rightarrow> int) \<Rightarrow> nat \<Rightarrow> (int \<times> int) list \<Rightarrow> server \<Rightarrow> server" where
  "Update env ns threadId rounds s =
     update_end env ns (fold (\<lambda>(t0, t1). update_round env ns t0 t1) rounds (update_begin threadId s))"

text \<open>\<open>LogicThread::Exit\<close> requests the stop and joins: the running loop makes its
  last tick.  \<open>Exec\<close> exits a running thread first.\<close>

definition LogicThread_Exit :: "ChatEnv \<Rightarrow> (nat \<Rightarrow> int) \<Rightarrow> server \<Rightarrow> server" where
  "LogicThread_Exit env ns s =
     (if gl_logicThread (sl_app s)
      then on_app (\<lambda>g. g\<lparr>gl_logicThread := False\<rparr>) (update_end env ns s) else s)"

definition LogicThread_Exec :: "ChatEnv \<Rightarrow> (nat \<Rightarrow> int) \<Rightarrow> nat \<Rightarrow> server \<Rightarrow> server" where
  "LogicThread_Exec env ns threadId s =
     update_begin threadId (on_app (\<lambda>g. g\<lparr>gl_logicThread := True\<rparr>) (LogicThread_Exit env ns s))"

definition GameLoop_Start :: "ChatEnv \<Rightarrow> (nat \<Rightarrow> int) \<Rightarrow> nat \<Rightarrow> server \<Rightarrow> server" where
  "GameLoop_Start env ns threadId s = LogicThread_Exec env ns threadId s"

definition GameLoop_Stop :: "ChatEnv \<Rightarrow> (nat \<Rightarrow> int) \<Rightarrow> server \<Rightarrow> server" where
  "GameLoop_Stop env ns s =
     (if gl_hasStopped (sl_app s) then s
      else LogicThread_Exit env ns (on_app (\<lambda>g. g\<lparr>gl_hasStopped := True\<rparr>) s))"

definition GameLoop_destroy :: "ChatEnv \<Rightarrow> (nat \<Rightarrow> int) \<Rightarrow> server \<Rightarrow> server" where
  "GameLoop_destroy env ns s = (if gl_hasStopped (sl_app s) then s else GameLoop_Stop env ns s)"

section \<open>Server\<close>

text \<open>\<open>Server\<close> implements \<open>ISessionEventReceiver\<close> by forwarding to the game loop.\<close>

definition Server_OnAccept :: "addr \<Rightarrow> server \<Rightarrow> server" where
  "Server_OnAccept client s = GameLoop_Connect client s"

definition Server_OnRecv :: "ChatEnv \<Rightarrow> (nat \<Rightarrow> int) \<Rightarrow> addr \<Rightarrow> byte list \<Rightarrow> server \<Rightarrow> server" where
  "Server_OnRecv env ns client data s = GameLoop_Receive env ns client data s"

definition Server_OnSend :: "addr \<Rightarrow> nat \<Rightarrow> server \<Rightarrow> server" where
  "Server_OnSend client bytesTransferred s = s"

definition Server_OnDisconnect :: "addr \<Rightarrow> server \<Rightarrow> server" where
  "Server_OnDisconnect client s = GameLoop_Disconnect client s"

definition chat_receiver :: "ChatEnv \<Rightarrow> (nat \<Rightarrow> int) \<Rightarrow> GameLoop Receiver" where
  "chat_receiver env ns =
     \<lparr>rv_OnAccept = Server_OnAccept, rv_OnRecv = Server_OnRecv env ns,
      rv_OnSend = Server_OnSend, rv_OnDisconnect = Server_OnDisconnect\<rparr>"

record ServerCallbacks =
  scb_lifecycle :: LifecycleCallbacks
  scb_onStarted :: bool
  scb_onStopping :: bool

datatype ServerEvent = OnStarted | OnStopping

text \<open>The game loop lives in the application part of \<open>sv_lifecycle\<close>, also before
  \<open>Start\<close>, when \<open>sv_hasLifecycle\<close> says that the lifecycle object does not exist
  yet.\<close>

record Server =
  sv_config :: NetworkCfg
  sv_hasLifecycle :: bool
  sv_lifecycle :: server
  sv_hasGameLoop :: bool
  sv_hasStopped :: bool
  sv_callbacks :: ServerCallbacks
  sv_events :: "ServerEvent list"

definition Server_UseCallbacks :: "ServerCallbacks \<Rightarrow> Server \<Rightarrow> Server" where
  "Server_UseCallbacks cbs v = v\<lparr>sv_callbacks := cbs\<rparr>"

definition Server_Start ::
  "ChatEnv \<Rightarrow> (nat \<Rightarrow> int) \<Rightarrow> StartEnv \<Rightarrow> HybridObjectPool \<Rightarrow> nat \<Rightarrow> SocketHandle \<Rightarrow> Server
    \<Rightarrow> (ENetworkError + unit) \<times> Server" where
  "Server_Start env ns se pool threadId listenSocket v =
     (let fresh = Lifecycle_UseCallbacks (scb_lifecycle (sv_callbacks v)) (idle_server (sl_app (sv_lifecycle v))) in
      case Start se pool listenSocket (sv_config v) fresh of
        (Inl e, s) \<Rightarrow> (Inl e, v\<lparr>sv_hasLifecycle := True, sv_lifecycle := s\<rparr>)
      | (Inr _, s) \<Rightarrow>
          (Inr (), v\<lparr>sv_hasLifecycle := True,
                     sv_lifecycle := GameLoop_Start env ns threadId s,
                     sv_events := sv_events v @ (if scb_onStarted (sv_callbacks v) then [OnStarted] else [])\<rparr>))"

text \<open>The clients that sessions and queued commands still own outlive the pool, so
  the objects are dropped from the model only after the logic thread's last tick.\<close>

definition Server_Stop :: "ChatEnv \<Rightarrow> (nat \<Rightarrow> int) \<Rightarrow> (addr \<Rightarrow> bool) \<Rightarrow> Server \<Rightarrow> Server" where
  "Server_Stop env ns last_owner v =
     (let v1 = (if sv_hasLifecycle v
                then v\<lparr>sv_lifecycle := (Stop_release last_owner (sv_lifecycle v))\<lparr>sl_connectedClientCount := 0\<rparr>,
                       sv_hasLifecycle := False\<rparr> else v);
          v2 = (if sv_hasGameLoop v1
                then v1\<lparr>sv_lifecycle := (GameLoop_destroy env ns (GameLoop_Stop env ns (sv_lifecycle v1)))\<lparr>sl_clientPool := []\<rparr>,
                        sv_hasGameLoop := False\<rparr> else v1)
      in v2\<lparr>sv_events := sv_events v2 @ (if scb_onStopping (sv_callbacks v2) then [OnStopping] else []),
            sv_hasStopped := True\<rparr>)"

definition Server_destroy :: "ChatEnv \<Rightarrow> (nat \<Rightarrow> int) \<Rightarrow> (addr \<Rightarrow> bool) \<Rightarrow> Server \<Rightarrow> Server" where
  "Server_destroy env ns last_owner v = (if sv_hasStopped v then v else Server_Stop env ns last_owner v)"

text \<open>The destructor of a stopped game loop does nothing.\<close>

lemma GameLoop_Stop_stopped: "gl_hasStopped (sl_app (GameLoop_Stop env ns s))"
  by (auto simp: GameLoop_Stop_def LogicThread_Exit_def update_end_def GameLoop_Tick_def Let_def with_app_def split: prod.splits)

lemma Server_Stop_eq:
  "Server_Stop env ns last_owner v =
     (let v1 = (if sv_hasLifecycle v
                then v\<lparr>sv_lifecycle := (Stop_release last_owner (sv_lifecycle v))\<lparr>sl_connectedClientCount := 0\<rparr>,
                       sv_hasLifecycle := False\<rparr> else v);
          v2 = (if sv_hasGameLoop v1
                then v1\<lparr>sv_lifecycle := (GameLoop_Stop env ns (sv_lifecycle v1))\<lparr>sl_clientPool := []\<rparr>,
                        sv_hasGameLoop := False\<rparr> else v1)
      in v2\<lparr>sv_events := sv_events v2 @ (if scb_onStopping (sv_callbacks v2) then [OnStopping] else []),
            sv_hasStopped := True\<rparr>)"
  by (simp add: Server_Stop_def GameLoop_destroy_def GameLoop_Stop_stopped)

section \<open>The contract of ISessionEventReceiver\<close>

text \<open>The application's invariant: consistent managers, the three handlers
  registered, commands that refer to clients of the pool, and an observer of the
  dispatcher who knows how many of them wait.\<close>

definition chat_handlers :: "ChatEnv \<Rightarrow> (PayloadType \<times> chat_server dispatch_fn) list" where
  "chat_handlers env = pd_handlers (RegisterAll env chat_registry PacketDispatcher_new)"

definition game_ok :: "ChatEnv \<Rightarrow> nat \<Rightarrow> GameLoop \<Rightarrow> bool" where
  "game_ok env n g \<longleftrightarrow> chat_inv n (gl_chat g) \<and> pd_handlers (gl_dispatcher g) = chat_handlers env
     \<and> (\<forall>cmd \<in> set (q_writeQueue (pd_commandQueue (gl_dispatcher g))). cmd_client cmd < n)
     \<and> queue_reported (gl_dispatcher g)"

lemma set_alist_assign_subset: "set (alist_assign k v m) \<subseteq> insert (k, v) (set m)"
  by (induction m) auto

lemma Connect_keeps: "keeps_pool_at (game_ok env) GameLoop_Connect"
proof -
  have "sessions_ok n (snd (CreateSession i m))" if "sessions_ok n m" "i < n" for n i m
    using that set_alist_assign_subset [of "sm_sessionCounter m" _ "sm_sessions m"]
    by (fastforce simp: sessions_ok_def CreateSession_def Let_def)
  then show ?thesis
    by (auto simp: keeps_pool_at_def pool_inv_def GameLoop_Connect_def game_ok_def chat_inv_def
        users_ok_def members_ok_def)
qed

lemma kick_all_shrunk: "list_all2 shrunk rs (map (KickByDisconnected sock i) rs)"
  by (simp add: list_all2_conv_all_nth)

lemma disconnect_chat_inv:
  assumes "chat_inv n ch"
  shows "chat_inv n (ch\<lparr>ch_rooms := KickDisconnected sock i (ch_rooms ch),
    ch_sessions := snd (RemoveByClient sock i (ch_sessions ch))\<rparr>)"
proof -
  have "chat_inv n (ch\<lparr>ch_rooms := KickDisconnected sock i (ch_rooms ch)\<rparr>)"
    using shrink_inv [OF assms kick_all_shrunk] by (simp add: KickDisconnected_def)
  then show ?thesis
    by (auto simp: chat_inv_def users_ok_def members_ok_def sessions_ok_def RemoveByClient_def Let_def)
qed

lemma Disconnect_keeps: "keeps_pool_at (game_ok env) GameLoop_Disconnect"
  using disconnect_chat_inv
  by (auto simp: keeps_pool_at_def pool_inv_def GameLoop_Disconnect_def game_ok_def)

text \<open>What \<open>Receive\<close> can do to a client and the dispatcher.\<close>

lemma accept_payload_fields:
  "pd_handlers (accept_payload api ns i p d) = pd_handlers d \<and>
   set (q_writeQueue (pd_commandQueue (accept_payload api ns i p d)))
     \<subseteq> set (q_writeQueue (pd_commandQueue d)) \<union> {cmd. cmd_client cmd = i}"
  by (auto simp: accept_payload_def PushCommand_def NowInNs64_def Push_def split: sum.splits)

lemma fold_accept_payload_fields:
  "pd_handlers (fold (accept_payload api ns i) ps d) = pd_handlers d \<and>
   set (q_writeQueue (pd_commandQueue (fold (accept_payload api ns i) ps d)))
     \<subseteq> set (q_writeQueue (pd_commandQueue d)) \<union> {cmd. cmd_client cmd = i}"
proof (induction ps arbitrary: d)
  case (Cons p ps)
  then show ?case using accept_payload_fields [of api ns i p d] by fastforce
qed simp

lemma Receive_outcome:
  assumes "fb_inv (cl_frameBuf c)" and "length data < 2 ^ 64"
    and "Receive api ns i data c d = (c', d', outs)"
  obtains fb where "fb_inv fb"
    "c' = c\<lparr>cl_frameBuf := fb\<rparr> \<and> outs = []
     \<or> c' = (fst (Client_Close c))\<lparr>cl_frameBuf := fb\<rparr> \<and> outs = snd (Client_Close c)"
    "pd_handlers d' = pd_handlers d"
    "set (q_writeQueue (pd_commandQueue d')) \<subseteq> set (q_writeQueue (pd_commandQueue d)) \<union> {cmd. cmd_client cmd = i}"
proof (cases "length (Data (cl_frameBuf c)) + length data \<le> maxFrameSize")
  case True
  obtain ps rest st where fr: "frames_of (valid_payload api) (Data (cl_frameBuf c) @ data) = (ps, rest, st)"
    by (metis prod_cases3)
  note stream = Receive_stream [OF assms, unfolded receive_spec_def fr]
  note d = fold_accept_payload_fields [of api ns i ps d]
  show ?thesis
  proof (cases st)
    case Waiting
    then have "client_rel rest c c'" "d' = fold (accept_payload api ns i) ps d" "outs = []"
      using stream True by (simp_all add: Let_def)
    then show ?thesis using that d unfolding client_rel_def by blast
  next
    case Refused
    then have r: "client_rel rest (fst (Client_Close c)) c'"
        "d' = notify dcb_onPacketValidationFailed PacketValidationFailed (fold (accept_payload api ns i) ps d)"
        "outs = snd (Client_Close c)"
      using stream True by (simp_all add: Let_def)
    then show ?thesis using that d unfolding client_rel_def by auto
  qed
next
  case False
  have fb: "(fst (Client_Close c))\<lparr>cl_frameBuf := cl_frameBuf c\<rparr> = fst (Client_Close c)"
    by (auto simp: Client_Close_def EmitDisconnectedEvent_def)
  have "(c', d', outs) = refuse c d" using Receive_stream [OF assms] False by simp
  then show ?thesis
    using that [of "cl_frameBuf c"] assms(1) fb by (auto simp: refuse_def split: prod.splits)
qed

lemma Receive_keeps:
  assumes "length data < 2 ^ 32"
  shows "keeps_pool_at (game_ok env) (\<lambda>i. GameLoop_Receive env ns i data)"
  unfolding keeps_pool_at_def
proof (intro allI impI, elim conjE)
  fix i and s :: server
  assume s: "pool_inv (game_ok env) s" "i < length (sl_clientPool s)"
  let ?g = "sl_app s" and ?c = "client_of s i" and ?s' = "GameLoop_Receive env ns i data s"
  show "pool_inv (game_ok env) ?s' \<and> length (sl_clientPool ?s') = length (sl_clientPool s)
    \<and> sl_acceptor ?s' = sl_acceptor s \<and> sl_callbacks ?s' = sl_callbacks s"
  proof (cases "gl_hasStopped ?g")
    case True
    then show ?thesis using s by (simp add: GameLoop_Receive_def)
  next
    case False
    obtain c d outs where r: "Receive (cv_api env) ns i data ?c (gl_dispatcher ?g) = (c, d, outs)"
      by (metis prod_cases3)
    have inv: "lifecycle_inv s" "game_ok env (length (sl_clientPool s)) ?g" using s(1) by (simp_all add: pool_inv_def)
    have buf: "fb_inv (cl_frameBuf ?c)" "length data < 2 ^ 64"
      using pool_member [OF inv(1) s(2)] assms by (simp_all add: pooled_client_ok_def client_inv_def)
    then obtain fb where fb: "fb_inv fb"
        "c = ?c\<lparr>cl_frameBuf := fb\<rparr> \<and> outs = []
         \<or> c = (fst (Client_Close ?c))\<lparr>cl_frameBuf := fb\<rparr> \<and> outs = snd (Client_Close ?c)"
        "pd_handlers d = pd_handlers (gl_dispatcher ?g)"
        "set (q_writeQueue (pd_commandQueue d)) \<subseteq> set (q_writeQueue (pd_commandQueue (gl_dispatcher ?g))) \<union> {cmd. cmd_client cmd = i}"
      using Receive_outcome r by blast
    let ?s1 = "on_app (\<lambda>g. g\<lparr>gl_dispatcher := d\<rparr>) s"
    have s1: "lifecycle_inv ?s1" "i < length (sl_clientPool ?s1)" using inv s(2) by simp_all
    have "lifecycle_inv (put_client i c outs ?s1)"
      using fb(2) frame_buffer_inv [OF s1 fb(1)]
        close_with_buffer_inv [OF s1 fb(1), of "fst (Client_Close ?c)" "snd (Client_Close ?c)"] by auto
    moreover have "game_ok env (length (sl_clientPool s)) (?g\<lparr>gl_dispatcher := d\<rparr>)"
      using inv(2) fb(3,4) s(2) queue_reported_Receive [OF buf r] by (auto simp: game_ok_def)
    moreover have "?s' = put_client i c outs ?s1" using False r by (simp add: GameLoop_Receive_def)
    ultimately show ?thesis by (simp add: pool_inv_def put_client_def)
  qed
qed

text \<open>The chat server honours the contract, so every completion the lifecycle
  handles keeps the whole server consistent.\<close>

interpretation chat: session_receiver "chat_receiver env ns" "game_ok env" for env ns
  by unfold_locales
     (simp_all add: chat_receiver_def Server_OnAccept_def [abs_def] Server_OnRecv_def [abs_def]
       Server_OnSend_def [abs_def] Server_OnDisconnect_def [abs_def] Connect_keeps Receive_keeps
       Disconnect_keeps ignore_keeps)

section \<open>The logic thread\<close>

text \<open>Enough ids for \<open>k\<close> more joins.\<close>

definition ids_for :: "nat \<Rightarrow> Chat \<Rightarrow> bool" where
  "ids_for k ch \<longleftrightarrow> unat (um_userIdCounter (ch_users ch)) + k < 2 ^ 64 \<and> unat (mg_roomCounter (ch_rooms ch)) + k < 2 ^ 32"

lemma ids_for_left: "ids_for (Suc k) ch \<Longrightarrow> ids_left ch"
  using unat_minus_one_64 unat_minus_one_32 by (auto simp: ids_for_def ids_left_def)

lemma ids_for_mono: "ids_for (Suc k) ch \<Longrightarrow> ids_for k ch"
  by (simp add: ids_for_def)

lemma ids_for_next:
  assumes "ids_for (Suc k) ch"
    and "um_userIdCounter (ch_users ch') \<in> {um_userIdCounter (ch_users ch), um_userIdCounter (ch_users ch) + 1}"
    and "mg_roomCounter (ch_rooms ch') \<in> {mg_roomCounter (ch_rooms ch), mg_roomCounter (ch_rooms ch) + 1}"
  shows "ids_for k ch'"
  using assms unat_plus_one_le [of "um_userIdCounter (ch_users ch)"] unat_plus_one_le [of "mg_roomCounter (ch_rooms ch)"]
  by (auto simp: ids_for_def)

lemma join_prepare_counters:
  "join_prepare client payload s = ((i, w), s1) \<Longrightarrow>
    um_userIdCounter (ch_users (sl_app s1)) \<in> {um_userIdCounter (ch_users (sl_app s)), um_userIdCounter (ch_users (sl_app s)) + 1}
    \<and> mg_roomCounter (ch_rooms (sl_app s1)) \<in> {mg_roomCounter (ch_rooms (sl_app s)), mg_roomCounter (ch_rooms (sl_app s)) + 1}"
  by (auto simp: join_prepare_def CreateUser_def add_user_def GetOrCreateAvailableRoom_def append_room_def Let_def
      split: prod.splits option.splits)

text \<open>The state of the handlers between two commands of a tick.\<close>

definition chat_ok :: "nat \<Rightarrow> nat \<Rightarrow> chat_server \<Rightarrow> bool" where
  "chat_ok n k s \<longleftrightarrow> lifecycle_inv s \<and> length (sl_clientPool s) = n \<and> chat_inv n (sl_app s) \<and> ids_for k (sl_app s)"

lemma Join_step:
  assumes "chat_ok n (Suc k) s"
  shows "chat_ok n k (JoinRoomHandler_Handle env i p pl s)
    \<and> sl_acceptor (JoinRoomHandler_Handle env i p pl s) = sl_acceptor s
    \<and> sl_callbacks (JoinRoomHandler_Handle env i p pl s) = sl_callbacks s"
proof -
  have inv: "chat_inv (length (sl_clientPool s)) (sl_app s)" and left: "ids_left (sl_app s)"
    and ids: "ids_for (Suc k) (sl_app s)" and len: "length (sl_clientPool s) = n" "lifecycle_inv s"
    using assms ids_for_left by (auto simp: chat_ok_def)
  note j = JoinRoomHandler_inv [OF inv left, of env i p pl]
  obtain r w s1 where pr: "join_prepare i pl s = ((r, w), s1)" by (metis prod.exhaust)
  note c = join_prepare_counters [OF pr]
  have "ids_for k (sl_app (JoinRoomHandler_Handle env i p pl s))"
  proof (cases w)
    case None
    then show ?thesis using ids_for_next [OF ids] c pr by (simp add: JoinRoomHandler_Handle_def)
  next
    case (Some u)
    note a = join_prepare_admitted [OF inv left pr [unfolded Some]]
    have l1: "length (sl_clientPool s1) = length (sl_clientPool s)" using a(13) by (simp add: same_server_def)
    have "in_pool s1 u" using a(4) l1 by (simp add: in_pool_def)
    from join_finish_effect(1) [OF a(1) [folded l1] a(2) this]
    have "sl_app (JoinRoomHandler_Handle env i p pl s)
        = put_room r ((room_at (sl_app s1) r)\<lparr>rm_users := rm_users (room_at (sl_app s1) r) @ [u]\<rparr>) (sl_app s1)"
      using pr Some by (simp add: JoinRoomHandler_Handle_def)
    then show ?thesis using ids_for_next [OF ids] c by (simp add: put_room_def)
  qed
  then show ?thesis using j len by (simp add: chat_ok_def same_server_def)
qed

lemma Leave_step:
  assumes "chat_ok n (Suc k) s"
  shows "chat_ok n k (LeaveRoomHandler_Handle env i p pl s)
    \<and> sl_acceptor (LeaveRoomHandler_Handle env i p pl s) = sl_acceptor s
    \<and> sl_callbacks (LeaveRoomHandler_Handle env i p pl s) = sl_callbacks s"
proof (cases "GetUserByClient (sockets s) i (ch_users (sl_app s))")
  case None
  then show ?thesis using assms strangers_ignored(1) by (simp add: chat_ok_def ids_for_mono)
next
  case (Some u)
  have inv: "chat_inv (length (sl_clientPool s)) (sl_app s)" using assms by (auto simp: chat_ok_def)
  show ?thesis
    by (rule LeaveRoomHandler_effect [OF inv Some refl, of env p pl])
       (use assms in \<open>auto simp: chat_ok_def same_server_def ids_for_def put_room_def RemoveUserByUserId_def\<close>)
qed

lemma ChatMessage_step:
  assumes "chat_ok n (Suc k) s"
  shows "chat_ok n k (ChatMessageHandler_Handle env i p pl s)
    \<and> sl_acceptor (ChatMessageHandler_Handle env i p pl s) = sl_acceptor s
    \<and> sl_callbacks (ChatMessageHandler_Handle env i p pl s) = sl_callbacks s"
proof (cases "GetUserByClient (sockets s) i (ch_users (sl_app s))")
  case None
  then show ?thesis using assms strangers_ignored(2) by (simp add: chat_ok_def ids_for_mono)
next
  case (Some u)
  have inv: "chat_inv (length (sl_clientPool s)) (sl_app s)" using assms by (auto simp: chat_ok_def)
  from ChatMessageHandler_effect [OF inv Some refl, of env p pl] show ?thesis
    using assms by (auto simp: chat_ok_def same_server_def ids_for_mono)
qed

lemma chat_handlers_lookup:
  "map_of (chat_handlers env) t =
    (if t = P_JoinRoomRequest then Some (\<lambda>i p s. case payload_as t p of None \<Rightarrow> s | Some pl \<Rightarrow> JoinRoomHandler_Handle env i p pl s)
     else if t = P_LeaveRoomRequest then Some (\<lambda>i p s. case payload_as t p of None \<Rightarrow> s | Some pl \<Rightarrow> LeaveRoomHandler_Handle env i p pl s)
     else if t = P_SendMessageRequest then Some (\<lambda>i p s. case payload_as t p of None \<Rightarrow> s | Some pl \<Rightarrow> ChatMessageHandler_Handle env i p pl s)
     else None)"
  by (simp add: chat_handlers_def registry_defs
      RegisterHandler_def PacketDispatcher_new_def)

lemma dispatch_step:
  assumes "chat_ok n (Suc k) s" and "i < n"
  shows "chat_ok n k (dispatch_payload api close_client (chat_handlers env) i data s)
    \<and> sl_acceptor (dispatch_payload api close_client (chat_handlers env) i data s) = sl_acceptor s
    \<and> sl_callbacks (dispatch_payload api close_client (chat_handlers env) i data s) = sl_callbacks s"
proof -
  have same: "chat_ok n k s" using assms(1) ids_for_mono by (auto simp: chat_ok_def)
  have "chat_ok n k (close_client i s)"
    using same assms(2) close_client_inv [of s i] by (simp add: chat_ok_def)
  then show ?thesis
    using same Join_step [OF assms(1)] Leave_step [OF assms(1)] ChatMessage_step [OF assms(1)]
    by (simp add: dispatch_payload_def chat_handlers_lookup split: option.split)
qed

lemma tick_commands_ok:
  "chat_ok n (length cmds) s \<Longrightarrow> \<forall>cmd \<in> set cmds. cmd_client cmd < n \<Longrightarrow>
    chat_ok n 0 (fold (\<lambda>cmd. dispatch_payload api close_client (chat_handlers env) (cmd_client cmd) (cmd_data cmd)) cmds s)
    \<and> sl_acceptor (fold (\<lambda>cmd. dispatch_payload api close_client (chat_handlers env) (cmd_client cmd) (cmd_data cmd)) cmds s)
        = sl_acceptor s
    \<and> sl_callbacks (fold (\<lambda>cmd. dispatch_payload api close_client (chat_handlers env) (cmd_client cmd) (cmd_data cmd)) cmds s)
        = sl_callbacks s"
proof (induction cmds arbitrary: s)
  case (Cons cmd cmds)
  then show ?case using dispatch_step [of n "length cmds" s "cmd_client cmd" api env "cmd_data cmd"] by simp
qed simp

lemma with_app_simps [simp]:
  "sl_app (with_app a s) = a" "sl_clientPool (with_app a s) = sl_clientPool s"
  "sl_acceptor (with_app a s) = sl_acceptor s" "sl_callbacks (with_app a s) = sl_callbacks s" "sl_connectedClientCount (with_app a s) = sl_connectedClientCount s"
  "sl_events (with_app a s) = sl_events s" "lifecycle_inv (with_app a s) = lifecycle_inv s"
  "sockets (with_app a s) = sockets s"
  by (simp_all add: with_app_def lifecycle_inv_def reports_exact_def reports_connections_def sockets_def fun_eq_iff)

lemma Tick_keeps:
  assumes "server_inv (game_ok env) s"
    and "ids_for (length (q_writeQueue (pd_commandQueue (gl_dispatcher (sl_app s))))) (gl_chat (sl_app s))"
  shows "server_inv (game_ok env) (GameLoop_Tick env ns s)
    \<and> Empty (pd_commandQueue (gl_dispatcher (sl_app (GameLoop_Tick env ns s))))
    \<and> length (sl_clientPool (GameLoop_Tick env ns s)) = length (sl_clientPool s)
    \<and> sl_callbacks (GameLoop_Tick env ns s) = sl_callbacks s"
proof -
  let ?g = "sl_app s" and ?n = "length (sl_clientPool s)"
  obtain d s' where t: "Tick (cv_api env) ns close_client (gl_dispatcher ?g, with_app (gl_chat ?g) s) = (d, s')"
    by fastforce
  have inv: "lifecycle_inv s" "game_ok env ?n ?g" "\<forall>a. sl_acceptor s = Some a \<longrightarrow> acceptor_inv {#} a"
    using assms(1) by (simp_all add: server_inv_def pool_inv_def)
  note tc = Tick_commands [OF t]
  have h: "pd_handlers (gl_dispatcher ?g) = chat_handlers env"
    "\<forall>cmd \<in> set (q_writeQueue (pd_commandQueue (gl_dispatcher ?g))). cmd_client cmd < ?n"
    "chat_inv ?n (gl_chat ?g)" "queue_reported (gl_dispatcher ?g)"
    using inv(2) by (simp_all add: game_ok_def)
  have "chat_ok ?n (length (q_writeQueue (pd_commandQueue (gl_dispatcher ?g)))) (with_app (gl_chat ?g) s)"
    using inv(1) h(3) assms(2) by (simp add: chat_ok_def)
  from tick_commands_ok [OF this h(2), of "cv_api env" env]
  have s': "chat_ok ?n 0 s'" "sl_acceptor s' = sl_acceptor s" "sl_callbacks s' = sl_callbacks s" using tc h(1) by simp_all
  have d: "pd_handlers d = chat_handlers env" "q_writeQueue (pd_commandQueue d) = []"
    using tc h(1) by (simp_all add: Empty_def)
  have "GameLoop_Tick env ns s = with_app (?g\<lparr>gl_dispatcher := d, gl_chat := sl_app s'\<rparr>) s'"
    by (simp add: GameLoop_Tick_def t)
  then show ?thesis
    using s' d inv(3) queue_reported_Tick [OF t h(4)]
    by (simp add: server_inv_def pool_inv_def game_ok_def chat_ok_def Empty_def)
qed

text \<open>The reachable states of the running server: the workers handle completions,
  the logic thread makes its rounds, in any order.  The guard of \<open>round\<close> says that
  the 64-bit user ids and 32-bit room ids have not run out.\<close>

inductive server_step :: "ChatEnv \<Rightarrow> (nat \<Rightarrow> int) \<Rightarrow> server \<Rightarrow> server \<Rightarrow> bool" for env ns where
  completion: "(\<forall>i. ev_target ev = Some i \<longrightarrow> i < length (sl_clientPool s)) \<Longrightarrow>
    server_step env ns s (OnCompletion (Some (chat_receiver env ns)) cenv ev s)"
| round: "ids_for (length (q_writeQueue (pd_commandQueue (gl_dispatcher (sl_app s))))) (gl_chat (sl_app s)) \<Longrightarrow>
    server_step env ns s (update_round env ns t0 t1 s)"

lemma log_event_inv [simp]:
  "server_inv (game_ok env) (log_event e s) = server_inv (game_ok env) s"
  "length (sl_clientPool (log_event e s)) = length (sl_clientPool s)"
  "sl_callbacks (log_event e s) = sl_callbacks s"
  by (simp_all add: log_event_def server_inv_def pool_inv_def game_ok_def)

lemma update_round_inv:
  "server_inv (game_ok env) (update_round env ns t0 t1 s) = server_inv (game_ok env) (GameLoop_Tick env ns s)"
  "length (sl_clientPool (update_round env ns t0 t1 s)) = length (sl_clientPool (GameLoop_Tick env ns s))"
  "sl_callbacks (update_round env ns t0 t1 s) = sl_callbacks (GameLoop_Tick env ns s)"
  by (simp_all add: update_round_def Let_def)

lemma server_step_inv:
  assumes "server_step env ns s s'" and "server_inv (game_ok env) s"
  shows "server_inv (game_ok env) s' \<and> length (sl_clientPool s') = length (sl_clientPool s)
    \<and> sl_callbacks s' = sl_callbacks s"
  using assms(1)
proof (cases rule: server_step.cases)
  case (completion ev cenv)
  then show ?thesis using chat.OnCompletion_keeps [OF assms(2)] by simp
next
  case (round t0 t1)
  then show ?thesis using Tick_keeps [OF assms(2)] by (simp add: update_round_inv)
qed

text \<open>C1: whatever the workers and the logic thread do, in whatever order, the
  running chat server stays consistent: the connected count is the number of
  counted connections, every overlapped structure has one owner, no room exceeds
  its capacity, no user is in two rooms, every room member is registered and every
  user's room exists, every queued command names a client of the pool, and no null
  room is ever dereferenced.\<close>

theorem chat_server_invariant:
  assumes "(server_step env ns)\<^sup>*\<^sup>* s s'" and "server_inv (game_ok env) s"
  shows "server_inv (game_ok env) s' \<and> length (sl_clientPool s') = length (sl_clientPool s)
    \<and> GetConnectedClientCount s' = length (filter cl_connectionEventCounted (sl_clientPool s'))
    \<and> \<not> ch_nullDeref (gl_chat (sl_app s'))
    \<and> (\<forall>r \<in> set (mg_rooms (ch_rooms (gl_chat (sl_app s')))).
         length (rm_users r) \<le> max 1 (unat (mg_maxRoomCapacity (ch_rooms (gl_chat (sl_app s'))))))"
proof -
  have "server_inv (game_ok env) s' \<and> length (sl_clientPool s') = length (sl_clientPool s)"
    using assms by (induction rule: rtranclp_induct) (auto dest: server_step_inv)
  then show ?thesis
    by (auto simp: server_inv_def pool_inv_def lifecycle_inv_def counted_def GetConnectedClientCount_def game_ok_def
        chat_inv_def rooms_ok_def)
qed

section \<open>Starting the server\<close>

lemma append_rooms_ok:
  "k < 2 ^ 32 \<Longrightarrow> let m = (append_room ^^ k) \<lparr>mg_rooms = [], mg_roomCounter = 0, mg_maxRoomCapacity = cap\<rparr> in
    rooms_ok m \<and> members m = [] \<and> unat (mg_roomCounter m) = k \<and> length (mg_rooms m) = k"
proof (induction k)
  case 0
  then show ?case by (simp add: rooms_ok_def members_def)
next
  case (Suc k)
  define m where "m = (append_room ^^ k) \<lparr>mg_rooms = [], mg_roomCounter = 0, mg_maxRoomCapacity = cap\<rparr>"
  have m: "rooms_ok m" "members m = []" "unat (mg_roomCounter m) = k" "length (mg_rooms m) = k"
    using Suc by (simp_all add: m_def Let_def)
  have "mg_roomCounter m \<noteq> - 1" using m(3) Suc.prems unat_minus_one_32 by auto
  moreover have "unat (mg_roomCounter m + 1) = Suc k"
    using m(3) Suc.prems unatSuc [of "mg_roomCounter m"] calculation by (metis add.commute add_eq_0_iff)
  ultimately show ?case
    using m append_room_ok [OF m(1)] by (simp add: m_def [symmetric] Let_def) (simp add: append_room_def)
qed

lemma RoomManager_new_ok:
  "rooms_ok (RoomManager_new k cap) \<and> members (RoomManager_new k cap) = [] \<and> length (mg_rooms (RoomManager_new k cap)) = unat k"
proof -
  have "unat k < 2 ^ 16" using unsigned_less [of k] by simp
  then show ?thesis using append_rooms_ok [of "unat k" cap] by (simp add: RoomManager_new_def Let_def)
qed

abbreviation new_game :: "ChatEnv \<Rightarrow> 16 word \<Rightarrow> uint32 \<Rightarrow> NetworkCfg \<Rightarrow> GameLoop" where
  "new_game env k cap cfg \<equiv>
     GameLoop_new env PacketDispatcher_new (RoomManager_new k cap) SessionManager_new UserManager_new cfg"

lemma new_game_ok: "game_ok env n (new_game env k cap cfg)"
proof -
  have "set (rm_users r) = {}" if "r \<in> set (mg_rooms (RoomManager_new k cap))" for r
    using that RoomManager_new_ok [of k cap] by (auto simp: members_def)
  then show ?thesis
    using RoomManager_new_ok [of k cap]
    by (simp add: game_ok_def GameLoop_new_def chat_inv_def users_ok_def members_ok_def sessions_ok_def
        SessionManager_new_def UserManager_new_def user_manager.consistent_def ids_ok_def chat_handlers_def)
       (simp add: registry_defs RegisterHandler_def
        PacketDispatcher_new_def queue_init_def queue_reported_def)
qed

lemma new_game_callbacks_ok: "game_ok env n (GameLoop_UseCallbacks cbs (new_game env k cap cfg))"
proof -
  have "pd_events (gl_dispatcher (new_game env k cap cfg)) = []"
    "q_writeQueue (pd_commandQueue (gl_dispatcher (new_game env k cap cfg))) = []"
    by (simp_all add: GameLoop_new_def registry_defs
        RegisterHandler_def PacketDispatcher_new_def queue_init_def)
  then show ?thesis
    using new_game_ok [of env n k cap cfg]
    by (simp add: game_ok_def GameLoop_UseCallbacks_def Dispatcher_UseCallbacks_def queue_reported_def)
qed

lemma game_ok_flags [simp]:
  "game_ok env n (g\<lparr>gl_logicThread := b\<rparr>) = game_ok env n g"
  "game_ok env n (g\<lparr>gl_hasStopped := b\<rparr>) = game_ok env n g"
  by (simp_all add: game_ok_def)

lemma Server_Start_inv:
  assumes "sl_app (sv_lifecycle v) = GameLoop_UseCallbacks cbs (new_game env k cap (sv_config v))"
    and "hybrid_pool.balanced pool {#}"
    and "Server_Start env ns se pool threadId listenSocket v = (Inr (), v')"
  shows "server_inv (game_ok env) (sv_lifecycle v')
    \<and> length (sl_clientPool (sv_lifecycle v')) = nat (nc_maxClients (sv_config v))
    \<and> GetConnectedClientCount (sv_lifecycle v') = 0
    \<and> members (ch_rooms (gl_chat (sl_app (sv_lifecycle v')))) = []
    \<and> gl_logicThread (sl_app (sv_lifecycle v')) \<and> sv_hasLifecycle v'
    \<and> sv_events v' = sv_events v @ (if scb_onStarted (sv_callbacks v) then [OnStarted] else [])
    \<and> sl_callbacks (sv_lifecycle v') = scb_lifecycle (sv_callbacks v)
    \<and> pd_callbacks (gl_dispatcher (sl_app (sv_lifecycle v'))) = gcb_dispatcher cbs"
proof -
  define fresh where "fresh = Lifecycle_UseCallbacks (scb_lifecycle (sv_callbacks v)) (idle_server (sl_app (sv_lifecycle v)))"
  obtain r s where st: "Start se pool listenSocket (sv_config v) fresh = (r, s)" by fastforce
  then have v': "v' = v\<lparr>sv_hasLifecycle := True, sv_lifecycle := GameLoop_Start env ns threadId s,
      sv_events := sv_events v @ (if scb_onStarted (sv_callbacks v) then [OnStarted] else [])\<rparr>" and r: "r = Inr ()"
    using assms(3) by (auto simp: Server_Start_def fresh_def [symmetric] Let_def split: sum.splits)
  have f: "sl_clientPool fresh = []" "sl_connectedClientCount fresh = 0" "sl_acceptor fresh = None"
    "sl_app fresh = GameLoop_UseCallbacks cbs (new_game env k cap (sv_config v))" "reports_exact fresh"
    by (simp_all add: fresh_def Lifecycle_UseCallbacks_def idle_server_def reports_exact_def assms(1))
  have app: "sl_app s = GameLoop_UseCallbacks cbs (new_game env k cap (sv_config v))"
    using st f(4) by (auto simp: Start_def Let_def split: prod.splits sum.splits)
  have cbs: "sl_callbacks s = scb_lifecycle (sv_callbacks v)"
    using st by (auto simp: fresh_def Lifecycle_UseCallbacks_def Start_def Let_def split: prod.splits sum.splits)
  have pd: "pd_callbacks (gl_dispatcher (sl_app s)) = gcb_dispatcher cbs"
    by (simp add: app GameLoop_UseCallbacks_def Dispatcher_UseCallbacks_def)
  have ok: "game_ok env n (sl_app fresh)" for n using new_game_callbacks_ok f(4) by simp
  note inv = Start_inv [OF f(1,2) assms(2) f(3,5), where ok = "game_ok env", OF ok st]
  have "gl_logicThread (sl_app s) = False" by (simp add: app GameLoop_UseCallbacks_def GameLoop_new_def)
  then have start: "GameLoop_Start env ns threadId s = update_begin threadId (on_app (\<lambda>g. g\<lparr>gl_logicThread := True\<rparr>) s)"
    by (simp add: GameLoop_Start_def LogicThread_Exec_def LogicThread_Exit_def)
  have "server_inv (game_ok env) (on_app (\<lambda>g. g\<lparr>gl_logicThread := True\<rparr>) s)"
    using inv by (simp add: server_inv_def pool_inv_def)
  moreover have "members (ch_rooms (gl_chat (sl_app s))) = []"
    using RoomManager_new_ok [of k cap] by (simp add: app GameLoop_UseCallbacks_def GameLoop_new_def)
  moreover have "GetConnectedClientCount (on_app f s) = GetConnectedClientCount s" for f
    by (simp add: GetConnectedClientCount_def on_app_def)
  ultimately show ?thesis
    using inv r cbs pd
    by (simp add: v' start update_begin_def log_event_inv) (simp add: log_event_def GetConnectedClientCount_def on_app_def)
qed

text \<open>C11: a \<open>Server\<close> assembled as \<open>main\<close> does, with a fresh game loop, and started
  successfully is in a consistent state: nobody is connected, no room has a member,
  the pool has the configured size, the logic thread runs and the server is ready
  for completions.  With the preceding theorem, everything it reaches is consistent
  too.\<close>

theorem Server_Start_ready:
  assumes "sl_app (sv_lifecycle v) = GameLoop_UseCallbacks cbs (new_game env k cap (sv_config v))"
    and "hybrid_pool.balanced pool {#}"
    and "Server_Start env ns se pool threadId listenSocket v = (Inr (), v')"
  shows "server_inv (game_ok env) (sv_lifecycle v')
    \<and> length (sl_clientPool (sv_lifecycle v')) = nat (nc_maxClients (sv_config v))
    \<and> GetConnectedClientCount (sv_lifecycle v') = 0
    \<and> members (ch_rooms (gl_chat (sl_app (sv_lifecycle v')))) = []
    \<and> gl_logicThread (sl_app (sv_lifecycle v')) \<and> sv_hasLifecycle v'
    \<and> sv_events v' = sv_events v @ (if scb_onStarted (sv_callbacks v) then [OnStarted] else [])"
  using Server_Start_inv [OF assms] by blast

lemma chat_server_invariant_witness:
  "server_inv (game_ok demo_env)
     (update_round demo_env (\<lambda>_. 0) 0 5 (idle_server (new_game demo_env 1 100 WithDefaults)))"
proof -
  let ?s = "idle_server (new_game demo_env 1 100 WithDefaults)"
  have g: "gl_chat (sl_app ?s) = \<lparr>ch_rooms = RoomManager_new 1 100, ch_sessions = SessionManager_new,
      ch_users = UserManager_new, ch_nullDeref = False\<rparr>"
    "q_writeQueue (pd_commandQueue (gl_dispatcher (sl_app ?s))) = []"
    by (simp_all add: idle_server_def GameLoop_new_def registry_defs
        Registry_Add_def RegisterHandler_def PacketDispatcher_new_def queue_init_def)
  have "ids_for 0 (gl_chat (sl_app ?s))"
    using unat_lt64 [of "um_userIdCounter UserManager_new"] unat_lt32 [of "mg_roomCounter (RoomManager_new 1 100)"]
    by (simp add: g ids_for_def)
  then have "server_step demo_env (\<lambda>_. 0) ?s (update_round demo_env (\<lambda>_. 0) 0 5 ?s)"
    by (intro server_step.round) (simp add: g(2))
  moreover have "server_inv (game_ok demo_env) ?s"
    using new_game_ok [of demo_env 0 1 100 WithDefaults]
    by (simp add: server_inv_def pool_inv_def lifecycle_inv_def idle_server_def counted_def reports_exact_def)
  ultimately show ?thesis using chat_server_invariant [OF r_into_rtranclp] by blast
qed

definition demo_main :: Server where
  "demo_main = \<lparr>sv_config = WithDefaults, sv_hasLifecycle = False,
     sv_lifecycle = idle_server (GameLoop_UseCallbacks
       \<lparr>gcb_dispatcher = pd_callbacks (PacketDispatcher_new :: unit PacketDispatcher), gcb_onTickDuration = True,
        gcb_onTickLag = True, gcb_onLogicThreadStarted = True\<rparr> (new_game demo_env 1 100 WithDefaults)), sv_hasGameLoop = True, sv_hasStopped = False,
     sv_callbacks = \<lparr>scb_lifecycle = sl_callbacks (idle_server ()), scb_onStarted = True, scb_onStopping = True\<rparr>,
     sv_events = []\<rparr>"

lemma Server_Start_ready_witness:
  "\<exists>v'. Server_Start demo_env (\<lambda>_. 0) \<lparr>st_concurrency = 4, st_iocp = Some 1, st_listenPort = Some 1, st_ioctl1 = 0,
      st_ioctl2 = 0, st_accepts = []\<rparr> HybridObjectPool_init 9 3 demo_main = (Inr (), v')
    \<and> server_inv (game_ok demo_env) (sv_lifecycle v')"
proof -
  let ?se = "\<lparr>st_concurrency = 4, st_iocp = Some 1, st_listenPort = Some 1, st_ioctl1 = 0, st_ioctl2 = 0, st_accepts = []\<rparr>"
  have "\<exists>v'. Server_Start demo_env (\<lambda>_. 0) ?se HybridObjectPool_init 9 3 demo_main = (Inr (), v')"
    by (simp add: Server_Start_def Start_def Let_def Multiplexer_Initialize_def Acceptor_Initialize_def GetHandle_def
        LoadAcceptExFunctions_def demo_main_def WithDefaults_def SocketError_def)
  then obtain v' where v': "Server_Start demo_env (\<lambda>_. 0) ?se HybridObjectPool_init 9 3 demo_main = (Inr (), v')" by blast
  obtain cbs where "sl_app (sv_lifecycle demo_main) = GameLoop_UseCallbacks cbs (new_game demo_env 1 100 (sv_config demo_main))"
    by (simp add: demo_main_def idle_server_def)
  then show ?thesis using Server_Start_ready [OF _ hybrid_init_balanced v'] v' by blast
qed

end
