(* ===== verification/ClientSocket.thy ===== *)
theory ClientSocket
  imports Framing
begin

text \<open>
  The blocking client side of the wire: \<open>WsaSession\<close>, \<open>TcpClientSocket\<close> and
  \<open>PacketStream\<close> (network/src/client).  The Winsock calls \<open>send\<close> and \<open>recv\<close> are
  parameters that act on an abstract world \<open>'w\<close>; what the proofs need of them
  is stated as \<open>send_contract\<close>, \<open>send_progress\<close> and \<open>recv_contract\<close>.
\<close>

section \<open>WsaSession\<close>

record WsaSession =
  ws_isInitialized :: bool

definition WsaSession_Initialize :: "int \<Rightarrow> WsaSession \<Rightarrow> (ENetworkError + unit) \<times> WsaSession" where
  "WsaSession_Initialize startupResult ws =
     (if ws_isInitialized ws then (Inr (), ws)
      else if startupResult \<noteq> 0 then (Inl WsaStartupFailed, ws)
      else (Inr (), ws\<lparr>ws_isInitialized := True\<rparr>))"

definition WsaSession_Cleanup :: "WsaSession \<Rightarrow> WsaSession \<times> OsCall list" where
  "WsaSession_Cleanup ws =
     (if \<not> ws_isInitialized ws then (ws, [])
      else (ws\<lparr>ws_isInitialized := False\<rparr>, [OsWSACleanup]))"

definition WsaSession_Create :: "int \<Rightarrow> ENetworkError + WsaSession" where
  "WsaSession_Create startupResult =
     (case WsaSession_Initialize startupResult \<lparr>ws_isInitialized = False\<rparr> of
        (Inl e, _) \<Rightarrow> Inl e
      | (Inr _, ws) \<Rightarrow> Inr ws)"

section \<open>TcpClientSocket\<close>

record TcpClientSocket =
  tcp_hasSession :: bool
  tcp_socketHandle :: SocketHandle

definition tcp_IsConnected :: "TcpClientSocket \<Rightarrow> bool" where
  "tcp_IsConnected s = (tcp_socketHandle s \<noteq> InvalidSocket)"

definition tcp_Close :: "TcpClientSocket \<Rightarrow> TcpClientSocket \<times> OsCall list" where
  "tcp_Close s =
     (if tcp_socketHandle s = InvalidSocket then (s, [])
      else (s\<lparr>tcp_socketHandle := InvalidSocket\<rparr>,
            [OsShutdown (tcp_socketHandle s), OsCloseSocket (tcp_socketHandle s)]))"

definition tcp_destroy :: "TcpClientSocket \<Rightarrow> TcpClientSocket \<times> OsCall list" where
  "tcp_destroy s = tcp_Close s"

text \<open>\<open>wsaSession\<close>: whether the pointer is set.\<close>

definition TcpClientSocket_new :: "bool \<Rightarrow> TcpClientSocket" where
  [simp]: "TcpClientSocket_new wsaSession = \<lparr>tcp_hasSession = wsaSession, tcp_socketHandle = InvalidSocket\<rparr>"

definition tcp_GetSocketHandle :: "TcpClientSocket \<Rightarrow> SocketHandle" where
  "tcp_GetSocketHandle s = tcp_socketHandle s"

text \<open>network/inc/util/NetworkUtil.hpp\<close>

definition IsValidPort :: "16 word \<Rightarrow> bool" where
  "IsValidPort port = (port > 0 \<and> port \<le> 65535)"

text \<open>The results of \<open>socket\<close>, \<open>InetPtonA\<close> and \<open>connect\<close>.\<close>

record ConnectEnv =
  env_socket :: SocketHandle
  env_pton :: int
  env_connect :: int

definition tcp_Connect ::
  "ConnectEnv \<Rightarrow> 16 word \<Rightarrow> TcpClientSocket \<Rightarrow> (ENetworkError + unit) \<times> TcpClientSocket \<times> OsCall list" where
  "tcp_Connect env port s =
     (if \<not> tcp_hasSession s then (Inl WsaNotInitialized, s, [])
      else case tcp_Close s of (s1, os1) \<Rightarrow>
        if \<not> IsValidPort port then (Inl WsaInvalidArgs, s1, os1)
        else let s2 = s1\<lparr>tcp_socketHandle := env_socket env\<rparr> in
          if tcp_socketHandle s2 = InvalidSocket then (Inl SocketCreateFailed, s2, os1)
          else if env_pton env \<noteq> 1 then
            (case tcp_Close s2 of (s3, os3) \<Rightarrow> (Inl WsaInvalidArgs, s3, os1 @ os3))
          else if env_connect env = SocketError then
            (case tcp_Close s2 of (s3, os3) \<Rightarrow> (Inl SocketConnectFailed, s3, os1 @ os3))
          else (Inr (), s2, os1))"

type_synonym 'w send_fn = "SocketHandle \<Rightarrow> byte list \<Rightarrow> 'w \<Rightarrow> int \<times> 'w"

function send_loop ::
  "'w send_fn \<Rightarrow> SocketHandle \<Rightarrow> byte list \<Rightarrow> nat \<Rightarrow> 'w \<Rightarrow> (ENetworkError + unit) \<times> 'w" where
  "send_loop send h data sentBytes w =
     (if sentBytes < length data then
        let remain = length data - sentBytes;
            currentChunkSize = (if remain < INT_MAX then remain else INT_MAX);
            (sent, w') = send h (take currentChunkSize (drop sentBytes data)) w
        in if sent = SocketError \<or> sent \<le> 0 then (Inl WsaSendFailed, w')
           else send_loop send h data (sentBytes + nat sent) w'
      else (Inr (), w))"
  by pat_completeness auto
termination
  by (relation "measure (\<lambda>(send, h, data, sentBytes, w). length data - sentBytes)") auto

declare send_loop.simps [simp del]

definition SendAll ::
  "'w send_fn \<Rightarrow> TcpClientSocket \<Rightarrow> byte list \<Rightarrow> 'w \<Rightarrow> (ENetworkError + unit) \<times> 'w" where
  "SendAll send s data w =
     (if \<not> tcp_IsConnected s then (Inl SocketInvalid, w)
      else send_loop send (tcp_socketHandle s) data 0 w)"

text \<open>A call of \<open>recv\<close> either fails with an error code or copies some bytes.\<close>

datatype recv_outcome = RecvFailed WsaError | Received "byte list"

type_synonym 'w recv_fn = "SocketHandle \<Rightarrow> int \<Rightarrow> 'w \<Rightarrow> recv_outcome \<times> 'w"

definition RecvSome ::
  "'w recv_fn \<Rightarrow> TcpClientSocket \<Rightarrow> nat \<Rightarrow> 'w \<Rightarrow> (ENetworkError + byte list) \<times> 'w" where
  "RecvSome recv s sz w =
     (if \<not> tcp_IsConnected s then (Inl SocketInvalid, w)
      else if sz = 0 then (Inr [], w)
      else case recv (tcp_socketHandle s) (int_cast sz) w of
        (RecvFailed wsaError, w') \<Rightarrow>
          (if wsaError = WSAEINTR \<or> wsaError = WSAENOTSOCK \<or> wsaError = WSAESHUTDOWN
           then (Inl SocketInvalid, w') else (Inl WsaRecvFailed, w'))
      | (Received bs, w') \<Rightarrow> (Inr bs, w'))"

section \<open>PacketStream\<close>

record PacketStream =
  ps_maxFrameSize :: nat

definition PacketStream_new :: "nat \<Rightarrow> PacketStream" where
  [simp]: "PacketStream_new maxSize = \<lparr>ps_maxFrameSize = maxSize\<rparr>"

definition SendFrame ::
  "'w send_fn \<Rightarrow> TcpClientSocket \<Rightarrow> byte list \<Rightarrow> 'w \<Rightarrow> (ENetworkError + unit) \<times> 'w" where
  "SendFrame send s payload w = SendAll send s (encode_frame payload) w"

text \<open>The loop of \<open>RecvExact\<close>: \<open>got\<close> is the part of the span filled so far.\<close>

function recv_loop ::
  "'w recv_fn \<Rightarrow> TcpClientSocket \<Rightarrow> nat \<Rightarrow> byte list \<Rightarrow> 'w \<Rightarrow> (ENetworkError + unit) \<times> byte list \<times> 'w" where
  "recv_loop recv s sz got w =
     (if length got < sz then
        case RecvSome recv s (sz - length got) w of
          (Inl e, w') \<Rightarrow> (Inl e, got, w')
        | (Inr chunk, w') \<Rightarrow>
            if chunk = [] then (Inl SocketInvalid, got, w')
            else recv_loop recv s sz (got @ chunk) w'
      else (Inr (), got, w))"
  by pat_completeness auto
termination
  by (relation "measure (\<lambda>(recv, s, sz, got, w). sz - length got)") (auto simp: diff_less_mono2)

declare recv_loop.simps [simp del]

definition RecvExact ::
  "'w recv_fn \<Rightarrow> TcpClientSocket \<Rightarrow> nat \<Rightarrow> 'w \<Rightarrow> (ENetworkError + unit) \<times> byte list \<times> 'w" where
  "RecvExact recv s sz w = recv_loop recv s sz [] w"

text \<open>\<open>vector::resize\<close>\<close>

definition vec_resize :: "nat \<Rightarrow> byte list \<Rightarrow> byte list" where
  "vec_resize n v = take n v @ replicate (n - length v) 0"

definition RecvFrame ::
  "'w recv_fn \<Rightarrow> TcpClientSocket \<Rightarrow> PacketStream \<Rightarrow> byte list \<Rightarrow> 'w
    \<Rightarrow> (ENetworkError + nat) \<times> byte list \<times> 'w" where
  "RecvFrame recv s ps outPayload w =
     (if ps_maxFrameSize ps = 0 then (Inl WsaInvalidArgs, outPayload, w)
      else if ps_maxFrameSize ps > maxFrameSize then (Inl WsaInvalidArgs, outPayload, w)
      else case RecvExact recv s kHeaderSize w of
        (Inl e, _, w1) \<Rightarrow> (Inl e, outPayload, w1)
      | (Inr _, hdr, w1) \<Rightarrow>
          let payloadSize = unat (decode_be32 hdr) in
          if payloadSize > ps_maxFrameSize ps then (Inl WsaNoBufferSpace, outPayload, w1)
          else let out = vec_resize payloadSize outPayload in
            if payloadSize = 0 then (Inr 0, out, w1)
            else case RecvExact recv s payloadSize w1 of
              (Inl e, bytes, w2) \<Rightarrow> (Inl e, write_at 0 bytes out, w2)
            | (Inr _, bytes, w2) \<Rightarrow> (Inr payloadSize, write_at 0 bytes out, w2))"

section \<open>Contracts of send and recv\<close>

text \<open>\<open>wire w\<close> is the byte string in flight.  A successful \<open>send\<close> puts a
  non-empty prefix of the data on it, a failed one nothing; \<open>recv\<close> takes a
  non-empty prefix of what is available, at most as long as asked.\<close>

definition send_contract :: "'w send_fn \<Rightarrow> ('w \<Rightarrow> byte list) \<Rightarrow> bool" where
  "send_contract send wire \<longleftrightarrow>
     (\<forall>h d w n w'. send h d w = (n, w') \<longrightarrow>
        (if n > 0 then nat n \<le> length d \<and> wire w' = wire w @ take (nat n) d
         else wire w' = wire w))"

definition send_progress :: "'w send_fn \<Rightarrow> bool" where
  "send_progress send \<longleftrightarrow> (\<forall>h d w. d \<noteq> [] \<longrightarrow> fst (send h d w) > 0)"

definition recv_contract :: "'w recv_fn \<Rightarrow> ('w \<Rightarrow> byte list) \<Rightarrow> bool" where
  "recv_contract recv wire \<longleftrightarrow>
     (\<forall>h n w. 0 < n \<and> wire w \<noteq> [] \<longrightarrow>
        (\<exists>bs w'. recv h n w = (Received bs, w') \<and> bs \<noteq> [] \<and> int (length bs) \<le> n
                 \<and> wire w = bs @ wire w'))"

lemma send_contractD:
  assumes "send_contract send wire" and "send h d w = (n, w')"
  shows "if n > 0 then nat n \<le> length d \<and> wire w' = wire w @ take (nat n) d
         else wire w' = wire w"
  using assms unfolding send_contract_def by blast

lemma send_loop_wire:
  assumes "send_contract send wire" and "send_loop send h data k w = (r, w')"
    and "k \<le> length data"
  shows "\<exists>m \<le> length data - k. wire w' = wire w @ take m (drop k data)
           \<and> (r = Inr () \<longrightarrow> m = length data - k)"
  using assms
proof (induction send h data k w arbitrary: r w' rule: send_loop.induct)
  case (1 send h data k w)
  define c where "c = (if length data - k < INT_MAX then length data - k else INT_MAX)"
  obtain n w1 where s: "send h (take c (drop k data)) w = (n, w1)" by fastforce
  have contract: "if n > 0 then nat n \<le> length (take c (drop k data))
      \<and> wire w1 = wire w @ take (nat n) (take c (drop k data)) else wire w1 = wire w"
    by (rule send_contractD [OF "1.prems"(1) s])
  have unfold: "send_loop send h data k w =
      (if k < length data then if n \<le> 0 then (Inl WsaSendFailed, w1)
         else send_loop send h data (k + nat n) w1 else (Inr (), w))"
    using s by (auto simp: send_loop.simps [of send h data k w] c_def Let_def SocketError_def)
  consider "k = length data" | "k < length data" "n \<le> 0" | "k < length data" "n > 0"
    using "1.prems"(3) by linarith
  then show ?case
  proof cases
    case 3
    have n: "nat n \<le> length data - k" "take (nat n) (take c (drop k data)) = take (nat n) (drop k data)"
      using contract 3 by (auto simp: min_def split: if_splits)
    have "send_loop send h data (k + nat n) w1 = (r, w')" using "1.prems"(2) unfold 3 by simp
    moreover have "k + nat n \<le> length data" using n(1) 3(1) by simp
    ultimately obtain m where m: "m \<le> length data - (k + nat n)"
        "wire w' = wire w1 @ take m (drop (k + nat n) data)"
        "r = Inr () \<longrightarrow> m = length data - (k + nat n)"
      using "1.IH" [OF 3(1) refl c_def s [symmetric] refl] 3 "1.prems"(1)
      by (auto simp: SocketError_def)
    have "take (nat n + m) (drop k data) = take (nat n) (drop k data) @ take m (drop (k + nat n) data)"
      by (subst take_add) (simp add: add.commute)
    then show ?thesis
      using m n contract 3 by (intro exI [of _ "nat n + m"]) auto
  qed (use "1.prems"(2) unfold contract in \<open>auto intro!: exI [of _ 0]\<close>)
qed

lemma send_loop_ok:
  assumes "send_contract send wire" and "send_progress send" and "k \<le> length data"
  shows "fst (send_loop send h data k w) = Inr ()"
  using assms
proof (induction send h data k w rule: send_loop.induct)
  case (1 send h data k w)
  define c where "c = (if length data - k < INT_MAX then length data - k else INT_MAX)"
  obtain n w1 where s: "send h (take c (drop k data)) w = (n, w1)" by fastforce
  show ?case
  proof (cases "k < length data")
    case True
    then have "take c (drop k data) \<noteq> []" by (auto simp: c_def INT_MAX_def)
    then have n: "n > 0" using "1.prems"(2) s unfolding send_progress_def by (metis fst_conv)
    then have "nat n \<le> length data - k"
      using send_contractD [OF "1.prems"(1) s] by simp
    then have "fst (send_loop send h data (k + nat n) w1) = Inr ()"
      using "1.IH" [OF True refl c_def s [symmetric] refl] n True "1.prems" by (auto simp: SocketError_def)
    then show ?thesis
      using True n s by (simp add: send_loop.simps [of send h data k w] c_def Let_def SocketError_def)
  qed (simp add: send_loop.simps)
qed

lemma recv_loop_exact:
  assumes "recv_contract recv wire" and "tcp_IsConnected s" and "sz \<le> INT_MAX"
    and "length got \<le> sz" and "wire w = bs @ rest" and "length got + length bs = sz"
  shows "\<exists>w'. recv_loop recv s sz got w = (Inr (), got @ bs, w') \<and> wire w' = rest"
  using assms
proof (induction recv s sz got w arbitrary: bs rule: recv_loop.induct)
  case (1 recv s sz got w)
  show ?case
  proof (cases "bs = []")
    case True
    then show ?thesis using "1.prems" by (simp add: recv_loop.simps)
  next
    case False
    let ?n = "sz - length got"
    have n: "0 < ?n" "int_cast ?n = int ?n" using False "1.prems" by (auto simp: int_cast_small)
    have "0 < int ?n \<and> wire w \<noteq> []" using False "1.prems"(5) n(1) by simp
    then obtain cs w1 where r: "recv (tcp_socketHandle s) (int ?n) w = (Received cs, w1)"
        "cs \<noteq> []" "length cs \<le> ?n" "wire w = cs @ wire w1"
      using "1.prems"(1) unfolding recv_contract_def by (metis of_nat_le_iff)
    have some: "RecvSome recv s ?n w = (Inr cs, w1)"
      using r n "1.prems"(2) by (simp add: RecvSome_def)
    have "length cs \<le> length bs" using r(3) "1.prems"(6) by linarith
    then obtain ds where ds: "bs = cs @ ds" "wire w1 = ds @ rest"
      using r(4) "1.prems"(5) by (auto simp: append_eq_append_conv2)
    have "\<exists>w'. recv_loop recv s sz (got @ cs) w1 = (Inr (), (got @ cs) @ ds, w') \<and> wire w' = rest"
      using "1.IH" [OF _ some [symmetric] refl] "1.prems" r ds n by auto
    then show ?thesis
      using some r(2) n(1) ds(1) by (simp add: recv_loop.simps [of recv s sz got w])
  qed
qed

section \<open>Properties of the client side\<close>

text \<open>\<open>SendAll\<close> on a connected socket puts a prefix of the data on the
  wire, and the whole data when it reports success; with a transport that
  always makes progress it does report success, whatever chunks \<open>send\<close>
  accepts.\<close>

theorem SendAll_complete:
  assumes "send_contract send wire" and "tcp_IsConnected s"
  shows "(\<forall>r w'. SendAll send s data w = (r, w') \<longrightarrow>
            (\<exists>m \<le> length data. wire w' = wire w @ take m data \<and> (r = Inr () \<longrightarrow> m = length data)))
    \<and> (send_progress send \<longrightarrow> fst (SendAll send s data w) = Inr ())"
  using send_loop_wire [OF assms(1), of "tcp_socketHandle s" data 0 w]
    send_loop_ok [OF assms(1), of 0 data "tcp_socketHandle s" w] assms(2)
  by (auto simp: SendAll_def)

lemma RecvExact_exact:
  assumes "recv_contract recv wire" and "tcp_IsConnected s" and "length bs \<le> INT_MAX"
    and "wire w = bs @ rest"
  shows "\<exists>w'. RecvExact recv s (length bs) w = (Inr (), bs, w') \<and> wire w' = rest"
  using recv_loop_exact [OF assms(1,2,3) _ assms(4), of "[]"] by (simp add: RecvExact_def)

lemma write_at_resize: "length bs = n \<Longrightarrow> write_at 0 bs (vec_resize n v) = bs"
  by (simp add: write_at_def vec_resize_def)

lemma RecvFrame_frame:
  assumes "recv_contract recv wire" and "tcp_IsConnected s"
    and "0 < ps_maxFrameSize ps" and "ps_maxFrameSize ps \<le> maxFrameSize"
    and "length p \<le> ps_maxFrameSize ps" and "wire w = encode_frame p @ rest"
  shows "\<exists>w'. RecvFrame recv s ps out w = (Inr (length p), p, w') \<and> wire w' = rest"
proof -
  have len: "length p < 2 ^ 32" and max: "length p \<le> INT_MAX"
    using assms(4,5) by (simp_all add: maxFrameSize_def INT_MAX_def)
  let ?h = "encode_be32 (of_nat (length p))"
  have hd: "unat (decode_be32 ?h) = length p"
    using decode_encode_be32 [of _ "[]"] len by (simp add: unat_of_nat32)
  obtain w1 where w1: "RecvExact recv s kHeaderSize w = (Inr (), ?h, w1)" "wire w1 = p @ rest"
    using RecvExact_exact [OF assms(1,2), of ?h w "p @ rest"] assms(6) len
    by (auto simp: encode_frame_small kHeaderSize_def INT_MAX_def)
  obtain w2 where w2: "RecvExact recv s (length p) w1 = (Inr (), p, w2)" "wire w2 = rest"
    using RecvExact_exact [OF assms(1,2) max w1(2)] by auto
  show ?thesis
    using assms(3-5) w1 w2 hd
    by (cases "p = []") (auto simp: RecvFrame_def Let_def write_at_resize, simp add: vec_resize_def)
qed

lemma SendFrame_wire:
  assumes "send_contract send wire" and "send_progress send" and "tcp_IsConnected a"
  shows "\<exists>w1. SendFrame send a p w = (Inr (), w1) \<and> wire w1 = wire w @ encode_frame p"
proof -
  obtain r w1 where s: "SendFrame send a p w = (r, w1)" by fastforce
  have "r = Inr ()"
    using send_loop_ok [OF assms(1,2), of 0] assms(3) s
    by (auto simp: SendFrame_def SendAll_def dest: arg_cong [of _ _ fst])
  then show ?thesis
    using send_loop_wire [OF assms(1), of "tcp_socketHandle a" "encode_frame p" 0 w r w1] s assms(3)
    by (auto simp: SendFrame_def SendAll_def)
qed

text \<open>C10: a frame written by \<open>SendFrame\<close> is read back by \<open>RecvFrame\<close> byte for
  byte, in any fragmentation \<open>send\<close> and \<open>recv\<close> choose, whatever was in the
  output vector, and nothing of what follows on the wire is consumed.\<close>

theorem frame_round_trip:
  assumes "send_contract send wire" and "send_progress send" and "recv_contract recv wire"
    and "tcp_IsConnected a" and "tcp_IsConnected b"
    and "0 < ps_maxFrameSize ps" and "ps_maxFrameSize ps \<le> maxFrameSize"
    and "length p \<le> ps_maxFrameSize ps" and "wire w = []"
  shows "\<exists>w1 w2. SendFrame send a p w = (Inr (), w1)
    \<and> RecvFrame recv b ps out w1 = (Inr (length p), p, w2) \<and> wire w2 = []"
  using SendFrame_wire [OF assms(1,2,4), of p w] RecvFrame_frame [OF assms(3,5-8), of _ "[]" out] assms(9)
  by fastforce

text \<open>A transport that moves one byte per call satisfies the contracts.\<close>

definition byte_send :: "byte list send_fn" where
  "byte_send h d w = (if d = [] then (0, w) else (1, w @ [hd d]))"

definition byte_recv :: "byte list recv_fn" where
  "byte_recv h n w = (Received (take 1 w), drop 1 w)"

lemma byte_transport:
  "send_contract byte_send (\<lambda>w. w)" "send_progress byte_send" "recv_contract byte_recv (\<lambda>w. w)"
  by (auto simp: send_contract_def send_progress_def recv_contract_def byte_send_def byte_recv_def
                 take_Suc Suc_le_eq neq_Nil_conv split: if_splits)

lemma SendAll_complete_witness:
  "fst (SendAll byte_send \<lparr>tcp_hasSession = True, tcp_socketHandle = 7\<rparr> [1, 2, 3] []) = Inr ()"
  using SendAll_complete [OF byte_transport(1), of "\<lparr>tcp_hasSession = True, tcp_socketHandle = 7\<rparr>"]
    byte_transport(2)
  by (simp add: tcp_IsConnected_def InvalidSocket_def)

lemma frame_round_trip_witness:
  "\<exists>w1 w2. SendFrame byte_send \<lparr>tcp_hasSession = True, tcp_socketHandle = 7\<rparr> [1, 2, 3] [] = (Inr (), w1)
    \<and> RecvFrame byte_recv \<lparr>tcp_hasSession = True, tcp_socketHandle = 9\<rparr> \<lparr>ps_maxFrameSize = 65536\<rparr> [] w1
       = (Inr (length ([1, 2, 3] :: byte list)), [1, 2, 3], w2) \<and> w2 = []"
  by (rule frame_round_trip [OF byte_transport])
     (simp_all add: tcp_IsConnected_def InvalidSocket_def maxFrameSize_def)

text \<open>\<open>Connect\<close> reports success exactly when it leaves the socket open, on
  every path: each failure after the socket was created closes it again, and a
  socket open before the call is shut down first.\<close>

theorem Connect_ok_iff_open:
  assumes "tcp_hasSession s" and "tcp_Connect env port s = (r, s', os)"
  shows "(r = Inr () \<longleftrightarrow> tcp_IsConnected s')
    \<and> (tcp_IsConnected s \<longrightarrow>
         [OsShutdown (tcp_socketHandle s), OsCloseSocket (tcp_socketHandle s)] = take 2 os)
    \<and> (r = Inr () \<longrightarrow> port \<noteq> 0 \<and> tcp_socketHandle s' = env_socket env)"
  using assms
  by (auto simp: tcp_Connect_def tcp_Close_def tcp_IsConnected_def IsValidPort_def Let_def
           split: if_splits)

lemma Connect_ok_iff_open_witness:
  "\<exists>r s' os. tcp_Connect \<lparr>env_socket = 5, env_pton = 1, env_connect = 0\<rparr> 8080
      \<lparr>tcp_hasSession = True, tcp_socketHandle = InvalidSocket\<rparr> = (r, s', os) \<and> tcp_IsConnected s'"
  using Connect_ok_iff_open
    [of "\<lparr>tcp_hasSession = True, tcp_socketHandle = InvalidSocket\<rparr>"
        "\<lparr>env_socket = 5, env_pton = 1, env_connect = 0\<rparr>" 8080 "Inr ()"
        "\<lparr>tcp_hasSession = True, tcp_socketHandle = 5\<rparr>" "[]"]
  by (simp add: tcp_Connect_def tcp_Close_def tcp_IsConnected_def IsValidPort_def
                InvalidSocket_def SocketError_def)

section \<open>Release\<close>

interpretation wsa_session: releasable WsaSession_Cleanup
  by unfold_locales (simp add: WsaSession_Cleanup_def)

interpretation tcp_socket: releasable tcp_Close
  by unfold_locales (simp add: tcp_Close_def)

end
