(* ===== verification/MetricWindows.thy ===== *)
theory MetricWindows
  imports Prelude "HOL-Library.Multiset"
begin

text \<open>
  Timing windows (lib/inc/metrics/TimingWindow.h), which the metrics of server
  and client share: an observation adds to a count, a total and a maximum, a
  snapshot takes the three values and leaves zero.

  The three values are separate atomics, and observations and snapshots run on
  different threads.  \<open>ObserveWindow\<close> and \<open>DrainWindow\<close> are the methods run alone;
  \<open>window_access\<close> is one atomic access of them, and \<open>window_step\<close> interleaves the
  accesses of any number of threads.  The server writes the maximum with a plain
  load and store, the client with a compare-and-exchange loop.
\<close>

record TimingWindow =
  tw_count :: uint64
  tw_totalNanoseconds :: uint64
  tw_maxNanoseconds :: uint64

definition empty_window :: TimingWindow where
  "empty_window = \<lparr>tw_count = 0, tw_totalNanoseconds = 0, tw_maxNanoseconds = 0\<rparr>"

definition ObserveMax :: "uint64 \<Rightarrow> uint64 \<Rightarrow> uint64" where
  "ObserveMax v currentMax = (if v > currentMax then v else currentMax)"

definition ObserveWindow :: "uint64 \<Rightarrow> TimingWindow \<Rightarrow> TimingWindow" where
  "ObserveWindow nanoseconds w =
     w\<lparr>tw_count := tw_count w + 1, tw_totalNanoseconds := tw_totalNanoseconds w + nanoseconds,
       tw_maxNanoseconds := ObserveMax nanoseconds (tw_maxNanoseconds w)\<rparr>"

definition DrainWindow :: "TimingWindow \<Rightarrow> TimingWindow \<times> TimingWindow" where
  "DrainWindow w = (w, empty_window)"

section \<open>The accesses of concurrent threads\<close>

datatype MaxUpdate = PlainStore | CompareExchange

text \<open>Where a thread is: before the count, the total, the load of the maximum,
  its store, the next exchange with the value it expects; and the three
  exchanges of a snapshot with what it has taken so far.\<close>

datatype WindowOp =
    O_Count uint64 | O_Total uint64 | O_Load uint64 | O_Store uint64 | O_Cas uint64 uint64
  | D_Count | D_Total uint64 | D_Max uint64 uint64

fun window_access ::
  "MaxUpdate \<Rightarrow> WindowOp \<Rightarrow> TimingWindow \<Rightarrow> TimingWindow \<times> WindowOp option \<times> TimingWindow option" where
  "window_access v (O_Count n) w = (w\<lparr>tw_count := tw_count w + 1\<rparr>, Some (O_Total n), None)"
| "window_access v (O_Total n) w =
     (w\<lparr>tw_totalNanoseconds := tw_totalNanoseconds w + n\<rparr>, Some (O_Load n), None)"
| "window_access PlainStore (O_Load n) w =
     (w, if n > tw_maxNanoseconds w then Some (O_Store n) else None, None)"
| "window_access CompareExchange (O_Load n) w =
     (w, if tw_maxNanoseconds w < n then Some (O_Cas n (tw_maxNanoseconds w)) else None, None)"
| "window_access v (O_Store n) w = (w\<lparr>tw_maxNanoseconds := n\<rparr>, None, None)"
| "window_access v (O_Cas n observed) w =
     (if tw_maxNanoseconds w = observed then (w\<lparr>tw_maxNanoseconds := n\<rparr>, None, None)
      else (w, if tw_maxNanoseconds w < n then Some (O_Cas n (tw_maxNanoseconds w)) else None, None))"
| "window_access v D_Count w = (w\<lparr>tw_count := 0\<rparr>, Some (D_Total (tw_count w)), None)"
| "window_access v (D_Total c) w =
     (w\<lparr>tw_totalNanoseconds := 0\<rparr>, Some (D_Max c (tw_totalNanoseconds w)), None)"
| "window_access v (D_Max c t) w =
     (w\<lparr>tw_maxNanoseconds := 0\<rparr>, None,
      Some \<lparr>tw_count = c, tw_totalNanoseconds = t, tw_maxNanoseconds = tw_maxNanoseconds w\<rparr>)"

text \<open>A window with the operations under way, the windows taken by finished
  snapshots and the observations begun.\<close>

record WindowRun =
  wr_window :: TimingWindow
  wr_active :: "WindowOp multiset"
  wr_drained :: "TimingWindow list"
  wr_observed :: "uint64 list"

definition window_start :: WindowRun where
  "window_start = \<lparr>wr_window = empty_window, wr_active = {#}, wr_drained = [], wr_observed = []\<rparr>"

text \<open>\<open>compare_exchange_weak\<close> may fail although the value is the expected one.\<close>

inductive window_step :: "MaxUpdate \<Rightarrow> WindowRun \<Rightarrow> WindowRun \<Rightarrow> bool" for v where
  begin_observe: "window_step v s (s\<lparr>wr_active := add_mset (O_Count n) (wr_active s), wr_observed := n # wr_observed s\<rparr>)"
| begin_drain: "window_step v s (s\<lparr>wr_active := add_mset D_Count (wr_active s)\<rparr>)"
| access: "wr_active s = add_mset x rest \<Longrightarrow> window_access v x (wr_window s) = (w', nxt, result) \<Longrightarrow>
    window_step v s (s\<lparr>wr_window := w', wr_active := rest + mset_set (set_option nxt),
                       wr_drained := case_option [] (\<lambda>r. [r]) result @ wr_drained s\<rparr>)"
| spurious: "wr_active s = add_mset (O_Cas n observed) rest \<Longrightarrow> tw_maxNanoseconds (wr_window s) < n \<Longrightarrow>
    window_step v s (s\<lparr>wr_active := add_mset (O_Cas n (tw_maxNanoseconds (wr_window s))) rest\<rparr>)"

abbreviation window_reachable :: "MaxUpdate \<Rightarrow> WindowRun \<Rightarrow> bool" where
  "window_reachable v \<equiv> (window_step v)\<^sup>*\<^sup>* window_start"

text \<open>What the operations under way still owe to, or hold of, count and total.\<close>

fun held_count :: "WindowOp \<Rightarrow> uint64" where
  "held_count (O_Count n) = 1"
| "held_count (D_Total c) = c"
| "held_count (D_Max c t) = c"
| "held_count _ = 0"

fun held_total :: "WindowOp \<Rightarrow> uint64" where
  "held_total (O_Count n) = n"
| "held_total (O_Total n) = n"
| "held_total (D_Max c t) = t"
| "held_total _ = 0"

fun observing :: "WindowOp \<Rightarrow> uint64 set" where
  "observing (O_Count n) = {n}"
| "observing (O_Total n) = {n}"
| "observing (O_Load n) = {n}"
| "observing (O_Store n) = {n}"
| "observing (O_Cas n c) = {n}"
| "observing _ = {}"

definition windows :: "WindowRun \<Rightarrow> TimingWindow set" where
  "windows s = insert (wr_window s) (set (wr_drained s))"

definition sums_inv :: "WindowRun \<Rightarrow> bool" where
  "sums_inv s \<longleftrightarrow>
     tw_count (wr_window s) + sum_list (map tw_count (wr_drained s)) + sum_mset (image_mset held_count (wr_active s))
       = of_nat (length (wr_observed s))
   \<and> tw_totalNanoseconds (wr_window s) + sum_list (map tw_totalNanoseconds (wr_drained s))
       + sum_mset (image_mset held_total (wr_active s)) = sum_list (wr_observed s)"

definition max_bound :: "WindowRun \<Rightarrow> bool" where
  "max_bound s \<longleftrightarrow> (\<forall>x \<in># wr_active s. observing x \<subseteq> set (wr_observed s))
     \<and> (\<forall>w \<in> windows s. tw_maxNanoseconds w = 0 \<or> tw_maxNanoseconds w \<in> set (wr_observed s))"

text \<open>Every observation is under way or below the maximum of some window, and
  no plain store is pending.\<close>

definition max_cover :: "WindowRun \<Rightarrow> bool" where
  "max_cover s \<longleftrightarrow> (\<forall>x \<in># wr_active s. \<forall>n. x \<noteq> O_Store n)
     \<and> (\<forall>x \<in># wr_active s. \<forall>n c. x = O_Cas n c \<longrightarrow> c < n)
     \<and> (\<forall>n \<in> set (wr_observed s). (\<exists>x \<in># wr_active s. n \<in> observing x) \<or> (\<exists>w \<in> windows s. n \<le> tw_maxNanoseconds w))"

lemma sums_inv_step: "window_step v s s' \<Longrightarrow> sums_inv s \<Longrightarrow> sums_inv s'"
proof (induction rule: window_step.induct)
  case (access s x rest w' nxt result)
  then show ?case
    by (cases x; cases v) (auto simp: sums_inv_def algebra_simps split: if_splits)
qed (auto simp: sums_inv_def algebra_simps)

lemma max_bound_step: "window_step v s s' \<Longrightarrow> max_bound s \<Longrightarrow> max_bound s'"
proof (induction rule: window_step.induct)
  case (access s x rest w' nxt result)
  then show ?case
    by (cases x; cases v) (auto simp: max_bound_def windows_def split: if_splits)
qed (auto simp: max_bound_def windows_def)

lemma max_cover_step: "window_step CompareExchange s s' \<Longrightarrow> max_cover s \<Longrightarrow> max_cover s'"
proof (induction rule: window_step.induct)
  case (access s x rest w' nxt result)
  then show ?case
    by (cases x) (force simp: max_cover_def windows_def split: if_splits)+
qed (force simp: max_cover_def windows_def)+

text \<open>Run without interference, the accesses are the methods.\<close>

fun run_alone :: "nat \<Rightarrow> MaxUpdate \<Rightarrow> WindowOp \<Rightarrow> TimingWindow \<Rightarrow> TimingWindow \<times> TimingWindow option" where
  "run_alone fuel v x w =
     (case window_access v x w of
        (w', None, result) \<Rightarrow> (w', result)
      | (w', Some x', result) \<Rightarrow> (case fuel of 0 \<Rightarrow> (w', result) | Suc k \<Rightarrow> run_alone k v x' w'))"

lemma run_alone_ObserveWindow: "run_alone 3 v (O_Count n) w = (ObserveWindow n w, None)"
  by (cases v) (auto simp: numeral_3_eq_3 ObserveWindow_def ObserveMax_def)

lemma run_alone_DrainWindow: "run_alone 2 v D_Count w = (snd (DrainWindow w), Some (fst (DrainWindow w)))"
  by (simp add: numeral_2_eq_2 DrainWindow_def empty_window_def)

lemma window_reachable_inv:
  assumes "window_reachable v s"
  shows "sums_inv s \<and> max_bound s \<and> (v = CompareExchange \<longrightarrow> max_cover s)"
  using assms
proof (induction rule: rtranclp_induct)
  case base
  show ?case
    by (simp add: sums_inv_def max_bound_def max_cover_def windows_def window_start_def empty_window_def)
next
  case (step s s')
  then show ?case using sums_inv_step max_bound_step max_cover_step by blast
qed

text \<open>C18: however observations and snapshots of a timing window interleave, once
  none is under way nothing has been counted twice or lost: the counts and the
  totals of all snapshots taken, plus what the window still holds, are the number
  and the sum of the observations (in 64 bits).  No window reports a maximum that
  was not observed; and with the compare-and-exchange loop of the client every
  observation is covered by the maximum of a snapshot or of the window.\<close>

theorem windows_conserved:
  assumes "window_reachable v s" and "wr_active s = {#}"
  shows "tw_count (wr_window s) + sum_list (map tw_count (wr_drained s)) = of_nat (length (wr_observed s))
    \<and> tw_totalNanoseconds (wr_window s) + sum_list (map tw_totalNanoseconds (wr_drained s)) = sum_list (wr_observed s)
    \<and> (\<forall>w \<in> windows s. tw_maxNanoseconds w = 0 \<or> tw_maxNanoseconds w \<in> set (wr_observed s))
    \<and> (v = CompareExchange \<longrightarrow> (\<forall>n \<in> set (wr_observed s). \<exists>w \<in> windows s. n \<le> tw_maxNanoseconds w))"
  using window_reachable_inv [OF assms(1)] assms(2)
  by (simp add: sums_inv_def max_bound_def max_cover_def)

text \<open>Two concurrent observations, of 10 and of 5 nanoseconds, which both load the
  maximum before either writes it.\<close>

definition two_observers :: "WindowOp multiset \<Rightarrow> uint64 \<Rightarrow> WindowRun" where
  "two_observers ops m = \<lparr>wr_window = \<lparr>tw_count = 2, tw_totalNanoseconds = 15, tw_maxNanoseconds = m\<rparr>,
     wr_active = ops, wr_drained = [], wr_observed = [5, 10]\<rparr>"

lemma window_accessI:
  "window_reachable v s \<Longrightarrow> wr_active s = add_mset x rest \<Longrightarrow> window_access v x (wr_window s) = (w', nxt, None)
    \<Longrightarrow> s' = s\<lparr>wr_window := w', wr_active := rest + mset_set (set_option nxt)\<rparr> \<Longrightarrow> window_reachable v s'"
  using window_step.access [of s x rest v w' nxt None] by (auto intro: rtranclp.rtrancl_into_rtrancl)

lemma two_observers_loaded: "window_reachable v (two_observers {#O_Load 5, O_Load 10#} 0)"
proof -
  let ?mk = "\<lambda>c t ops obs. \<lparr>wr_window = \<lparr>tw_count = c, tw_totalNanoseconds = t, tw_maxNanoseconds = 0\<rparr>,
     wr_active = ops, wr_drained = [], wr_observed = obs\<rparr> :: WindowRun"
  have "window_step v window_start (?mk 0 0 {#O_Count 10#} [10])"
    using window_step.begin_observe [of v window_start 10] by (simp add: window_start_def empty_window_def)
  then have a: "window_reachable v (?mk 0 0 {#O_Count 10#} [10])" by blast
  have b: "window_reachable v (?mk 0 0 {#O_Count 5, O_Count 10#} [5, 10])"
    using window_step.begin_observe [of v "?mk 0 0 {#O_Count 10#} [10]" 5]
    by (intro rtranclp.rtrancl_into_rtrancl [OF a]) simp
  have c: "window_reachable v (?mk 1 0 {#O_Total 5, O_Count 10#} [5, 10])"
    by (rule window_accessI [OF b, of "O_Count 5" "{#O_Count 10#}"]) (auto simp: add_mset_commute)
  have d: "window_reachable v (?mk 2 0 {#O_Total 5, O_Total 10#} [5, 10])"
    by (rule window_accessI [OF c, of "O_Count 10" "{#O_Total 5#}"]) (auto simp: add_mset_commute)
  have e: "window_reachable v (?mk 2 5 {#O_Load 5, O_Total 10#} [5, 10])"
    by (rule window_accessI [OF d, of "O_Total 5" "{#O_Total 10#}"]) (auto simp: add_mset_commute)
  show ?thesis
    by (rule window_accessI [OF e, of "O_Total 10" "{#O_Load 5#}"]) (auto simp: two_observers_def add_mset_commute)
qed

lemma exchanged_maximum: "window_reachable CompareExchange (two_observers {#} 10)"
proof -
  have a: "window_reachable CompareExchange (two_observers {#O_Cas 5 0, O_Load 10#} 0)"
    by (rule window_accessI [OF two_observers_loaded, of "O_Load 5" "{#O_Load 10#}"])
       (auto simp: two_observers_def add_mset_commute)
  have b: "window_reachable CompareExchange (two_observers {#O_Cas 5 0, O_Cas 10 0#} 0)"
    by (rule window_accessI [OF a, of "O_Load 10" "{#O_Cas 5 0#}"]) (auto simp: two_observers_def add_mset_commute)
  have c: "window_reachable CompareExchange (two_observers {#O_Cas 5 0#} 10)"
    by (rule window_accessI [OF b, of "O_Cas 10 0" "{#O_Cas 5 0#}"]) (auto simp: two_observers_def add_mset_commute)
  show ?thesis
    by (rule window_accessI [OF c, of "O_Cas 5 0" "{#}"]) (auto simp: two_observers_def)
qed

lemma windows_conserved_witness:
  "\<exists>s. wr_observed s = [5, 10] \<and> wr_active s = {#} \<and> tw_totalNanoseconds (wr_window s) = 15
     \<and> (\<exists>w \<in> windows s. 10 \<le> tw_maxNanoseconds w)"
  using windows_conserved [OF exchanged_maximum] by (intro exI [of _ "two_observers {#} 10"])
    (simp add: two_observers_def windows_def)

text \<open>The plain load and store of the server's \<open>ObserveMax\<close> can lose the
  maximum: after two observations of 10 and 5 nanoseconds, both finished and with
  no snapshot in between, the window can report 5.\<close>

theorem ObserveMax_race:
  "\<exists>s. window_reachable PlainStore s \<and> wr_active s = {#} \<and> wr_observed s = [5, 10] \<and> wr_drained s = []
     \<and> tw_maxNanoseconds (wr_window s) = 5"
proof -
  have a: "window_reachable PlainStore (two_observers {#O_Store 5, O_Load 10#} 0)"
    by (rule window_accessI [OF two_observers_loaded, of "O_Load 5" "{#O_Load 10#}"])
       (auto simp: two_observers_def add_mset_commute)
  have b: "window_reachable PlainStore (two_observers {#O_Store 5, O_Store 10#} 0)"
    by (rule window_accessI [OF a, of "O_Load 10" "{#O_Store 5#}"]) (auto simp: two_observers_def add_mset_commute)
  have c: "window_reachable PlainStore (two_observers {#O_Store 5#} 10)"
    by (rule window_accessI [OF b, of "O_Store 10" "{#O_Store 5#}"]) (auto simp: two_observers_def add_mset_commute)
  have "window_reachable PlainStore (two_observers {#} 5)"
    by (rule window_accessI [OF c, of "O_Store 5" "{#}"]) (auto simp: two_observers_def)
  then show ?thesis by (intro exI [of _ "two_observers {#} 5"]) (simp add: two_observers_def)
qed

end
