(* ===== verification/MetricsSupport.thy ===== *)
theory MetricsSupport
  imports Toml MetricWindows
begin

text \<open>
  The helpers behind the metrics files (ServerMetricsSupport.cpp), the
  configuration from the environment (ServerMetricsConfig.cpp,
  ClientMetricsConfig.cpp) and the manifest of a run (RunManifest.cpp).

  Character classes are those of the C locale.  A system time is the number of
  100-nanosecond ticks since 1970, which is the period of \<open>system_clock\<close> on the
  platform; \<open>gmtime_s\<close> is the Gregorian calendar.  A path is its text.  The
  arithmetic of \<open>double\<close> and its fixed-point printing are an argument (\<open>'d Fp\<close>):
  nothing proved here depends on how it rounds.
\<close>

section \<open>Floating point\<close>

record 'd Fp =
  fp_of_uint64 :: "uint64 \<Rightarrow> 'd"
  fp_of_int :: "int \<Rightarrow> 'd"
  fp_literal :: "string \<Rightarrow> 'd"
  fp_add :: "'d \<Rightarrow> 'd \<Rightarrow> 'd"
  fp_mul :: "'d \<Rightarrow> 'd \<Rightarrow> 'd"
  fp_div :: "'d \<Rightarrow> 'd \<Rightarrow> 'd"
  fp_less :: "'d \<Rightarrow> 'd \<Rightarrow> bool"
  fp_le :: "'d \<Rightarrow> 'd \<Rightarrow> bool"
  fp_fixed :: "nat \<Rightarrow> 'd \<Rightarrow> string"

abbreviation fp_zero :: "'d Fp \<Rightarrow> 'd" where
  "fp_zero fp \<equiv> fp_literal fp ''0.0''"

text \<open>\<open>std::max\<close> returns its second argument only when the first is less.\<close>

definition fp_max :: "'d Fp \<Rightarrow> 'd \<Rightarrow> 'd \<Rightarrow> 'd" where
  "fp_max fp a b = (if fp_less fp a b then b else a)"

section \<open>Strings\<close>

definition isspace :: "char \<Rightarrow> bool" where
  "isspace c = (let n = of_char c :: nat in n = 32 \<or> (9 \<le> n \<and> n \<le> 13))"

definition Support_Trim :: "string \<Rightarrow> string" where
  "Support_Trim s = rev (dropWhile isspace (rev (dropWhile isspace s)))"

definition tolower :: "char \<Rightarrow> char" where
  "tolower c = (let n = of_char c :: nat in if 65 \<le> n \<and> n \<le> 90 then char_of (n + 32) else c)"

definition ToLower :: "string \<Rightarrow> string" where
  "ToLower s = map tolower s"

definition Support_ParseBool :: "string \<Rightarrow> bool \<Rightarrow> bool" where
  "Support_ParseBool value0 fallback =
     (let s = ToLower (Support_Trim value0) in
      if s = [] then fallback
      else if s = ''1'' \<or> s = ''true'' \<or> s = ''yes'' \<or> s = ''on'' then True
      else if s = ''0'' \<or> s = ''false'' \<or> s = ''no'' \<or> s = ''off'' then False
      else fallback)"

text \<open>\<open>from_chars\<close> reads the longest run of digits; the value has to fit 64 bits.\<close>

definition ParseUnsigned :: "string \<Rightarrow> uint64 \<Rightarrow> uint64" where
  "ParseUnsigned value0 fallback =
     (let s = Support_Trim value0 in
      if s = [] then fallback
      else let digits = takeWhile IsDigit s;
               parsed = foldl (\<lambda>acc c. acc * 10 + nat (digit_value c)) 0 digits
           in if digits = [] \<or> parsed \<ge> 2 ^ 64 \<or> length digits \<noteq> length s then fallback else of_nat parsed)"

text \<open>The environment gives the value of a variable, or nothing.\<close>

definition ReadEnv :: "(string \<Rightarrow> string option) \<Rightarrow> string \<Rightarrow> string option" where
  "ReadEnv env name =
     (case env name of None \<Rightarrow> None
      | Some raw \<Rightarrow> let result = Support_Trim raw in if result \<noteq> [] then Some result else None)"

definition ReadEnvPath :: "(string \<Rightarrow> string option) \<Rightarrow> string \<Rightarrow> string" where
  "ReadEnvPath env name = (case ReadEnv env name of Some v \<Rightarrow> v | None \<Rightarrow> [])"

definition invalid_in_path :: "char \<Rightarrow> bool" where
  "invalid_in_path c =
     (of_char c < (32 :: nat) \<or> c = CHR ''<'' \<or> c = CHR ''>'' \<or> c = CHR '':'' \<or> c = CHR 0x22 \<or> c = CHR ''/''
      \<or> c = CHR 0x5C \<or> c = CHR ''|'' \<or> c = CHR ''?'' \<or> c = CHR ''*'' \<or> isspace c)"

definition SanitizePathComponent :: "string \<Rightarrow> string" where
  "SanitizePathComponent s = map (\<lambda>c. if invalid_in_path c then CHR ''_'' else c) s"

definition FileTimeToUint64 :: "uint32 \<Rightarrow> uint32 \<Rightarrow> uint64" where
  "FileTimeToUint64 dwLowDateTime dwHighDateTime = push_bit 32 (ucast dwHighDateTime) + ucast dwLowDateTime"

section \<open>Times\<close>

definition leap :: "nat \<Rightarrow> bool" where
  "leap y = (y mod 4 = 0 \<and> (y mod 100 \<noteq> 0 \<or> y mod 400 = 0))"

definition year_days :: "nat \<Rightarrow> nat" where
  "year_days y = (if leap y then 366 else 365)"

definition month_days :: "nat \<Rightarrow> nat list" where
  "month_days y = [31, if leap y then 29 else 28, 31, 30, 31, 30, 31, 31, 30, 31, 30, 31]"

function split_year :: "nat \<Rightarrow> nat \<Rightarrow> nat \<times> nat" where
  "split_year y d = (if d < year_days y then (y, d) else split_year (Suc y) (d - year_days y))"
  by pat_completeness auto
termination by (relation "measure snd") (auto simp: year_days_def)

declare split_year.simps [simp del]

fun split_month :: "nat \<Rightarrow> nat list \<Rightarrow> nat \<Rightarrow> nat \<times> nat" where
  "split_month m [] d = (m, d)"
| "split_month m (n # ns) d = (if d < n then (m, d) else split_month (Suc m) ns (d - n))"

record tm =
  tm_year :: nat
  tm_mon :: nat
  tm_mday :: nat
  tm_hour :: nat
  tm_min :: nat
  tm_sec :: nat

definition gmtime :: "nat \<Rightarrow> tm" where
  "gmtime t =
     (case split_year 1970 (t div 86400) of (y, yd) \<Rightarrow>
      case split_month 1 (month_days y) yd of (m, md) \<Rightarrow>
        \<lparr>tm_year = y, tm_mon = m, tm_mday = Suc md, tm_hour = t mod 86400 div 3600,
         tm_min = t mod 3600 div 60, tm_sec = t mod 60\<rparr>)"

definition pad :: "nat \<Rightarrow> nat \<Rightarrow> string" where
  "pad w n = (let s = render_nat n in replicate (w - length s) (CHR ''0'') @ s)"

type_synonym ticks = nat

definition FormatUtcTime :: "ticks \<Rightarrow> string" where
  "FormatUtcTime tp =
     (let seconds = tp div 10000000; fractional = tp mod 10000000 div 10000; utc = gmtime seconds in
      pad 4 (tm_year utc) @ ''-'' @ pad 2 (tm_mon utc) @ ''-'' @ pad 2 (tm_mday utc) @ ''T''
        @ pad 2 (tm_hour utc) @ '':'' @ pad 2 (tm_min utc) @ '':'' @ pad 2 (tm_sec utc)
        @ ''.'' @ pad 3 fractional @ ''Z'')"

definition FormatCompactTimestamp :: "ticks \<Rightarrow> string" where
  "FormatCompactTimestamp tp =
     (let seconds = tp div 10000000; fractional = tp mod 10000000 div 10000; utc = gmtime seconds in
      pad 4 (tm_year utc) @ pad 2 (tm_mon utc) @ pad 2 (tm_mday utc) @ ''-''
        @ pad 2 (tm_hour utc) @ pad 2 (tm_min utc) @ pad 2 (tm_sec utc)
        @ (if fractional > 0 then ''-'' @ pad 3 fractional else []))"

section \<open>Processes\<close>

text \<open>\<open>snapshot\<close>: the owning process of every thread in the system, or nothing when
  \<open>CreateToolhelp32Snapshot\<close> fails.\<close>

definition CountProcessThreads :: "uint32 \<Rightarrow> uint32 list option \<Rightarrow> uint32" where
  "CountProcessThreads processId snapshot =
     (case snapshot of None \<Rightarrow> 0
      | Some owners \<Rightarrow> fold (\<lambda>th32OwnerProcessID n. if th32OwnerProcessID = processId then n + 1 else n) owners 0)"

definition GetProcessorCount :: "uint32 \<Rightarrow> uint32 \<Rightarrow> uint32" where
  "GetProcessorCount activeProcessorCount dwNumberOfProcessors =
     (let n = (if activeProcessorCount = 0 then dwNumberOfProcessors else activeProcessorCount) in
      if n = 0 then 1 else n)"

section \<open>JSON\<close>

definition json_escape_char :: "char \<Rightarrow> string" where
  "json_escape_char ch =
     (if ch = CHR 0x5C then [CHR 0x5C, CHR 0x5C]
      else if ch = CHR 0x22 then [CHR 0x5C, CHR 0x22]
      else if ch = CHR 0x08 then [CHR 0x5C, CHR ''b'']
      else if ch = CHR 0x0C then [CHR 0x5C, CHR ''f'']
      else if ch = CHR 0x0A then [CHR 0x5C, CHR ''n'']
      else if ch = CHR 0x0D then [CHR 0x5C, CHR ''r'']
      else if ch = CHR 0x09 then [CHR 0x5C, CHR ''t'']
      else let n = of_char ch :: nat in
        if n < 32 then [CHR 0x5C, CHR ''u'', CHR ''0'', CHR ''0'', ''0123456789abcdef'' ! (n div 16), ''0123456789abcdef'' ! (n mod 16)]
        else [ch])"

definition JsonEscape :: "string \<Rightarrow> string" where
  "JsonEscape s = concat (map json_escape_char s)"

text \<open>Stripping the zeros of a fixed-point number.\<close>

definition strip_zeros :: "string \<Rightarrow> string" where
  "strip_zeros s = rev (dropWhile (\<lambda>c. c = CHR ''0'') (rev s))"

definition FormatNumber :: "'d Fp \<Rightarrow> 'd \<Rightarrow> string" where
  "FormatNumber fp value =
     (let s = fp_fixed fp 3 value;
          s1 = (if CHR ''.'' \<in> set s then
                  (let t = strip_zeros s in if t \<noteq> [] \<and> last t = CHR ''.'' then butlast t else t)
                else s)
      in if s1 = ''-0'' then ''0'' else s1)"

definition AverageMilliseconds :: "'d Fp \<Rightarrow> TimingWindow \<Rightarrow> 'd" where
  "AverageMilliseconds fp w =
     (if tw_count w = 0 then fp_zero fp
      else fp_div fp (fp_div fp (fp_of_uint64 fp (tw_totalNanoseconds w)) (fp_literal fp ''1000000.0'')) (fp_of_uint64 fp (tw_count w)))"

definition MaxMilliseconds :: "'d Fp \<Rightarrow> TimingWindow \<Rightarrow> 'd" where
  "MaxMilliseconds fp w = fp_div fp (fp_of_uint64 fp (tw_maxNanoseconds w)) (fp_literal fp ''1000000.0'')"

definition TimingAverageMs :: "'d Fp \<Rightarrow> TimingWindow \<Rightarrow> 'd" where
  "TimingAverageMs fp w = AverageMilliseconds fp w"

definition TimingMaxMs :: "'d Fp \<Rightarrow> TimingWindow \<Rightarrow> 'd" where
  "TimingMaxMs fp w = MaxMilliseconds fp w"

text \<open>A duration in nanoseconds as a number of seconds.\<close>

definition fp_seconds :: "'d Fp \<Rightarrow> int \<Rightarrow> 'd" where
  "fp_seconds fp ns = fp_div fp (fp_of_int fp ns) (fp_literal fp ''1000000000.0'')"

definition ToPerSecond :: "'d Fp \<Rightarrow> uint64 \<Rightarrow> int \<Rightarrow> 'd" where
  "ToPerSecond fp delta elapsed =
     (let seconds = fp_seconds fp elapsed in
      if fp_le fp seconds (fp_zero fp) then fp_zero fp else fp_div fp (fp_of_uint64 fp delta) seconds)"

definition ComputeRate :: "'d Fp \<Rightarrow> uint64 \<Rightarrow> uint64 \<Rightarrow> int \<Rightarrow> 'd" where
  "ComputeRate fp current prior elapsed = ToPerSecond fp (if current \<ge> prior then current - prior else 0) elapsed"

section \<open>Configuration\<close>

text \<open>\<open>filesystem::path::operator/\<close> for a relative second part: a separator goes in
  between unless the first is empty, a bare drive or ends with one.\<close>

definition is_separator :: "char \<Rightarrow> bool" where
  "is_separator c = (c = CHR ''/'' \<or> c = CHR 0x5C)"

definition path_div :: "string \<Rightarrow> string \<Rightarrow> string" where
  "path_div root part =
     (if root = [] \<or> is_separator (last root) \<or> (length root = 2 \<and> last root = CHR '':'') then root @ part
      else root @ [CHR 0x5C] @ part)"

record ServerMetricsConfig =
  mcfg_enabled :: bool
  mcfg_outputRoot :: string
  mcfg_runId :: string
  mcfg_snapshotInterval :: int

record ClientMetricsConfig = ServerMetricsConfig +
  mcfg_responseTimeout :: int

definition ServerMetricsConfig_default :: ServerMetricsConfig where
  "ServerMetricsConfig_default =
     \<lparr>mcfg_enabled = True, mcfg_outputRoot = ''artifacts/load-tests'', mcfg_runId = [], mcfg_snapshotInterval = 1000\<rparr>"

definition ClientMetricsConfig_default :: ClientMetricsConfig where
  "ClientMetricsConfig_default =
     \<lparr>mcfg_enabled = True, mcfg_outputRoot = ''artifacts/load-tests'', mcfg_runId = [], mcfg_snapshotInterval = 1000,
      mcfg_responseTimeout = 3000\<rparr>"

text \<open>The variables both configurations read.\<close>

definition read_metrics_env :: "(string \<Rightarrow> string option) \<Rightarrow> 'a ServerMetricsConfig_scheme \<Rightarrow> 'a ServerMetricsConfig_scheme" where
  "read_metrics_env env c0 =
     (let c1 = (case ReadEnv env ''HIGHP_METRICS_ENABLED'' of None \<Rightarrow> c0
                | Some v \<Rightarrow> c0\<lparr>mcfg_enabled := Support_ParseBool v (mcfg_enabled c0)\<rparr>);
          root = ReadEnvPath env ''HIGHP_METRICS_OUTPUT_ROOT'';
          c2 = (if root \<noteq> [] then c1\<lparr>mcfg_outputRoot := root\<rparr> else c1)
      in case ReadEnv env ''HIGHP_METRICS_RUN_ID'' of None \<Rightarrow> c2
         | Some v \<Rightarrow> c2\<lparr>mcfg_runId := SanitizePathComponent v\<rparr>)"

definition Server_FromEnvironment :: "(string \<Rightarrow> string option) \<Rightarrow> ServerMetricsConfig" where
  "Server_FromEnvironment env = read_metrics_env env ServerMetricsConfig_default"

definition Client_FromEnvironment :: "(string \<Rightarrow> string option) \<Rightarrow> ClientMetricsConfig" where
  "Client_FromEnvironment env =
     (let c = read_metrics_env env ClientMetricsConfig_default in
      case ReadEnv env ''HIGHP_CLIENT_METRICS_RESPONSE_TIMEOUT_MS'' of None \<Rightarrow> c
      | Some v \<Rightarrow>
          let timeoutMs = ParseUnsigned v (of_int (mcfg_responseTimeout c));
              clamped = min timeoutMs (2 ^ 63 - 1)
          in c\<lparr>mcfg_responseTimeout := sint clamped\<rparr>)"

definition ResolveRunId :: "ticks \<Rightarrow> nat \<Rightarrow> 'a ServerMetricsConfig_scheme \<Rightarrow> string" where
  "ResolveRunId now processId c =
     (if mcfg_runId c \<noteq> [] then SanitizePathComponent (mcfg_runId c)
      else FormatCompactTimestamp now @ ''-p'' @ render_nat processId)"

definition ResolveOutputDirectory :: "ticks \<Rightarrow> nat \<Rightarrow> 'a ServerMetricsConfig_scheme \<Rightarrow> string" where
  "ResolveOutputDirectory now processId c = path_div (mcfg_outputRoot c) (ResolveRunId now processId c)"

definition Client_ResolveRunId :: "ticks \<Rightarrow> nat \<Rightarrow> ClientMetricsConfig \<Rightarrow> string" where
  "Client_ResolveRunId now processId c =
     (if mcfg_runId c \<noteq> [] then SanitizePathComponent (mcfg_runId c)
      else FormatCompactTimestamp now @ ''-p'' @ render_nat processId)"

definition Client_ResolveOutputDirectory :: "ticks \<Rightarrow> nat \<Rightarrow> ClientMetricsConfig \<Rightarrow> string" where
  "Client_ResolveOutputDirectory now processId c = path_div (mcfg_outputRoot c) (Client_ResolveRunId now processId c)"

record RunManifest =
  man_runId :: string
  man_scenarioName :: string
  man_serverName :: string
  man_gitCommit :: string
  man_gitBranch :: string
  man_buildType :: string
  man_machineInfo :: string
  man_targetHost :: string
  man_outputRoot :: string
  man_startedAt :: "ticks option"
  man_finishedAt :: "ticks option"
  man_targetPort :: "16 word"
  man_plannedClients :: int
  man_messageSizeBytes :: int
  man_sendIntervalMs :: int
  man_durationSec :: int

definition OutputDirectory :: "RunManifest \<Rightarrow> string" where
  "OutputDirectory m =
     path_div (man_outputRoot m) (if man_runId m = [] then ''run'' else SanitizePathComponent (man_runId m))"

definition quoted :: "string \<Rightarrow> string" where
  "quoted s = [CHR 0x22] @ s @ [CHR 0x22]"

definition optional_time :: "ticks option \<Rightarrow> string" where
  "optional_time t = (case t of None \<Rightarrow> [] | Some tp \<Rightarrow> FormatUtcTime tp)"

definition ToJson :: "RunManifest \<Rightarrow> string" where
  "ToJson m =
     ''{'' @ [CHR 0x0A]
     @ ''  '' @ quoted ''run_id'' @ '': '' @ quoted (JsonEscape (man_runId m)) @ '','' @ [CHR 0x0A]
     @ ''  '' @ quoted ''scenario_name'' @ '': '' @ quoted (JsonEscape (man_scenarioName m)) @ '','' @ [CHR 0x0A]
     @ ''  '' @ quoted ''server_name'' @ '': '' @ quoted (JsonEscape (man_serverName m)) @ '','' @ [CHR 0x0A]
     @ ''  '' @ quoted ''git_commit'' @ '': '' @ quoted (JsonEscape (man_gitCommit m)) @ '','' @ [CHR 0x0A]
     @ ''  '' @ quoted ''git_branch'' @ '': '' @ quoted (JsonEscape (man_gitBranch m)) @ '','' @ [CHR 0x0A]
     @ ''  '' @ quoted ''build_type'' @ '': '' @ quoted (JsonEscape (man_buildType m)) @ '','' @ [CHR 0x0A]
     @ ''  '' @ quoted ''machine_info'' @ '': '' @ quoted (JsonEscape (man_machineInfo m)) @ '','' @ [CHR 0x0A]
     @ ''  '' @ quoted ''target_host'' @ '': '' @ quoted (JsonEscape (man_targetHost m)) @ '','' @ [CHR 0x0A]
     @ ''  '' @ quoted ''output_root'' @ '': '' @ quoted (JsonEscape (man_outputRoot m)) @ '','' @ [CHR 0x0A]
     @ ''  '' @ quoted ''output_dir'' @ '': '' @ quoted (JsonEscape (OutputDirectory m)) @ '','' @ [CHR 0x0A]
     @ ''  '' @ quoted ''started_at'' @ '': '' @ quoted (JsonEscape (optional_time (man_startedAt m))) @ '','' @ [CHR 0x0A]
     @ ''  '' @ quoted ''finished_at'' @ '': '' @ quoted (JsonEscape (optional_time (man_finishedAt m))) @ '','' @ [CHR 0x0A]
     @ ''  '' @ quoted ''target_port'' @ '': '' @ render_nat (unat (man_targetPort m)) @ '','' @ [CHR 0x0A]
     @ ''  '' @ quoted ''planned_clients'' @ '': '' @ render_int (man_plannedClients m) @ '','' @ [CHR 0x0A]
     @ ''  '' @ quoted ''message_size_bytes'' @ '': '' @ render_int (man_messageSizeBytes m) @ '','' @ [CHR 0x0A]
     @ ''  '' @ quoted ''send_interval_ms'' @ '': '' @ render_int (man_sendIntervalMs m) @ '','' @ [CHR 0x0A]
     @ ''  '' @ quoted ''duration_sec'' @ '': '' @ render_int (man_durationSec m) @ [CHR 0x0A]
     @ ''}'' @ [CHR 0x0A]"

section \<open>Reading JSON objects\<close>

text \<open>A reader for objects of strings and numbers, after RFC 8259: the reference the
  printed texts are compared with.\<close>

definition hex_value :: "char \<Rightarrow> nat option" where
  "hex_value c = map_of (zip ''0123456789abcdef'' [0..<16]) c"

definition escape_value :: "string \<Rightarrow> (char \<times> string) option" where
  "escape_value s =
     (case s of [] \<Rightarrow> None
      | e # r \<Rightarrow>
        if e = CHR 0x22 \<or> e = CHR 0x5C \<or> e = CHR ''/'' then Some (e, r)
        else if e = CHR ''b'' then Some (CHR 0x08, r)
        else if e = CHR ''f'' then Some (CHR 0x0C, r)
        else if e = CHR ''n'' then Some (CHR 0x0A, r)
        else if e = CHR ''r'' then Some (CHR 0x0D, r)
        else if e = CHR ''t'' then Some (CHR 0x09, r)
        else if e = CHR ''u'' then
          (case map hex_value (take 4 r) of
             [Some 0, Some 0, Some h, Some l] \<Rightarrow> Some (char_of (h * 16 + l), drop 4 r)
           | _ \<Rightarrow> None)
        else None)"

lemma escape_value_length: "escape_value s = Some (c, r) \<Longrightarrow> length r < length s"
  by (auto simp: escape_value_def split: list.splits if_splits option.splits nat.splits)

text \<open>The rest of a string after its opening quote.\<close>

function json_string :: "string \<Rightarrow> (string \<times> string) option" where
  "json_string s =
     (case s of [] \<Rightarrow> None
      | c # r \<Rightarrow>
        if c = CHR 0x22 then Some ([], r)
        else if c = CHR 0x5C then
          (case escape_value r of None \<Rightarrow> None
           | Some (e, r') \<Rightarrow> map_option (apfst (Cons e)) (json_string r'))
        else if of_char c < (32 :: nat) then None
        else map_option (apfst (Cons c)) (json_string r))"
  by pat_completeness auto
termination
  by (relation "measure length") (auto dest: escape_value_length)

declare json_string.simps [simp del]

datatype json_scalar = JString string | JNumber string

definition skip_ws :: "string \<Rightarrow> string" where
  "skip_ws s = dropWhile IsWhitespace s"

definition expect :: "char \<Rightarrow> string \<Rightarrow> string option" where
  "expect c s = (case skip_ws s of [] \<Rightarrow> None | x # r \<Rightarrow> if x = c then Some r else None)"

definition number_char :: "char \<Rightarrow> bool" where
  "number_char c = (IsDigit c \<or> c = CHR ''-'' \<or> c = CHR ''.'')"

definition json_value :: "string \<Rightarrow> (json_scalar \<times> string) option" where
  "json_value s =
     (case expect (CHR 0x22) s of
        Some r \<Rightarrow> map_option (apfst JString) (json_string r)
      | None \<Rightarrow> (let t = takeWhile number_char (skip_ws s) in
                 if t = [] then None else Some (JNumber t, dropWhile number_char (skip_ws s))))"

fun json_members :: "nat \<Rightarrow> string \<Rightarrow> (string \<times> json_scalar) list option" where
  "json_members 0 s = None"
| "json_members (Suc n) s =
     do { r1 \<leftarrow> expect (CHR 0x22) s;
          (key, r2) \<leftarrow> json_string r1;
          r3 \<leftarrow> expect (CHR '':'') r2;
          (v, r4) \<leftarrow> json_value r3;
          (case expect (CHR '','') r4 of
             Some r5 \<Rightarrow> map_option (Cons (key, v)) (json_members n r5)
           | None \<Rightarrow> do { r5 \<leftarrow> expect (CHR ''}'') r4; if skip_ws r5 = [] then Some [(key, v)] else None }) }"

definition json_object :: "string \<Rightarrow> (string \<times> json_scalar) list option" where
  "json_object s = do { r \<leftarrow> expect (CHR ''{'') s; json_members (length s) r }"

lemma json_string_quote: "json_string (CHR 0x22 # r) = Some ([], r)"
  by (simp add: json_string.simps [of "_ # _"])

lemma json_string_plain:
  "c \<noteq> CHR 0x22 \<Longrightarrow> c \<noteq> CHR 0x5C \<Longrightarrow> \<not> of_char c < (32 :: nat) \<Longrightarrow>
    json_string (c # r) = map_option (apfst (Cons c)) (json_string r)"
  by (simp add: json_string.simps [of "_ # _"])

lemma json_string_escaped:
  "escape_value r = Some (e, r') \<Longrightarrow> json_string (CHR 0x5C # r) = map_option (apfst (Cons e)) (json_string r')"
  by (simp add: json_string.simps [of "_ # _"])

lemma hex_value_digit: "d < 16 \<Longrightarrow> hex_value (''0123456789abcdef'' ! d) = Some d"
proof -
  assume "d < 16"
  then have "d \<in> set [0..<16]" by simp
  moreover have "\<forall>d \<in> set [0..<16]. hex_value (''0123456789abcdef'' ! d) = Some d"
    by (simp add: hex_value_def upt_rec)
  ultimately show ?thesis by blast
qed

lemma escape_value_hex:
  assumes "of_char c < (32 :: nat)"
  shows "escape_value (CHR ''u'' # CHR ''0'' # CHR ''0'' # ''0123456789abcdef'' ! (of_char c div 16)
      # ''0123456789abcdef'' ! (of_char c mod 16) # r) = Some (c, r)"
proof -
  have h: "hex_value (''0123456789abcdef'' ! (of_char c div 16)) = Some (of_char c div 16)"
    "hex_value (''0123456789abcdef'' ! (of_char c mod 16)) = Some (of_char c mod 16)"
    using assms by (auto intro!: hex_value_digit)
  have z: "hex_value (CHR ''0'') = Some 0" by (simp add: hex_value_def upt_rec)
  show ?thesis by (simp add: escape_value_def h z)
qed

text \<open>Reading an escaped character gives it back.\<close>

lemma json_string_escape_char:
  "json_string (json_escape_char c @ r) = map_option (apfst (Cons c)) (json_string r)"
proof (cases "c \<in> {CHR 0x5C, CHR 0x22, CHR 0x08, CHR 0x0C, CHR 0x0A, CHR 0x0D, CHR 0x09}")
  case True
  then have "\<exists>e. json_escape_char c = [CHR 0x5C, e] \<and> escape_value (e # r) = Some (c, r)"
    by (elim insertE emptyE) (simp_all add: json_escape_char_def escape_value_def)
  then show ?thesis using json_string_escaped by force
next
  case False
  then have "json_escape_char c =
      (if of_char c < (32 :: nat) then [CHR 0x5C, CHR ''u'', CHR ''0'', CHR ''0'',
        ''0123456789abcdef'' ! (of_char c div 16), ''0123456789abcdef'' ! (of_char c mod 16)] else [c])"
    by (auto simp: json_escape_char_def Let_def)
  then show ?thesis
    using False json_string_escaped [OF escape_value_hex [of c r]] json_string_plain [of c r] by auto
qed

lemma json_string_escape: "json_string (JsonEscape s @ CHR 0x22 # r) = Some (s, r)"
  by (induction s) (simp_all add: JsonEscape_def json_string_quote json_string_escape_char)

section \<open>Printed objects are read back\<close>

fun json_text :: "json_scalar \<Rightarrow> string" where
  "json_text (JString s) = quoted (JsonEscape s)"
| "json_text (JNumber t) = t"

fun wf_scalar :: "json_scalar \<Rightarrow> bool" where
  "wf_scalar (JString s) = True"
| "wf_scalar (JNumber t) = (t \<noteq> [] \<and> list_all number_char t)"

text \<open>A key that needs no escaping.\<close>

definition plain_key :: "string \<Rightarrow> bool" where
  "plain_key k = (JsonEscape k = k)"

abbreviation wf_fields :: "(string \<times> json_scalar) list \<Rightarrow> bool" where
  "wf_fields \<equiv> list_all (\<lambda>(k, v). plain_key k \<and> wf_scalar v)"

fun members_text :: "string \<Rightarrow> string \<Rightarrow> (string \<times> json_scalar) list \<Rightarrow> string" where
  "members_text before sep [] = []"
| "members_text before sep [(k, v)] = before @ quoted k @ '':'' @ sep @ json_text v"
| "members_text before sep ((k, v) # fs) =
     before @ quoted k @ '':'' @ sep @ json_text v @ '','' @ members_text before sep fs"

lemma skip_ws_append: "all_ws w \<Longrightarrow> skip_ws (w @ s) = skip_ws s"
  by (simp add: all_ws_def skip_ws_def list_all_iff dropWhile_append2)

lemma expect_hit: "all_ws w \<Longrightarrow> \<not> IsWhitespace c \<Longrightarrow> expect c (w @ c # r) = Some r"
  by (simp add: expect_def skip_ws_append) (simp add: skip_ws_def)

lemma expect_miss: "all_ws w \<Longrightarrow> \<not> IsWhitespace x \<Longrightarrow> x \<noteq> c \<Longrightarrow> expect c (w @ x # r) = None"
  by (simp add: expect_def skip_ws_append) (simp add: skip_ws_def)

lemma number_char_not: "number_char x \<Longrightarrow> \<not> IsWhitespace x \<and> x \<noteq> CHR 0x22 \<and> x \<noteq> CHR '','' \<and> x \<noteq> CHR ''}''"
  by (auto simp: number_char_def IsDigit_def IsWhitespace_def)

lemma json_value_text:
  assumes "all_ws w" and "wf_scalar v" and "r = [] \<or> \<not> number_char (hd r)"
  shows "json_value (w @ json_text v @ r) = Some (v, r)"
proof (cases v)
  case (JString s)
  have "expect (CHR 0x22) (w @ json_text v @ r) = Some (JsonEscape s @ CHR 0x22 # r)"
    using expect_hit [OF assms(1), of "CHR 0x22"] JString by (simp add: quoted_def IsWhitespace_def)
  then show ?thesis using JString by (simp add: json_value_def json_string_escape)
next
  case (JNumber t)
  then obtain x u where t: "t = x # u" "number_char x" "list_all number_char u"
    using assms(2) by (cases t) auto
  have "expect (CHR 0x22) (w @ t @ r) = None"
    using expect_miss [OF assms(1)] number_char_not [OF t(2)] t(1) by simp
  moreover have "skip_ws (w @ t @ r) = t @ r"
    using skip_ws_append [OF assms(1)] number_char_not [OF t(2)] t(1) by (simp add: skip_ws_def)
  moreover have "takeWhile number_char (t @ r) = t" "dropWhile number_char (t @ r) = r"
    using t assms(3) by (cases r; simp add: takeWhile_append dropWhile_append list_all_iff)+
  ultimately show ?thesis using JNumber t(1) by (simp add: json_value_def)
qed

text \<open>One member, followed by a comma or the end of the object.\<close>

lemma json_members_step:
  assumes "all_ws before" "all_ws sep" "plain_key k" "wf_scalar v" "r = [] \<or> \<not> number_char (hd r)"
  shows "json_members (Suc n) (before @ quoted k @ '':'' @ sep @ json_text v @ r) =
     (case expect (CHR '','') r of
        Some r5 \<Rightarrow> map_option (Cons (k, v)) (json_members n r5)
      | None \<Rightarrow> do { r5 \<leftarrow> expect (CHR ''}'') r; if skip_ws r5 = [] then Some [(k, v)] else None })"
proof -
  let ?t = "CHR '':'' # sep @ json_text v @ r"
  have 1: "expect (CHR 0x22) (before @ quoted k @ ?t) = Some (k @ CHR 0x22 # ?t)"
    using expect_hit [OF assms(1), of "CHR 0x22" "k @ CHR 0x22 # ?t"] by (simp add: quoted_def IsWhitespace_def)
  have 2: "json_string (k @ CHR 0x22 # ?t) = Some (k, ?t)"
    using json_string_escape [of k ?t] assms(3) by (simp add: plain_key_def)
  have 3: "expect (CHR '':'') ?t = Some (sep @ json_text v @ r)"
    using expect_hit [of "[]" "CHR '':''"] by (simp add: all_ws_def IsWhitespace_def)
  show ?thesis using json_value_text [OF assms(2,4,5)] by (simp add: 1 2 3 del: append_assoc)
qed

lemma members_text_Cons:
  "fs \<noteq> [] \<Longrightarrow> members_text before sep (f # fs) =
    before @ quoted (fst f) @ '':'' @ sep @ json_text (snd f) @ '','' @ members_text before sep fs"
  by (cases fs; cases f) simp_all

lemma comma_next: "expect (CHR '','') (CHR '','' # r) = Some r" "\<not> number_char (CHR '','')"
  using expect_hit [of "[]" "CHR '',''" r] by (simp_all add: all_ws_def IsWhitespace_def number_char_def IsDigit_def)

text \<open>Whatever follows the last member decides.\<close>

lemma members_text_read:
  assumes "all_ws before" "all_ws sep" and r: "r = [] \<or> \<not> number_char (hd r)" "expect (CHR '','') r = None"
  shows "wf_fields fs \<Longrightarrow> fs \<noteq> [] \<Longrightarrow> length fs \<le> n \<Longrightarrow>
    json_members n (members_text before sep fs @ r)
      = do { r5 \<leftarrow> expect (CHR ''}'') r; if skip_ws r5 = [] then Some fs else None }"
proof (induction fs arbitrary: n)
  case (Cons f fs)
  obtain k v where f: "f = (k, v)" by fastforce
  obtain m where n: "n = Suc m" "length fs \<le> m" using Cons.prems(3) by (cases n) auto
  have wf: "plain_key k" "wf_scalar v" "wf_fields fs" using Cons.prems(1) f by auto
  show ?case
  proof (cases "fs = []")
    case True
    then show ?thesis
      using json_members_step [OF assms(1,2) wf(1,2) r(1), of m] r(2)
      by (simp add: f n(1) del: json_members.simps cong: if_cong)
  next
    case False
    let ?rest = "members_text before sep fs @ r"
    have "json_members n (members_text before sep (f # fs) @ r) = map_option (Cons (k, v)) (json_members m ?rest)"
      using json_members_step [OF assms(1,2) wf(1,2), of "CHR '','' # ?rest" m] comma_next
      by (simp add: f n(1) members_text_Cons [OF False] del: json_members.simps)
    then show ?thesis
      using Cons.IH [OF wf(3) False n(2)] by (simp add: f split: bind_splits)
  qed
qed simp

lemma members_text_length: "wf_fields fs \<Longrightarrow> length fs \<le> length (members_text before sep fs)"
proof (induction fs)
  case (Cons f fs)
  then show ?case by (cases "fs = []"; cases f) (auto simp: members_text_Cons quoted_def)
qed simp

text \<open>The two shapes of a printed object: closed, and left open.\<close>

lemma json_object_read:
  assumes "all_ws before" "all_ws sep" "all_ws fin" "all_ws end'" "wf_fields fs" "fs \<noteq> []"
  shows "json_object (CHR ''{'' # members_text before sep fs @ fin @ CHR ''}'' # end') = Some fs"
proof -
  let ?r = "fin @ CHR ''}'' # end'"
  have "?r = [] \<or> \<not> number_char (hd ?r)" "expect (CHR '','') ?r = None" "expect (CHR ''}'') ?r = Some end'"
    using assms(3) number_char_not expect_miss [OF assms(3)] expect_hit [OF assms(3)]
    by (cases fin; auto simp: all_ws_def IsWhitespace_def number_char_def IsDigit_def)+
  moreover have "skip_ws end' = []" using skip_ws_append [OF assms(4), of "[]"] by (simp add: skip_ws_def)
  moreover have "length fs \<le> length (CHR ''{'' # members_text before sep fs @ ?r)"
    using members_text_length [OF assms(5), of before sep] by simp
  moreover have "expect (CHR ''{'') (CHR ''{'' # u) = Some u" for u
    using expect_hit [of "[]" "CHR ''{''" u] by (simp add: all_ws_def IsWhitespace_def)
  ultimately show ?thesis
    using members_text_read [OF assms(1,2) _ _ assms(5,6)] by (simp add: json_object_def del: json_members.simps)
qed

lemma json_object_open:
  assumes "all_ws before" "all_ws sep" "wf_fields fs" "fs \<noteq> []"
  shows "json_object (CHR ''{'' # members_text before sep fs) = None"
proof -
  have "expect c [] = None" for c by (simp add: expect_def skip_ws_def)
  moreover have "expect (CHR ''{'') (CHR ''{'' # u) = Some u" for u
    using expect_hit [of "[]" "CHR ''{''" u] by (simp add: all_ws_def IsWhitespace_def)
  moreover have "length fs \<le> length (CHR ''{'' # members_text before sep fs)"
    using members_text_length [OF assms(3), of before sep] by simp
  ultimately show ?thesis
    using members_text_read [OF assms(1,2) _ _ assms(3,4), of "[]"] by (simp add: json_object_def del: json_members.simps)
qed

lemma render_number [simp]:
  "wf_scalar (JNumber (render_nat n))" "wf_scalar (JNumber (render_int i))"
  using render_nat_digits [of n] render_nat_digits [of "nat i"] render_nat_digits [of "nat (- i)"]
  by (auto simp: render_int_def number_char_def list_all_iff)

definition manifest_fields :: "RunManifest \<Rightarrow> (string \<times> json_scalar) list" where
  "manifest_fields m =
     [(''run_id'', JString (man_runId m)), (''scenario_name'', JString (man_scenarioName m)),
      (''server_name'', JString (man_serverName m)), (''git_commit'', JString (man_gitCommit m)),
      (''git_branch'', JString (man_gitBranch m)), (''build_type'', JString (man_buildType m)),
      (''machine_info'', JString (man_machineInfo m)), (''target_host'', JString (man_targetHost m)),
      (''output_root'', JString (man_outputRoot m)), (''output_dir'', JString (OutputDirectory m)),
      (''started_at'', JString (optional_time (man_startedAt m))),
      (''finished_at'', JString (optional_time (man_finishedAt m))),
      (''target_port'', JNumber (render_nat (unat (man_targetPort m)))),
      (''planned_clients'', JNumber (render_int (man_plannedClients m))),
      (''message_size_bytes'', JNumber (render_int (man_messageSizeBytes m))),
      (''send_interval_ms'', JNumber (render_int (man_sendIntervalMs m))),
      (''duration_sec'', JNumber (render_int (man_durationSec m)))]"

text \<open>C23: the manifest file is JSON, whatever the strings of the manifest contain:
  a reader of RFC 8259 objects gets back every field, with quotes, backslashes and
  control characters of the strings intact.\<close>

theorem manifest_round_trip: "json_object (ToJson m) = Some (manifest_fields m)"
proof -
  let ?in = "[CHR 0x0A, CHR '' '', CHR '' '']"
  have shape: "ToJson m = CHR ''{'' # members_text ?in '' '' (manifest_fields m) @ [CHR 0x0A] @ CHR ''}'' # [CHR 0x0A]"
    by (simp add: ToJson_def manifest_fields_def)
  have wf: "wf_fields (manifest_fields m)" "manifest_fields m \<noteq> []"
    by (simp_all add: manifest_fields_def plain_key_def JsonEscape_def json_escape_char_def del: wf_scalar.simps(2))
  show ?thesis
    unfolding shape by (rule json_object_read [OF _ _ _ _ wf]) (simp_all add: all_ws_def IsWhitespace_def)
qed



end
