(* ===== verification/ClientMetrics.thy ===== *)
theory ClientMetrics
  imports MetricsSupport
begin

text \<open>
  The metrics of the chat client: \<open>AtomicClientMetrics\<close> and \<open>NoopClientMetrics\<close>
  (lib/inc/metrics/client, lib/src/metrics/client/impl).

  The virtual methods of \<open>IClientMetrics\<close> are the constructors of
  \<open>ClientMetric\<close>.  The steady clock a method reads is the argument \<open>nowNs\<close>.  The
  counters are 64-bit atomics that wrap; the pending requests are an association
  list, whose operations are atomic because the code holds \<open>_pendingMutex\<close>.  The
  accesses inside a timing window are those of MetricWindows, with the
  compare-and-exchange loop, which run alone computes \<open>ObserveMax\<close>.
\<close>

section \<open>Snapshot and interface\<close>

datatype ClientDisconnectReason = CDR_None | CDR_Timeout | CDR_ServerClose | CDR_RecvFail | CDR_LocalClose

fun ToString :: "ClientDisconnectReason \<Rightarrow> string" where
  "ToString CDR_Timeout = ''timeout''"
| "ToString CDR_ServerClose = ''server close''"
| "ToString CDR_RecvFail = ''recv fail''"
| "ToString CDR_LocalClose = ''local close''"
| "ToString CDR_None = ''none''"

record 'd ClientMetricsSnapshot =
  cs_capturedAt :: ticks
  cs_connectSuccessTotal :: uint64
  cs_connectFailureTotal :: uint64
  cs_disconnectTotal :: uint64
  cs_sendPacketsTotal :: uint64
  cs_recvPacketsTotal :: uint64
  cs_sendBytesTotal :: uint64
  cs_recvBytesTotal :: uint64
  cs_sendFailTotal :: uint64
  cs_responseTimeoutTotal :: uint64
  cs_packetValidationTotal :: uint64
  cs_packetValidationFailureTotal :: uint64
  cs_disconnectTimeoutTotal :: uint64
  cs_disconnectServerCloseTotal :: uint64
  cs_disconnectRecvFailTotal :: uint64
  cs_disconnectLocalCloseTotal :: uint64
  cs_connected :: int64
  cs_pendingRequestCount :: uint32
  cs_connectLatency :: TimingWindow
  cs_requestRtt :: TimingWindow
  cs_lastConnectLatencyMs :: 'd
  cs_currentSessionUptimeMs :: uint64
  cs_lastSessionUptimeMs :: uint64
  cs_maxSessionUptimeMs :: uint64
  cs_timeSinceLastRecvMs :: uint64
  cs_lastDisconnectReason :: ClientDisconnectReason
  cs_processCpuPercent :: 'd
  cs_threadCount :: uint32

datatype ClientMetric =
    CM_ConnectLatency int bool | CM_Connected | CM_Disconnected ClientDisconnectReason
  | CM_SendCompleted size_t | CM_SendFailed | CM_RecvCompleted size_t
  | CM_PacketValidationSucceeded | CM_PacketValidationFailed
  | CM_TrackRequest uint32 int int | CM_ResolveRequest uint32 int

section \<open>AtomicClientMetrics\<close>

record PendingRequest =
  pr_responseType :: int
  pr_sentAtNs :: uint64
  pr_deadlineNs :: uint64

record AtomicClientMetrics =
  cm_connectSuccessTotal :: uint64
  cm_connectFailureTotal :: uint64
  cm_disconnectTotal :: uint64
  cm_sendPacketsTotal :: uint64
  cm_recvPacketsTotal :: uint64
  cm_sendBytesTotal :: uint64
  cm_recvBytesTotal :: uint64
  cm_sendFailTotal :: uint64
  cm_responseTimeoutTotal :: uint64
  cm_packetValidationTotal :: uint64
  cm_packetValidationFailureTotal :: uint64
  cm_disconnectTimeoutTotal :: uint64
  cm_disconnectServerCloseTotal :: uint64
  cm_disconnectRecvFailTotal :: uint64
  cm_disconnectLocalCloseTotal :: uint64
  cm_connected :: int64
  cm_lastConnectLatencyNs :: uint64
  cm_sessionStartedAtNs :: uint64
  cm_lastSessionUptimeNs :: uint64
  cm_maxSessionUptimeNs :: uint64
  cm_lastRecvAtNs :: uint64
  cm_lastDisconnectReason :: ClientDisconnectReason
  cm_connectLatency :: TimingWindow
  cm_requestRtt :: TimingWindow
  cm_pendingRequests :: "(uint32 \<times> PendingRequest) list"

definition AtomicClientMetrics_new :: AtomicClientMetrics where
  "AtomicClientMetrics_new =
     \<lparr>cm_connectSuccessTotal = 0, cm_connectFailureTotal = 0, cm_disconnectTotal = 0, cm_sendPacketsTotal = 0,
      cm_recvPacketsTotal = 0, cm_sendBytesTotal = 0, cm_recvBytesTotal = 0, cm_sendFailTotal = 0,
      cm_responseTimeoutTotal = 0, cm_packetValidationTotal = 0, cm_packetValidationFailureTotal = 0,
      cm_disconnectTimeoutTotal = 0, cm_disconnectServerCloseTotal = 0, cm_disconnectRecvFailTotal = 0,
      cm_disconnectLocalCloseTotal = 0, cm_connected = 0, cm_lastConnectLatencyNs = 0, cm_sessionStartedAtNs = 0,
      cm_lastSessionUptimeNs = 0, cm_maxSessionUptimeNs = 0, cm_lastRecvAtNs = 0, cm_lastDisconnectReason = CDR_None,
      cm_connectLatency = empty_window, cm_requestRtt = empty_window, cm_pendingRequests = []\<rparr>"

fun ObserveDisconnectReason :: "ClientDisconnectReason \<Rightarrow> AtomicClientMetrics \<Rightarrow> AtomicClientMetrics" where
  "ObserveDisconnectReason CDR_Timeout m = m\<lparr>cm_disconnectTimeoutTotal := cm_disconnectTimeoutTotal m + 1\<rparr>"
| "ObserveDisconnectReason CDR_ServerClose m = m\<lparr>cm_disconnectServerCloseTotal := cm_disconnectServerCloseTotal m + 1\<rparr>"
| "ObserveDisconnectReason CDR_RecvFail m = m\<lparr>cm_disconnectRecvFailTotal := cm_disconnectRecvFailTotal m + 1\<rparr>"
| "ObserveDisconnectReason CDR_LocalClose m = m\<lparr>cm_disconnectLocalCloseTotal := cm_disconnectLocalCloseTotal m + 1\<rparr>"
| "ObserveDisconnectReason CDR_None m = m"

definition ObserveConnectLatency :: "int \<Rightarrow> bool \<Rightarrow> AtomicClientMetrics \<Rightarrow> AtomicClientMetrics" where
  "ObserveConnectLatency duration success m =
     (if duration < 0 then m
      else let durationNs = of_int duration;
               m1 = m\<lparr>cm_connectLatency := ObserveWindow durationNs (cm_connectLatency m), cm_lastConnectLatencyNs := durationNs\<rparr>
           in if success then m1\<lparr>cm_connectSuccessTotal := cm_connectSuccessTotal m1 + 1\<rparr>
              else m1\<lparr>cm_connectFailureTotal := cm_connectFailureTotal m1 + 1\<rparr>)"

definition OnConnected :: "uint64 \<Rightarrow> AtomicClientMetrics \<Rightarrow> AtomicClientMetrics" where
  "OnConnected nowNs m = m\<lparr>cm_connected := 1, cm_sessionStartedAtNs := nowNs, cm_lastRecvAtNs := nowNs\<rparr>"

definition OnDisconnected :: "uint64 \<Rightarrow> ClientDisconnectReason \<Rightarrow> AtomicClientMetrics \<Rightarrow> AtomicClientMetrics" where
  "OnDisconnected nowNs reason m =
     (let m1 = ObserveDisconnectReason reason
            (m\<lparr>cm_connected := 0, cm_disconnectTotal := cm_disconnectTotal m + 1, cm_lastDisconnectReason := reason\<rparr>);
          sessionStartedAtNs = cm_sessionStartedAtNs m1;
          m2 = m1\<lparr>cm_sessionStartedAtNs := 0\<rparr>
      in if sessionStartedAtNs = 0 \<or> nowNs < sessionStartedAtNs then m2
         else let sessionUptimeNs = nowNs - sessionStartedAtNs
              in m2\<lparr>cm_lastSessionUptimeNs := sessionUptimeNs,
                    cm_maxSessionUptimeNs := ObserveMax sessionUptimeNs (cm_maxSessionUptimeNs m2)\<rparr>)"

definition OnRecvCompleted :: "uint64 \<Rightarrow> size_t \<Rightarrow> AtomicClientMetrics \<Rightarrow> AtomicClientMetrics" where
  "OnRecvCompleted nowNs bytesTransferred m =
     m\<lparr>cm_recvPacketsTotal := cm_recvPacketsTotal m + 1, cm_recvBytesTotal := cm_recvBytesTotal m + bytesTransferred,
       cm_lastRecvAtNs := nowNs\<rparr>"

text \<open>The timeout is in milliseconds; the conversion to nanoseconds is written with the
  wrap-around of the machine.\<close>

definition TrackRequest :: "uint64 \<Rightarrow> uint32 \<Rightarrow> int \<Rightarrow> int \<Rightarrow> AtomicClientMetrics \<Rightarrow> AtomicClientMetrics" where
  "TrackRequest nowNs sqn responseType timeout m =
     (if sqn = 0 \<or> responseType = 0 then m
      else let timeoutNs = (if timeout > 0 then of_int (timeout * 1000000) else 0 :: uint64)
           in m\<lparr>cm_pendingRequests := alist_assign sqn
                 \<lparr>pr_responseType = responseType, pr_sentAtNs = nowNs,
                  pr_deadlineNs = (if timeoutNs > 0 then nowNs + timeoutNs else 0)\<rparr> (cm_pendingRequests m)\<rparr>)"

definition ResolveRequest :: "uint64 \<Rightarrow> uint32 \<Rightarrow> int \<Rightarrow> AtomicClientMetrics \<Rightarrow> AtomicClientMetrics" where
  "ResolveRequest nowNs sqn receivedType m =
     (if sqn = 0 then m
      else case map_of (cm_pendingRequests m) sqn of None \<Rightarrow> m
      | Some req \<Rightarrow>
          if pr_responseType req \<noteq> receivedType then m
          else let m1 = (if nowNs \<ge> pr_sentAtNs req
                         then m\<lparr>cm_requestRtt := ObserveWindow (nowNs - pr_sentAtNs req) (cm_requestRtt m)\<rparr> else m)
               in m1\<lparr>cm_pendingRequests := alist_erase sqn (cm_pendingRequests m1)\<rparr>)"

definition expired :: "uint64 \<Rightarrow> PendingRequest \<Rightarrow> bool" where
  "expired nowNs req \<longleftrightarrow> pr_deadlineNs req \<noteq> 0 \<and> nowNs \<ge> pr_deadlineNs req"

text \<open>The loop over the map: each entry is erased and counted, or kept.\<close>

fun expire_loop :: "uint64 \<Rightarrow> (uint32 \<times> PendingRequest) list \<Rightarrow> uint64 \<Rightarrow> (uint32 \<times> PendingRequest) list \<times> uint64" where
  "expire_loop nowNs [] tot = ([], tot)"
| "expire_loop nowNs (e # rest) tot =
     (if expired nowNs (snd e) then expire_loop nowNs rest (tot + 1)
      else case expire_loop nowNs rest tot of (kept, tot') \<Rightarrow> (e # kept, tot'))"

definition ExpireTimedOutRequests :: "uint64 \<Rightarrow> AtomicClientMetrics \<Rightarrow> AtomicClientMetrics" where
  "ExpireTimedOutRequests nowNs m =
     (case expire_loop nowNs (cm_pendingRequests m) (cm_responseTimeoutTotal m) of (pending, tot) \<Rightarrow>
        m\<lparr>cm_pendingRequests := pending, cm_responseTimeoutTotal := tot\<rparr>)"

fun client_metric :: "uint64 \<Rightarrow> ClientMetric \<Rightarrow> AtomicClientMetrics \<Rightarrow> AtomicClientMetrics" where
  "client_metric nowNs (CM_ConnectLatency d ok) m = ObserveConnectLatency d ok m"
| "client_metric nowNs CM_Connected m = OnConnected nowNs m"
| "client_metric nowNs (CM_Disconnected reason) m = OnDisconnected nowNs reason m"
| "client_metric nowNs (CM_SendCompleted bytesTransferred) m =
     m\<lparr>cm_sendPacketsTotal := cm_sendPacketsTotal m + 1, cm_sendBytesTotal := cm_sendBytesTotal m + bytesTransferred\<rparr>"
| "client_metric nowNs CM_SendFailed m = m\<lparr>cm_sendFailTotal := cm_sendFailTotal m + 1\<rparr>"
| "client_metric nowNs (CM_RecvCompleted bytesTransferred) m = OnRecvCompleted nowNs bytesTransferred m"
| "client_metric nowNs CM_PacketValidationSucceeded m = m\<lparr>cm_packetValidationTotal := cm_packetValidationTotal m + 1\<rparr>"
| "client_metric nowNs CM_PacketValidationFailed m =
     m\<lparr>cm_packetValidationTotal := cm_packetValidationTotal m + 1,
       cm_packetValidationFailureTotal := cm_packetValidationFailureTotal m + 1\<rparr>"
| "client_metric nowNs (CM_TrackRequest sqn responseType timeout) m = TrackRequest nowNs sqn responseType timeout m"
| "client_metric nowNs (CM_ResolveRequest sqn receivedType) m = ResolveRequest nowNs sqn receivedType m"

definition Client_TakeSnapshot ::
  "'d Fp \<Rightarrow> uint64 \<Rightarrow> ticks \<Rightarrow> AtomicClientMetrics \<Rightarrow> 'd ClientMetricsSnapshot \<times> AtomicClientMetrics" where
  "Client_TakeSnapshot fp nowNs capturedAt m0 =
     (let m = ExpireTimedOutRequests nowNs m0;
          (connectLatency, cl) = DrainWindow (cm_connectLatency m);
          (requestRtt, rr) = DrainWindow (cm_requestRtt m)
      in (\<lparr>cs_capturedAt = capturedAt, cs_connectSuccessTotal = cm_connectSuccessTotal m,
           cs_connectFailureTotal = cm_connectFailureTotal m, cs_disconnectTotal = cm_disconnectTotal m,
           cs_sendPacketsTotal = cm_sendPacketsTotal m, cs_recvPacketsTotal = cm_recvPacketsTotal m,
           cs_sendBytesTotal = cm_sendBytesTotal m, cs_recvBytesTotal = cm_recvBytesTotal m,
           cs_sendFailTotal = cm_sendFailTotal m, cs_responseTimeoutTotal = cm_responseTimeoutTotal m,
           cs_packetValidationTotal = cm_packetValidationTotal m,
           cs_packetValidationFailureTotal = cm_packetValidationFailureTotal m,
           cs_disconnectTimeoutTotal = cm_disconnectTimeoutTotal m,
           cs_disconnectServerCloseTotal = cm_disconnectServerCloseTotal m,
           cs_disconnectRecvFailTotal = cm_disconnectRecvFailTotal m,
           cs_disconnectLocalCloseTotal = cm_disconnectLocalCloseTotal m, cs_connected = cm_connected m,
           cs_pendingRequestCount = of_nat (length (cm_pendingRequests m)),
           cs_connectLatency = connectLatency, cs_requestRtt = requestRtt,
           cs_lastConnectLatencyMs = fp_div fp (fp_of_uint64 fp (cm_lastConnectLatencyNs m)) (fp_literal fp ''1000000.0''),
           cs_currentSessionUptimeMs =
             (if 0 <s cm_connected m \<and> cm_sessionStartedAtNs m > 0 \<and> nowNs \<ge> cm_sessionStartedAtNs m
              then (nowNs - cm_sessionStartedAtNs m) div 1000000 else 0),
           cs_lastSessionUptimeMs = cm_lastSessionUptimeNs m div 1000000,
           cs_maxSessionUptimeMs = cm_maxSessionUptimeNs m div 1000000,
           cs_timeSinceLastRecvMs =
             (if cm_lastRecvAtNs m > 0 \<and> nowNs \<ge> cm_lastRecvAtNs m then (nowNs - cm_lastRecvAtNs m) div 1000000 else 0),
           cs_lastDisconnectReason = cm_lastDisconnectReason m,
           cs_processCpuPercent = fp_zero fp, cs_threadCount = 0\<rparr>,
          m\<lparr>cm_connectLatency := cl, cm_requestRtt := rr\<rparr>))"

section \<open>NoopClientMetrics\<close>

definition noop_client_metric :: "uint64 \<Rightarrow> ClientMetric \<Rightarrow> unit \<Rightarrow> unit" where
  "noop_client_metric nowNs c m = m"

definition ClientMetricsSnapshot_zero :: "'d Fp \<Rightarrow> 'd ClientMetricsSnapshot" where
  "ClientMetricsSnapshot_zero fp =
     \<lparr>cs_capturedAt = 0, cs_connectSuccessTotal = 0, cs_connectFailureTotal = 0, cs_disconnectTotal = 0,
      cs_sendPacketsTotal = 0, cs_recvPacketsTotal = 0, cs_sendBytesTotal = 0, cs_recvBytesTotal = 0,
      cs_sendFailTotal = 0, cs_responseTimeoutTotal = 0, cs_packetValidationTotal = 0,
      cs_packetValidationFailureTotal = 0, cs_disconnectTimeoutTotal = 0, cs_disconnectServerCloseTotal = 0,
      cs_disconnectRecvFailTotal = 0, cs_disconnectLocalCloseTotal = 0, cs_connected = 0, cs_pendingRequestCount = 0,
      cs_connectLatency = empty_window, cs_requestRtt = empty_window, cs_lastConnectLatencyMs = fp_zero fp,
      cs_currentSessionUptimeMs = 0, cs_lastSessionUptimeMs = 0, cs_maxSessionUptimeMs = 0,
      cs_timeSinceLastRecvMs = 0, cs_lastDisconnectReason = CDR_None, cs_processCpuPercent = fp_zero fp, cs_threadCount = 0\<rparr>"

definition noop_TakeSnapshot :: "'d Fp \<Rightarrow> uint64 \<Rightarrow> ticks \<Rightarrow> unit \<Rightarrow> 'd ClientMetricsSnapshot \<times> unit" where
  "noop_TakeSnapshot fp nowNs capturedAt m = (ClientMetricsSnapshot_zero fp, m)"

section \<open>Requests are accounted for\<close>

text \<open>A run of calls and snapshots with the clock they read; the snapshots are
  collected, newest first.\<close>

datatype ClientStep = Step_Call ClientMetric | Step_Snapshot ticks

fun client_step ::
  "'d Fp \<Rightarrow> uint64 \<times> ClientStep \<Rightarrow> AtomicClientMetrics \<times> 'd ClientMetricsSnapshot list
    \<Rightarrow> AtomicClientMetrics \<times> 'd ClientMetricsSnapshot list" where
  "client_step fp (nowNs, Step_Call c) (m, snaps) = (client_metric nowNs c m, snaps)"
| "client_step fp (nowNs, Step_Snapshot at) (m, snaps) =
     (case Client_TakeSnapshot fp nowNs at m of (snap, m') \<Rightarrow> (m', snap # snaps))"

definition client_run ::
  "'d Fp \<Rightarrow> (uint64 \<times> ClientStep) list \<Rightarrow> AtomicClientMetrics \<times> 'd ClientMetricsSnapshot list" where
  "client_run fp steps = fold (client_step fp) steps (AtomicClientMetrics_new, [])"

text \<open>The sequence numbers of the requests a run registers.\<close>

fun tracked_by :: "ClientStep \<Rightarrow> uint32 list" where
  "tracked_by (Step_Call (CM_TrackRequest sqn responseType timeout)) = (if sqn = 0 \<or> responseType = 0 then [] else [sqn])"
| "tracked_by _ = []"

abbreviation tracked :: "(uint64 \<times> ClientStep) list \<Rightarrow> uint32 list" where
  "tracked steps \<equiv> concat (map (\<lambda>x. tracked_by (snd x)) steps)"

text \<open>Resolved, timed out or pending.\<close>

definition answered :: "AtomicClientMetrics \<times> 'd ClientMetricsSnapshot list \<Rightarrow> uint64" where
  "answered r = tw_count (cm_requestRtt (fst r)) + sum_list (map (tw_count \<circ> cs_requestRtt) (snd r))"

definition accounted :: "AtomicClientMetrics \<times> 'd ClientMetricsSnapshot list \<Rightarrow> uint64" where
  "accounted r = answered r + cm_responseTimeoutTotal (fst r) + of_nat (length (cm_pendingRequests (fst r)))"

definition pending_ok :: "uint64 \<Rightarrow> uint32 set \<Rightarrow> AtomicClientMetrics \<Rightarrow> bool" where
  "pending_ok nowNs sent m \<longleftrightarrow> distinct (keys (cm_pendingRequests m)) \<and> set (keys (cm_pendingRequests m)) \<subseteq> sent
     \<and> (\<forall>(k, req) \<in> set (cm_pendingRequests m). pr_sentAtNs req \<le> nowNs)"

lemma expire_loop_filter:
  "expire_loop nowNs es tot = (filter (\<lambda>e. \<not> expired nowNs (snd e)) es, tot + of_nat (length (filter (\<lambda>e. expired nowNs (snd e)) es)))"
  by (induction es arbitrary: tot) simp_all

lemma expire_loop_account:
  "expire_loop nowNs es tot = (kept, tot') \<Longrightarrow> tot' + of_nat (length kept) = tot + of_nat (length es)"
  using sum_length_filter_compl [of "\<lambda>e. expired nowNs (snd e)" es, symmetric]
  by (auto simp: expire_loop_filter simp flip: of_nat_add)

lemma ObserveDisconnectReason_other [simp]:
  "cm_pendingRequests (ObserveDisconnectReason r m) = cm_pendingRequests m"
  "cm_requestRtt (ObserveDisconnectReason r m) = cm_requestRtt m"
  "cm_responseTimeoutTotal (ObserveDisconnectReason r m) = cm_responseTimeoutTotal m"
  by (cases r; simp)+

text \<open>Only tracking and resolving touch the requests.\<close>

lemma client_metric_other:
  assumes "\<And>a b c. call \<noteq> CM_TrackRequest a b c" and "\<And>a b. call \<noteq> CM_ResolveRequest a b"
  shows "cm_pendingRequests (client_metric nowNs call m) = cm_pendingRequests m"
    and "cm_requestRtt (client_metric nowNs call m) = cm_requestRtt m"
    and "cm_responseTimeoutTotal (client_metric nowNs call m) = cm_responseTimeoutTotal m"
  using assms by (cases call;
    simp add: ObserveConnectLatency_def OnConnected_def OnDisconnected_def OnRecvCompleted_def Let_def)+

lemma pending_ok_later: "pending_ok t sent m \<Longrightarrow> t \<le> t' \<Longrightarrow> sent \<subseteq> sent' \<Longrightarrow> pending_ok t' sent' m"
  unfolding pending_ok_def by fastforce

lemma TrackRequest_ignored: "sqn = 0 \<or> ty = 0 \<Longrightarrow> TrackRequest nowNs sqn ty tmo m = m"
  by (auto simp: TrackRequest_def)

lemma TrackRequest_account:
  assumes "pending_ok nowNs sent m" and "sqn \<noteq> 0" and "ty \<noteq> 0" and "sqn \<notin> sent"
  shows "pending_ok nowNs (insert sqn sent) (TrackRequest nowNs sqn ty tmo m)"
    and "accounted (TrackRequest nowNs sqn ty tmo m, snaps) = accounted (m, snaps) + 1"
proof -
  have "map_of (cm_pendingRequests m) sqn = None"
    using assms(1,4) unfolding pending_ok_def map_of_eq_None_keys by blast
  then show "pending_ok nowNs (insert sqn sent) (TrackRequest nowNs sqn ty tmo m)"
    "accounted (TrackRequest nowNs sqn ty tmo m, snaps) = accounted (m, snaps) + 1"
    using assms by (auto simp: pending_ok_def TrackRequest_def Let_def alist_update_append accounted_def answered_def)
qed

lemma ResolveRequest_ignored:
  "sqn = 0 \<or> (\<forall>req. map_of (cm_pendingRequests m) sqn = Some req \<longrightarrow> pr_responseType req \<noteq> ty)
    \<Longrightarrow> ResolveRequest nowNs sqn ty m = m"
  by (auto simp: ResolveRequest_def split: option.splits)

lemma ResolveRequest_account:
  assumes "pending_ok nowNs sent m"
  shows "pending_ok nowNs sent (ResolveRequest nowNs sqn ty m)"
    and "accounted (ResolveRequest nowNs sqn ty m, snaps) = accounted (m, snaps)"
proof -
  consider "ResolveRequest nowNs sqn ty m = m"
    | req where "map_of (cm_pendingRequests m) sqn = Some req" "sqn \<noteq> 0" "pr_responseType req = ty"
    using ResolveRequest_ignored [of sqn m ty nowNs] by blast
  then have "pending_ok nowNs sent (ResolveRequest nowNs sqn ty m)
      \<and> accounted (ResolveRequest nowNs sqn ty m, snaps) = accounted (m, snaps)"
  proof cases
    case 2
    let ?p = "cm_pendingRequests m"
    have sent: "pr_sentAtNs req \<le> nowNs"
      using assms map_of_SomeD [OF 2(1)] unfolding pending_ok_def by fastforce
    have "Suc (length (alist_erase sqn ?p)) = length ?p"
      using assms 2(1) by (intro length_erase_present) (auto simp: pending_ok_def)
    then have len: "(of_nat (length ?p) :: uint64) = of_nat (length (alist_erase sqn ?p)) + 1"
      by (metis of_nat_Suc add.commute)
    have "pending_ok nowNs sent (m\<lparr>cm_pendingRequests := alist_erase sqn ?p\<rparr>)"
      using assms set_alist_erase_subset [of sqn ?p] unfolding pending_ok_def by (auto simp: keys_erase)
    then show ?thesis
      using 2 sent len by (simp add: ResolveRequest_def Let_def accounted_def answered_def ObserveWindow_def pending_ok_def)
  qed (use assms in simp)
  then show "pending_ok nowNs sent (ResolveRequest nowNs sqn ty m)"
    "accounted (ResolveRequest nowNs sqn ty m, snaps) = accounted (m, snaps)" by simp_all
qed

lemma Client_TakeSnapshot_account:
  assumes "pending_ok nowNs sent m" and "Client_TakeSnapshot fp nowNs at m = (snap, m')"
  shows "pending_ok nowNs sent m'" and "accounted (m', snap # snaps) = accounted (m, snaps)"
    and "\<forall>(k, req) \<in> set (cm_pendingRequests m'). \<not> expired nowNs req"
    and "cs_pendingRequestCount snap = of_nat (length (cm_pendingRequests m'))"
proof -
  obtain kept tot where e: "expire_loop nowNs (cm_pendingRequests m) (cm_responseTimeoutTotal m) = (kept, tot)" by fastforce
  have k: "kept = filter (\<lambda>e. \<not> expired nowNs (snd e)) (cm_pendingRequests m)" using e by (simp add: expire_loop_filter)
  have m': "cm_pendingRequests m' = kept" "cm_responseTimeoutTotal m' = tot" "cm_requestRtt m' = empty_window"
    "cs_requestRtt snap = cm_requestRtt m" "cs_pendingRequestCount snap = of_nat (length kept)"
    using assms(2) e by (auto simp: Client_TakeSnapshot_def ExpireTimedOutRequests_def DrainWindow_def Let_def)
  show "pending_ok nowNs sent m'"
    using assms(1) unfolding pending_ok_def m' k keys_def by (auto simp: distinct_map_filter)
  show "accounted (m', snap # snaps) = accounted (m, snaps)"
    using expire_loop_account [OF e] by (simp add: accounted_def answered_def m' empty_window_def add_ac)
  show "\<forall>(k, req) \<in> set (cm_pendingRequests m'). \<not> expired nowNs req" by (auto simp: m' k)
  show "cs_pendingRequestCount snap = of_nat (length (cm_pendingRequests m'))" by (simp add: m')
qed

lemma client_step_account:
  assumes "pending_ok nowNs sent m" and "set (tracked_by st) \<inter> sent = {}"
    and "client_step fp (nowNs, st) (m, snaps) = (m', snaps')"
  shows "pending_ok nowNs (sent \<union> set (tracked_by st)) m'
    \<and> accounted (m', snaps') = accounted (m, snaps) + of_nat (length (tracked_by st))"
proof (cases st)
  case (Step_Snapshot at)
  then show ?thesis using assms Client_TakeSnapshot_account(1,2) by (fastforce split: prod.splits)
next
  case (Step_Call call)
  show ?thesis
  proof (cases "(\<exists>a b c. call = CM_TrackRequest a b c) \<or> (\<exists>a b. call = CM_ResolveRequest a b)")
    case True
    then show ?thesis
      using assms Step_Call TrackRequest_account ResolveRequest_account
      by (auto simp: TrackRequest_ignored split: if_splits)
  next
    case False
    then have "tracked_by st = []" using Step_Call by (cases call) auto
    then show ?thesis
      using False assms Step_Call client_metric_other [of call nowNs m]
      by (auto simp: pending_ok_def accounted_def answered_def)
  qed
qed

lemma client_run_account:
  assumes "sorted (map fst steps)" and "distinct (tracked steps)"
  shows "pending_ok (if steps = [] then 0 else fst (last steps)) (set (tracked steps)) (fst (client_run fp steps))
    \<and> accounted (client_run fp steps) = of_nat (length (tracked steps))"
  using assms
proof (induction steps rule: rev_induct)
  case Nil
  then show ?case
    by (simp add: client_run_def pending_ok_def accounted_def answered_def AtomicClientMetrics_new_def empty_window_def)
next
  case (snoc x steps)
  obtain nowNs st where x: "x = (nowNs, st)" by fastforce
  obtain m snaps where r: "client_run fp steps = (m, snaps)" by fastforce
  obtain m' snaps' where r': "client_step fp x (m, snaps) = (m', snaps')" by fastforce
  have ih: "pending_ok (if steps = [] then 0 else fst (last steps)) (set (tracked steps)) m"
    "accounted (m, snaps) = of_nat (length (tracked steps))"
    using snoc r by (simp_all add: sorted_append)
  have "(if steps = [] then 0 else fst (last steps)) \<le> nowNs"
    using snoc.prems(1) x by (auto simp: sorted_append)
  then have "pending_ok nowNs (set (tracked steps)) m" using ih(1) pending_ok_later by blast
  moreover have "set (tracked_by st) \<inter> set (tracked steps) = {}" using snoc.prems(2) x by auto
  ultimately have "pending_ok nowNs (set (tracked steps) \<union> set (tracked_by st)) m'
      \<and> accounted (m', snaps') = accounted (m, snaps) + of_nat (length (tracked_by st))"
    using client_step_account [of nowNs _ m st fp snaps m' snaps'] r' x by blast
  then show ?case using ih(2) r r' x by (simp add: client_run_def)
qed

text \<open>C19: no tracked request is forgotten.  In every run in which the clock does not go
  back and no sequence number is used twice, every request that was registered is
  at the end counted exactly once: by the round-trip windows of the snapshots and the
  current one, as a response timeout, or as pending; and a snapshot leaves no request
  pending whose deadline has passed.\<close>

theorem requests_accounted:
  assumes "sorted (map fst steps)" and "distinct (tracked steps)" and "client_run fp steps = (m, snaps)"
  shows "of_nat (length (tracked steps))
      = tw_count (cm_requestRtt m) + sum_list (map (tw_count \<circ> cs_requestRtt) snaps)
        + cm_responseTimeoutTotal m + of_nat (length (cm_pendingRequests m))
    \<and> distinct (keys (cm_pendingRequests m)) \<and> set (keys (cm_pendingRequests m)) \<subseteq> set (tracked steps)
    \<and> (\<forall>nowNs at snap m'. Client_TakeSnapshot fp nowNs at m = (snap, m') \<longrightarrow>
         (\<forall>(k, req) \<in> set (cm_pendingRequests m'). \<not> expired nowNs req)
         \<and> cs_pendingRequestCount snap = of_nat (length (cm_pendingRequests m')))"
proof -
  have "Client_TakeSnapshot fp nowNs at m = (snap, m') \<Longrightarrow>
      (\<forall>(k, req) \<in> set (cm_pendingRequests m'). \<not> expired nowNs req)
      \<and> cs_pendingRequestCount snap = of_nat (length (cm_pendingRequests m'))" for nowNs at snap m'
    by (auto simp: Client_TakeSnapshot_def ExpireTimedOutRequests_def DrainWindow_def Let_def expire_loop_filter)
  then show ?thesis
    using client_run_account [OF assms(1,2), of fp] assms(3) by (simp add: accounted_def answered_def pending_ok_def)
qed

text \<open>A request answered after 5 ns, one timed out, one still pending.\<close>

definition demo_steps :: "(uint64 \<times> ClientStep) list" where
  "demo_steps = [(1, Step_Call (CM_TrackRequest 1 2 1)), (2, Step_Call (CM_TrackRequest 2 2 0)),
     (6, Step_Call (CM_TrackRequest 3 4 1)), (7, Step_Call (CM_ResolveRequest 1 2)), (1000007, Step_Snapshot 9)]"

lemma requests_accounted_witness:
  "\<forall>fp :: unit Fp. (3 :: uint64) = tw_count (cm_requestRtt (fst (client_run fp demo_steps)))
        + sum_list (map (tw_count \<circ> cs_requestRtt) (snd (client_run fp demo_steps)))
        + cm_responseTimeoutTotal (fst (client_run fp demo_steps))
        + of_nat (length (cm_pendingRequests (fst (client_run fp demo_steps))))"
proof
  fix fp :: "unit Fp"
  show "(3 :: uint64) = tw_count (cm_requestRtt (fst (client_run fp demo_steps)))
        + sum_list (map (tw_count \<circ> cs_requestRtt) (snd (client_run fp demo_steps)))
        + cm_responseTimeoutTotal (fst (client_run fp demo_steps))
        + of_nat (length (cm_pendingRequests (fst (client_run fp demo_steps))))"
    using requests_accounted [of demo_steps fp "fst (client_run fp demo_steps)" "snd (client_run fp demo_steps)"]
    by (simp add: demo_steps_def)
qed

end
