(* ===== verification/ChatClient.thy ===== *)
theory ChatClient
  imports ClientSocket ClientMetrics Protocol
begin

text \<open>
  The chat client (exec/chat/chat-client): the console, the connection with its
  receive thread, the senders of PacketSender.cpp, the receiver of
  PacketReceiver.cpp and the command line of ChatCli.cpp.

  The metrics object is the list of its calls with the clock each of them reads.
  The logger writes to the console, as \<open>PromptAwareTextLogger\<close> does.  Names of
  enumeration values come from generated code and are an argument, as are the
  FlatBuffers functions and the results of the system calls.
\<close>

section \<open>The console\<close>

datatype ConsoleOut = Out_Text string | Out_ClearLine

record ConsoleState =
  con_prompt :: string
  con_promptVisible :: bool
  con_terminal :: bool
  con_out :: "ConsoleOut list"

definition ConsoleState_new :: "bool \<Rightarrow> ConsoleState" where
  "ConsoleState_new terminal = \<lparr>con_prompt = [], con_promptVisible = False, con_terminal = terminal, con_out = []\<rparr>"

text \<open>Without a console screen buffer (\<open>con_terminal\<close> false) only a carriage return is
  written.\<close>

definition ClearPromptLineUnlocked :: "ConsoleState \<Rightarrow> ConsoleState" where
  "ClearPromptLineUnlocked con =
     con\<lparr>con_out := con_out con @ [if con_terminal con then Out_ClearLine else Out_Text [CHR 0x0D]]\<rparr>"

definition PrintPromptUnlocked :: "ConsoleState \<Rightarrow> ConsoleState" where
  "PrintPromptUnlocked con = con\<lparr>con_out := con_out con @ [Out_Text (''[INFO] '' @ con_prompt con)]\<rparr>"

definition Console_Log :: "string \<Rightarrow> string \<Rightarrow> ConsoleState \<Rightarrow> ConsoleState" where
  "Console_Log level message con =
     (let con1 = (if con_promptVisible con then ClearPromptLineUnlocked con else con);
          con2 = con1\<lparr>con_out := con_out con1 @ [Out_Text (''['' @ level @ ''] '' @ message @ [CHR 0x0A])]\<rparr>
      in if con_promptVisible con2 then PrintPromptUnlocked con2 else con2)"

definition ShowPrompt :: "string \<Rightarrow> ConsoleState \<Rightarrow> ConsoleState" where
  "ShowPrompt prompt con = PrintPromptUnlocked (con\<lparr>con_prompt := prompt, con_promptVisible := True\<rparr>)"

definition HidePrompt :: "ConsoleState \<Rightarrow> ConsoleState" where
  "HidePrompt con = con\<lparr>con_promptVisible := False\<rparr>"

section \<open>Client\<close>

fun toDisconnectMessage :: "ClientDisconnectReason \<Rightarrow> string" where
  "toDisconnectMessage CDR_Timeout = ''Disconnected from server (timeout).''"
| "toDisconnectMessage CDR_ServerClose = ''Disconnected from server (server close).''"
| "toDisconnectMessage CDR_RecvFail = ''Disconnected from server (recv fail).''"
| "toDisconnectMessage CDR_LocalClose = ''Disconnected from server.''"
| "toDisconnectMessage CDR_None = ''Disconnected from server (unknown).''"

text \<open>The values of the enumeration in enum.fbs.\<close>

fun message_number :: "MessageType \<Rightarrow> int" where
  "message_number MT_None = 0"
| "message_number CS_JoinRoom = 1"
| "message_number CS_LeaveRoom = 2"
| "message_number CS_SendMessage = 3"
| "message_number SC_JoinedRoom = 100"
| "message_number SC_LeftRoom = 101"
| "message_number B_UserJoined = 150"
| "message_number B_UserLeft = 151"
| "message_number B_ChatMessage = 152"
| "message_number SC_Error = 999"

record ChatClient =
  cc_hasMetrics :: bool
  cc_responseTimeout :: int
  cc_wsaSession :: "WsaSession option"
  cc_tcpClientSocket :: "TcpClientSocket option"
  cc_packetStream :: "PacketStream option"
  cc_recvThread :: bool
  cc_isConnected :: bool
  cc_nextSequence :: uint32
  cc_calls :: "(uint64 \<times> ClientMetric) list"
  cc_os :: "OsCall list"
  cc_console :: ConsoleState

definition ChatClient_new :: "bool \<Rightarrow> int \<Rightarrow> ConsoleState \<Rightarrow> ChatClient" where
  "ChatClient_new hasMetrics responseTimeout con =
     \<lparr>cc_hasMetrics = hasMetrics, cc_responseTimeout = responseTimeout, cc_wsaSession = None, cc_tcpClientSocket = None,
      cc_packetStream = None, cc_recvThread = False, cc_isConnected = False, cc_nextSequence = 1, cc_calls = [],
      cc_os = [], cc_console = con\<rparr>"

definition report :: "uint64 \<Rightarrow> ClientMetric \<Rightarrow> ChatClient \<Rightarrow> ChatClient" where
  "report nowNs call c = (if cc_hasMetrics c then c\<lparr>cc_calls := cc_calls c @ [(nowNs, call)]\<rparr> else c)"

definition log_line :: "string \<Rightarrow> string \<Rightarrow> ChatClient \<Rightarrow> ChatClient" where
  "log_line level message c = c\<lparr>cc_console := Console_Log level message (cc_console c)\<rparr>"

text \<open>The destructors: a socket closes itself, a session cleans up.\<close>

definition destroy_socket :: "TcpClientSocket option \<Rightarrow> OsCall list" where
  "destroy_socket s = (case s of None \<Rightarrow> [] | Some t \<Rightarrow> snd (tcp_Close t))"

definition destroy_session :: "WsaSession option \<Rightarrow> OsCall list" where
  "destroy_session ws = (case ws of None \<Rightarrow> [] | Some t \<Rightarrow> snd (WsaSession_Cleanup t))"

text \<open>\<open>Disconnect\<close> in the pieces between which the receive thread may run: the exchange of
  the flag, the close of the socket, and, once the thread has been joined, the release
  and the report.\<close>

definition disconnect_exchange :: "ChatClient \<Rightarrow> bool \<times> ChatClient" where
  "disconnect_exchange c = (cc_isConnected c, c\<lparr>cc_isConnected := False\<rparr>)"

definition close_socket :: "ChatClient \<Rightarrow> ChatClient" where
  "close_socket c =
     (case cc_tcpClientSocket c of None \<Rightarrow> c
      | Some s \<Rightarrow> case tcp_Close s of (s', os) \<Rightarrow> c\<lparr>cc_tcpClientSocket := Some s', cc_os := cc_os c @ os\<rparr>)"

definition disconnect_release :: "ChatClient \<Rightarrow> ChatClient" where
  "disconnect_release c =
     c\<lparr>cc_recvThread := False, cc_packetStream := None, cc_tcpClientSocket := None, cc_wsaSession := None,
       cc_os := cc_os c @ destroy_socket (cc_tcpClientSocket c) @ destroy_session (cc_wsaSession c)\<rparr>"

definition disconnect_report :: "uint64 \<Rightarrow> ClientDisconnectReason \<Rightarrow> bool \<Rightarrow> ChatClient \<Rightarrow> ChatClient" where
  "disconnect_report nowNs reason wasConnected c =
     (if wasConnected then log_line ''INFO'' (toDisconnectMessage reason) (report nowNs (CM_Disconnected reason) c) else c)"

definition ChatClient_Disconnect :: "uint64 \<Rightarrow> ClientDisconnectReason \<Rightarrow> ChatClient \<Rightarrow> ChatClient" where
  "ChatClient_Disconnect nowNs reason c =
     (case disconnect_exchange c of (wasConnected, c1) \<Rightarrow>
        disconnect_report nowNs reason wasConnected (disconnect_release (close_socket c1)))"

definition ChatClient_destroy :: "uint64 \<Rightarrow> ChatClient \<Rightarrow> ChatClient" where
  "ChatClient_destroy nowNs c =
     (if cc_isConnected c \<or> cc_recvThread c \<or> cc_tcpClientSocket c \<noteq> None \<or> cc_wsaSession c \<noteq> None
      then ChatClient_Disconnect nowNs CDR_LocalClose c else c)"

text \<open>The result of \<open>WSAStartup\<close> and of the socket calls, and the time they take.\<close>

record ClientConnectEnv =
  ce_startup :: int
  ce_net :: ConnectEnv
  ce_elapsed :: int
  ce_now :: uint64

definition ChatClient_Connect ::
  "ClientConnectEnv \<Rightarrow> string \<Rightarrow> 16 word \<Rightarrow> ChatClient \<Rightarrow> bool \<times> ChatClient" where
  "ChatClient_Connect env ipAddress port c0 =
     (let c = (if cc_isConnected c0 then ChatClient_Disconnect (ce_now env) CDR_LocalClose c0 else c0);
          latency = (\<lambda>ok. report (ce_now env) (CM_ConnectLatency (ce_elapsed env) ok));
          address = ipAddress @ '':'' @ render_nat (unat port)
      in case WsaSession_Create (ce_startup env) of
           Inl _ \<Rightarrow> (False, log_line ''ERROR'' ''Failed to initialize WSA session.'' (latency False c))
         | Inr wsaSession \<Rightarrow>
             let c1 = log_line ''INFO'' (''Connecting to '' @ address) c in
             case tcp_Connect (ce_net env) port (TcpClientSocket_new True) of
               (Inl _, socket, os) \<Rightarrow>
                 (False, (log_line ''ERROR'' ''Connect failed.'' (latency False c1))
                    \<lparr>cc_os := cc_os c1 @ os @ destroy_socket (Some socket) @ destroy_session (Some wsaSession)\<rparr>)
             | (Inr _, socket, os) \<Rightarrow>
                 (True, log_line ''INFO'' (''Connected to '' @ address)
                    (report (ce_now env) CM_Connected (latency True
                      (c1\<lparr>cc_wsaSession := Some wsaSession, cc_tcpClientSocket := Some socket,
                          cc_packetStream := Some (PacketStream_new maxFrameSize), cc_isConnected := True,
                          cc_os := cc_os c1 @ os @ destroy_socket (cc_tcpClientSocket c1) @ destroy_session (cc_wsaSession c1)\<rparr>)))))"

definition NextSequence :: "ChatClient \<Rightarrow> uint32 \<times> ChatClient" where
  "NextSequence c = (cc_nextSequence c, c\<lparr>cc_nextSequence := cc_nextSequence c + 1\<rparr>)"

record RequestTracking =
  rt_sequence :: uint32
  rt_responseType :: MessageType

definition ChatClient_Send ::
  "PacketApi \<Rightarrow> 'w send_fn \<Rightarrow> uint64 \<Rightarrow> Packet \<Rightarrow> RequestTracking \<Rightarrow> ChatClient \<times> 'w \<Rightarrow> ChatClient \<times> 'w" where
  "ChatClient_Send api send nowNs packet tracking cw =
     (case cw of (c, w) \<Rightarrow>
      case cc_tcpClientSocket c of
        None \<Rightarrow> (log_line ''ERROR'' ''Not connected to server.'' c, w)
      | Some s \<Rightarrow>
          if cc_packetStream c = None \<or> \<not> tcp_IsConnected s then (log_line ''ERROR'' ''Not connected to server.'' c, w)
          else let buf = api_bytes api packet in
            case SendFrame send s buf w of
              (Inl _, w') \<Rightarrow> (log_line ''ERROR'' ''Send failed.'' (report nowNs CM_SendFailed c), w')
            | (Inr _, w') \<Rightarrow>
                let c1 = report nowNs (CM_SendCompleted (of_nat (length buf))) c in
                (if rt_sequence tracking \<noteq> 0 \<and> rt_responseType tracking \<noteq> MT_None
                 then report nowNs (CM_TrackRequest (rt_sequence tracking) (message_number (rt_responseType tracking))
                        (cc_responseTimeout c1)) c1
                 else c1, w'))"

section \<open>The receive thread\<close>

text \<open>What the thread does with a lost connection after it has found the flag set, and
  with a received buffer.  The callback may dereference a null table, which ends the
  program: \<open>None\<close>.\<close>

definition recv_lost_reason :: "ENetworkError \<Rightarrow> ClientDisconnectReason" where
  "recv_lost_reason e = (if e = SocketInvalid then CDR_ServerClose else CDR_RecvFail)"

definition recv_lost_report :: "uint64 \<Rightarrow> ENetworkError \<Rightarrow> ChatClient \<Rightarrow> ChatClient" where
  "recv_lost_report nowNs e c =
     log_line ''ERROR'' (toDisconnectMessage (recv_lost_reason e)) (report nowNs (CM_Disconnected (recv_lost_reason e)) c)"

definition recv_buffer ::
  "PacketApi \<Rightarrow> uint64 \<Rightarrow> (Packet \<Rightarrow> ChatClient \<Rightarrow> ChatClient option) \<Rightarrow> byte list \<Rightarrow> ChatClient
    \<Rightarrow> ChatClient option" where
  "recv_buffer api nowNs cb recvBuffer c =
     (if recvBuffer = [] then Some c
      else let c1 = report nowNs (CM_RecvCompleted (of_nat (length recvBuffer))) c in
        if \<not> api_verify api recvBuffer
        then Some (log_line ''WARN'' ''Received invalid packet.'' (report nowNs CM_PacketValidationFailed c1))
        else case api_get api recvBuffer of
               None \<Rightarrow> Some c1
             | Some pkt \<Rightarrow>
                 cb pkt (report nowNs (CM_ResolveRequest (pk_sequence pkt) (message_number (pk_type pkt)))
                   (report nowNs CM_PacketValidationSucceeded c1)))"

section \<open>Sending requests\<close>

definition sendJoinRoom ::
  "PacketApi \<Rightarrow> 'w send_fn \<Rightarrow> uint64 \<Rightarrow> string \<Rightarrow> ChatClient \<times> 'w \<Rightarrow> ChatClient \<times> 'w" where
  "sendJoinRoom api send nowNs nickname cw =
     (case cw of (c, w) \<Rightarrow> case NextSequence c of (seqn, c1) \<Rightarrow>
        ChatClient_Send api send nowNs (makeJoinRoomRequest nickname seqn)
          \<lparr>rt_sequence = seqn, rt_responseType = SC_JoinedRoom\<rparr> (c1, w))"

definition sendLeave :: "PacketApi \<Rightarrow> 'w send_fn \<Rightarrow> uint64 \<Rightarrow> ChatClient \<times> 'w \<Rightarrow> ChatClient \<times> 'w" where
  "sendLeave api send nowNs cw =
     (case cw of (c, w) \<Rightarrow> case NextSequence c of (seqn, c1) \<Rightarrow>
        ChatClient_Send api send nowNs (makeLeaveRoomRequest 0 seqn)
          \<lparr>rt_sequence = seqn, rt_responseType = SC_LeftRoom\<rparr> (c1, w))"

definition sendMessage ::
  "PacketApi \<Rightarrow> 'w send_fn \<Rightarrow> uint64 \<Rightarrow> string \<Rightarrow> string \<Rightarrow> ChatClient \<times> 'w \<Rightarrow> ChatClient \<times> 'w" where
  "sendMessage api send nowNs username message cw =
     (case cw of (c, w) \<Rightarrow> case NextSequence c of (seqn, c1) \<Rightarrow>
        ChatClient_Send api send nowNs (makeSendMessageRequest 0 username message seqn)
          \<lparr>rt_sequence = seqn, rt_responseType = B_ChatMessage\<rparr> (c1, w))"

section \<open>Receiving packets\<close>

record EnumNames =
  en_message :: "MessageType \<Rightarrow> string"
  en_error :: "ErrorCode \<Rightarrow> string"

text \<open>\<open>None\<close> is the dereference of a null pointer: the tag of the union need not be the one
  the message type announces, and the message of an error is an optional field.\<close>

definition onPacketReceived :: "EnumNames \<Rightarrow> Packet \<Rightarrow> ChatClient \<Rightarrow> ChatClient option" where
  "onPacketReceived names packet c =
     (case pk_type packet of
        SC_JoinedRoom \<Rightarrow>
          (case payload_as P_JoinedRoomResponse packet of
             Some (JoinedRoomResponse (Some (_, Some message))) \<Rightarrow> Some (log_line ''WARN'' (''[JoinedRoom] err='' @ c_str message) c)
           | Some (JoinedRoomResponse None) \<Rightarrow> Some (log_line ''INFO'' ''[JoinedRoom] ok'' c)
           | _ \<Rightarrow> None)
      | SC_LeftRoom \<Rightarrow>
          (case payload_as P_LeftRoomResponse packet of
             Some (LeftRoomResponse (Some (_, Some message))) \<Rightarrow> Some (log_line ''WARN'' (''[LeftRoom] err='' @ c_str message) c)
           | Some (LeftRoomResponse None) \<Rightarrow> Some (log_line ''INFO'' ''[LeftRoom] ok'' c)
           | _ \<Rightarrow> None)
      | B_UserJoined \<Rightarrow>
          (case payload_as P_UserJoinedBroadcast packet of
             Some (UserJoinedBroadcast roomId _ username _) \<Rightarrow>
               Some (log_line ''INFO'' (''[UserJoined] user='' @ c_str username @ '' roomId='' @ render_nat (unat roomId)) c)
           | _ \<Rightarrow> None)
      | B_UserLeft \<Rightarrow>
          (case payload_as P_UserLeftBroadcast packet of
             Some (UserLeftBroadcast _ username) \<Rightarrow> Some (log_line ''INFO'' (''[UserLeft] user='' @ c_str username) c)
           | _ \<Rightarrow> None)
      | B_ChatMessage \<Rightarrow>
          (case payload_as P_ChatMessageBroadcast packet of
             Some (ChatMessageBroadcast senderId username message _) \<Rightarrow>
               Some (log_line ''INFO'' (''[Chat] '' @ render_nat (unat senderId) @ ''['' @ c_str username @ '']: '' @ c_str message) c)
           | _ \<Rightarrow> None)
      | SC_Error \<Rightarrow>
          (case payload_as P_ErrorResponse packet of
             Some (ErrorResponse code message _) \<Rightarrow>
               Some (log_line ''ERROR'' (''[ServerError] code='' @ en_error names code @ '', message='' @ (case message of None \<Rightarrow> [] | Some m \<Rightarrow> c_str m)) c)
           | _ \<Rightarrow> Some c)
      | _ \<Rightarrow> Some (log_line ''ERROR'' (''[Invalid] type='' @ en_message names (pk_type packet)) c))"

section \<open>The command line\<close>

datatype Command = Cmd_Quit | Cmd_Help | Cmd_Join | Cmd_Leave | Cmd_Unknown

definition parseCommand :: "string \<Rightarrow> Command" where
  "parseCommand cmd =
     (if cmd = ''/quit'' then Cmd_Quit else if cmd = ''/help'' then Cmd_Help
      else if cmd = ''/join'' then Cmd_Join else if cmd = ''/leave'' then Cmd_Leave else Cmd_Unknown)"

datatype Action = Act_Continue | Act_Quit

record 'w ChatCli =
  cli_client :: ChatClient
  cli_world :: 'w
  cli_nickname :: string
  cli_joined :: bool

abbreviation on_client :: "(ChatClient \<Rightarrow> ChatClient) \<Rightarrow> 'w ChatCli \<Rightarrow> 'w ChatCli" where
  "on_client f cli \<equiv> cli\<lparr>cli_client := f (cli_client cli)\<rparr>"

abbreviation on_console :: "(ConsoleState \<Rightarrow> ConsoleState) \<Rightarrow> 'w ChatCli \<Rightarrow> 'w ChatCli" where
  "on_console f \<equiv> on_client (\<lambda>c. c\<lparr>cc_console := f (cc_console c)\<rparr>)"

abbreviation on_wire :: "(ChatClient \<times> 'w \<Rightarrow> ChatClient \<times> 'w) \<Rightarrow> 'w ChatCli \<Rightarrow> 'w ChatCli" where
  "on_wire f cli \<equiv> cli\<lparr>cli_client := fst (f (cli_client cli, cli_world cli)), cli_world := snd (f (cli_client cli, cli_world cli))\<rparr>"

text \<open>An input line is \<open>Some\<close> line, or \<open>None\<close> at the end of the input, which leaves
  the string empty.\<close>

definition PromptNickname :: "string option \<Rightarrow> 'w ChatCli \<Rightarrow> 'w ChatCli" where
  "PromptNickname input cli =
     (let cli1 = on_console HidePrompt (on_console (ShowPrompt ''Enter nickname: '') cli);
          nickname = (case input of None \<Rightarrow> [] | Some line \<Rightarrow> line);
          cli2 = cli1\<lparr>cli_nickname := (if nickname = [] then ''guest'' else nickname)\<rparr>
      in on_client (log_line ''INFO'' (''Nickname set to '' @ [CHR 0x27] @ cli_nickname cli2 @ [CHR 0x27])) cli2)"

definition PrintHelp :: "'w ChatCli \<Rightarrow> 'w ChatCli" where
  "PrintHelp = on_client (fold (log_line ''INFO'')
     [''Commands:'', ''  /join   - Join the server'', ''  /leave  - Leave the server'',
      ''  /help   - Show this help'', ''  /quit   - Disconnect and exit'', ''  <text>  - Send chat message''])"

definition BuildPrompt :: "'w ChatCli \<Rightarrow> string" where
  "BuildPrompt cli = (if cli_joined cli then ''['' @ cli_nickname cli @ ''] > '' else ''[not joined] > '')"

definition PrintPrompt :: "'w ChatCli \<Rightarrow> 'w ChatCli" where
  "PrintPrompt cli = on_console (ShowPrompt (BuildPrompt cli)) cli"

definition HandleCommand :: "PacketApi \<Rightarrow> 'w send_fn \<Rightarrow> uint64 \<Rightarrow> string \<Rightarrow> 'w ChatCli \<Rightarrow> Action \<times> 'w ChatCli" where
  "HandleCommand api send nowNs line cli =
     (let quotedName = [CHR 0x27] @ cli_nickname cli @ [CHR 0x27] in
      case parseCommand line of
        Cmd_Quit \<Rightarrow> (Act_Quit, cli)
      | Cmd_Help \<Rightarrow> (Act_Continue, PrintHelp cli)
      | Cmd_Join \<Rightarrow>
          (Act_Continue,
           if cli_joined cli then on_client (log_line ''WARN'' ''Already joined.'') cli
           else on_client (log_line ''INFO'' (quotedName @ '' joined the server''))
                  ((on_wire (sendJoinRoom api send nowNs (cli_nickname cli)) cli)\<lparr>cli_joined := True\<rparr>))
      | Cmd_Leave \<Rightarrow>
          (Act_Continue,
           if \<not> cli_joined cli then on_client (log_line ''WARN'' ''Not joined.'') cli
           else on_client (log_line ''INFO'' (quotedName @ '' left the server''))
                  ((on_wire (sendLeave api send nowNs) cli)\<lparr>cli_joined := False\<rparr>))
      | Cmd_Unknown \<Rightarrow> (Act_Continue, on_client (log_line ''WARN'' ''Unknown command. Type /help for usage.'') cli))"

definition HandleChat :: "PacketApi \<Rightarrow> 'w send_fn \<Rightarrow> uint64 \<Rightarrow> string \<Rightarrow> 'w ChatCli \<Rightarrow> Action \<times> 'w ChatCli" where
  "HandleChat api send nowNs line cli =
     (Act_Continue,
      if \<not> cli_joined cli then on_client (log_line ''WARN'' ''Not joined. Use /join first.'') cli
      else on_wire (sendMessage api send nowNs (cli_nickname cli) line) cli)"

text \<open>The loop over the lines of the input with the clock at each of them; the end of
  the list is the end of the input.\<close>

fun run_lines :: "PacketApi \<Rightarrow> 'w send_fn \<Rightarrow> (uint64 \<times> string) list \<Rightarrow> 'w ChatCli \<Rightarrow> 'w ChatCli" where
  "run_lines api send [] cli = on_console HidePrompt (PrintPrompt cli)"
| "run_lines api send ((nowNs, line) # rest) cli =
     (let cli1 = on_console HidePrompt (PrintPrompt cli) in
      if line = [] then run_lines api send rest cli1
      else case (if hd line = CHR ''/'' then HandleCommand api send nowNs line cli1
                 else HandleChat api send nowNs line cli1) of
             (Act_Quit, cli2) \<Rightarrow> cli2
           | (Act_Continue, cli2) \<Rightarrow> run_lines api send rest cli2)"

definition Cli_Run :: "PacketApi \<Rightarrow> 'w send_fn \<Rightarrow> (uint64 \<times> string) list \<Rightarrow> 'w ChatCli \<Rightarrow> 'w ChatCli" where
  "Cli_Run api send input cli = run_lines api send input (PrintHelp cli)"

section \<open>The two threads of a connection\<close>

text \<open>The main thread in a call of \<open>Disconnect\<close> and the receive thread, at the grain of
  their accesses to the shared flag and to the stop token.  The value carried by the
  main thread is \<open>wasConnected\<close>.  Closing the socket is one step.\<close>

datatype MainPc = Main_Idle | Main_Exchanged bool | Main_StopRequested bool | Main_Closed bool | Main_Returned

datatype RecvPc =
    Recv_TestStop | Recv_TestFlag | Recv_Frame | Recv_Buffer "byte list"
  | Recv_FailedStop ENetworkError | Recv_FailedFlag ENetworkError
  | Recv_Lost ENetworkError | Recv_LostClose ENetworkError | Recv_LostReport ENetworkError
  | Recv_Exited | Recv_Crashed

record 'w ClientRun =
  cr_client :: ChatClient
  cr_world :: 'w
  cr_stop :: bool
  cr_main :: MainPc
  cr_recv :: RecvPc

text \<open>\<open>StartRecvLoop\<close>: the thread begins at the test of the loop.\<close>

definition StartRecvLoop :: "ChatClient \<Rightarrow> 'w \<Rightarrow> 'w ClientRun" where
  "StartRecvLoop c w = \<lparr>cr_client = c\<lparr>cc_recvThread := True\<rparr>, cr_world = w, cr_stop = False, cr_main = Main_Idle, cr_recv = Recv_TestStop\<rparr>"

definition recv_stream :: "'w recv_fn \<Rightarrow> ChatClient \<Rightarrow> 'w \<Rightarrow> (ENetworkError + nat) \<times> byte list \<times> 'w" where
  "recv_stream recv c w = RecvFrame recv (the (cc_tcpClientSocket c)) (the (cc_packetStream c)) [] w"

inductive thread_step ::
  "PacketApi \<Rightarrow> 'w recv_fn \<Rightarrow> (Packet \<Rightarrow> ChatClient \<Rightarrow> ChatClient option) \<Rightarrow> 'w ClientRun \<Rightarrow> 'w ClientRun \<Rightarrow> bool"
  for api :: PacketApi and recv :: "'w recv_fn" and cb :: "Packet \<Rightarrow> ChatClient \<Rightarrow> ChatClient option" where
  main_exchange: "cr_main r = Main_Idle \<Longrightarrow> disconnect_exchange (cr_client r) = (was, c) \<Longrightarrow>
    thread_step api recv cb r (r\<lparr>cr_client := c, cr_main := Main_Exchanged was\<rparr>)"
| main_stop: "cr_main r = Main_Exchanged was \<Longrightarrow>
    thread_step api recv cb r (r\<lparr>cr_stop := cr_stop r \<or> cc_recvThread (cr_client r), cr_main := Main_StopRequested was\<rparr>)"
| main_close: "cr_main r = Main_StopRequested was \<Longrightarrow>
    thread_step api recv cb r (r\<lparr>cr_client := close_socket (cr_client r), cr_main := Main_Closed was\<rparr>)"
| main_join: "cr_main r = Main_Closed was \<Longrightarrow> cc_recvThread (cr_client r) \<longrightarrow> cr_recv r = Recv_Exited \<Longrightarrow>
    thread_step api recv cb r (r\<lparr>cr_client := disconnect_report nowNs CDR_LocalClose was (disconnect_release (cr_client r)),
      cr_main := Main_Returned\<rparr>)"
| recv_stop: "cr_recv r = Recv_TestStop \<Longrightarrow>
    thread_step api recv cb r (r\<lparr>cr_recv := (if cr_stop r then Recv_Exited else Recv_TestFlag)\<rparr>)"
| recv_flag: "cr_recv r = Recv_TestFlag \<Longrightarrow>
    thread_step api recv cb r (r\<lparr>cr_recv := (if cc_isConnected (cr_client r) then Recv_Frame else Recv_Exited)\<rparr>)"
| recv_frame: "cr_recv r = Recv_Frame \<Longrightarrow> recv_stream recv (cr_client r) (cr_world r) = (res, buf, w) \<Longrightarrow>
    thread_step api recv cb r (r\<lparr>cr_world := w,
      cr_recv := (case res of Inl e \<Rightarrow> Recv_FailedStop e | Inr _ \<Rightarrow> Recv_Buffer buf)\<rparr>)"
| recv_packet: "cr_recv r = Recv_Buffer buf \<Longrightarrow> recv_buffer api nowNs cb buf (cr_client r) = Some c \<Longrightarrow>
    thread_step api recv cb r (r\<lparr>cr_client := c, cr_recv := Recv_TestStop\<rparr>)"
| recv_crash: "cr_recv r = Recv_Buffer buf \<Longrightarrow> recv_buffer api nowNs cb buf (cr_client r) = None \<Longrightarrow>
    thread_step api recv cb r (r\<lparr>cr_recv := Recv_Crashed\<rparr>)"
| recv_failed_stop: "cr_recv r = Recv_FailedStop e \<Longrightarrow>
    thread_step api recv cb r (r\<lparr>cr_recv := (if cr_stop r then Recv_Exited else Recv_FailedFlag e)\<rparr>)"
| recv_failed_flag: "cr_recv r = Recv_FailedFlag e \<Longrightarrow>
    thread_step api recv cb r (r\<lparr>cr_recv := (if cc_isConnected (cr_client r) then Recv_Lost e else Recv_Exited)\<rparr>)"
| recv_lost: "cr_recv r = Recv_Lost e \<Longrightarrow>
    thread_step api recv cb r (r\<lparr>cr_client := (cr_client r)\<lparr>cc_isConnected := False\<rparr>, cr_recv := Recv_LostClose e\<rparr>)"
| recv_lost_close: "cr_recv r = Recv_LostClose e \<Longrightarrow>
    thread_step api recv cb r (r\<lparr>cr_client := close_socket (cr_client r), cr_recv := Recv_LostReport e\<rparr>)"
| recv_lost_report: "cr_recv r = Recv_LostReport e \<Longrightarrow>
    thread_step api recv cb r (r\<lparr>cr_client := recv_lost_report nowNs e (cr_client r), cr_recv := Recv_Exited\<rparr>)"

section \<open>A connection and its end\<close>

definition disconnects :: "ChatClient \<Rightarrow> nat" where
  "disconnects c = length (filter (\<lambda>(_, call). \<exists>reason. call = CM_Disconnected reason) (cc_calls c))"

lemma disconnects_report [simp]:
  "disconnects (report nowNs call c) =
    disconnects c + (if cc_hasMetrics c \<and> (\<exists>reason. call = CM_Disconnected reason) then 1 else 0)"
  by (simp add: disconnects_def report_def)

lemma disconnects_update [simp]:
  "disconnects (c\<lparr>cc_isConnected := b\<rparr>) = disconnects c" "disconnects (c\<lparr>cc_console := con\<rparr>) = disconnects c"
  "disconnects (c\<lparr>cc_recvThread := b\<rparr>) = disconnects c"
  by (simp_all add: disconnects_def)

lemma report_log_other [simp]:
  "disconnects (log_line level msg c) = disconnects c"
  "cc_isConnected (report nowNs call c) = cc_isConnected c" "cc_isConnected (log_line level msg c) = cc_isConnected c"
  "cc_hasMetrics (report nowNs call c) = cc_hasMetrics c" "cc_hasMetrics (log_line level msg c) = cc_hasMetrics c"
  "cc_recvThread (report nowNs call c) = cc_recvThread c" "cc_recvThread (log_line level msg c) = cc_recvThread c"
  "cc_tcpClientSocket (report nowNs call c) = cc_tcpClientSocket c"
  "cc_tcpClientSocket (log_line level msg c) = cc_tcpClientSocket c"
  "cc_packetStream (report nowNs call c) = cc_packetStream c" "cc_packetStream (log_line level msg c) = cc_packetStream c"
  "cc_wsaSession (report nowNs call c) = cc_wsaSession c" "cc_wsaSession (log_line level msg c) = cc_wsaSession c"
  "cc_os (report nowNs call c) = cc_os c" "cc_os (log_line level msg c) = cc_os c"
  by (simp_all add: report_def log_line_def disconnects_def)

text \<open>What the callback of the receive thread may change: nothing but the console.\<close>

definition only_console :: "(Packet \<Rightarrow> ChatClient \<Rightarrow> ChatClient option) \<Rightarrow> bool" where
  "only_console cb \<longleftrightarrow> (\<forall>p c c'. cb p c = Some c' \<longrightarrow> (\<exists>con. c' = c\<lparr>cc_console := con\<rparr>))"

lemma onPacketReceived_only_console: "only_console (onPacketReceived names)"
  unfolding only_console_def
proof (intro allI impI)
  fix p c c'
  assume h: "onPacketReceived names p c = Some c'"
  have "c' = c \<or> (\<exists>level msg. c' = log_line level msg c)"
    using h by (cases "pk_type p"; force simp: onPacketReceived_def split: option.splits Payload.splits)
  moreover have "c = c\<lparr>cc_console := cc_console c\<rparr>" by simp
  ultimately show "\<exists>con. c' = c\<lparr>cc_console := con\<rparr>" unfolding log_line_def by metis
qed

text \<open>The reports the two threads may still make.\<close>

fun recv_due :: "bool \<Rightarrow> RecvPc \<Rightarrow> nat" where
  "recv_due connected (Recv_Lost e) = 1"
| "recv_due connected (Recv_LostClose e) = 1"
| "recv_due connected (Recv_LostReport e) = 1"
| "recv_due connected Recv_Exited = 0"
| "recv_due connected _ = (if connected then 1 else 0)"

fun recv_owes :: "RecvPc \<Rightarrow> nat" where
  "recv_owes (Recv_LostClose e) = 1"
| "recv_owes (Recv_LostReport e) = 1"
| "recv_owes _ = 0"

fun main_due :: "bool \<Rightarrow> MainPc \<Rightarrow> nat" where
  "main_due connected Main_Idle = (if connected then 1 else 0)"
| "main_due connected (Main_Exchanged was) = (if was then 1 else 0)"
| "main_due connected (Main_StopRequested was) = (if was then 1 else 0)"
| "main_due connected (Main_Closed was) = (if was then 1 else 0)"
| "main_due connected Main_Returned = 0"

definition reports_inv :: "'w ClientRun \<Rightarrow> bool" where
  "reports_inv r \<longleftrightarrow> (let c = cr_client r in cc_hasMetrics c
     \<and> disconnects c + recv_due (cc_isConnected c) (cr_recv r) + main_due (cc_isConnected c) (cr_main r) \<le> 2
     \<and> (\<not> cc_isConnected c \<longrightarrow> 1 \<le> disconnects c + recv_owes (cr_recv r) + main_due False (cr_main r))
     \<and> (cc_isConnected c \<longrightarrow> cr_main r = Main_Idle)
     \<and> (if cr_main r = Main_Returned then \<not> cc_recvThread c \<and> cr_recv r = Recv_Exited else cc_recvThread c))"

lemma close_socket_other [simp]:
  "disconnects (close_socket c) = disconnects c" "cc_isConnected (close_socket c) = cc_isConnected c"
  "cc_hasMetrics (close_socket c) = cc_hasMetrics c" "cc_recvThread (close_socket c) = cc_recvThread c"
  "cc_wsaSession (close_socket c) = cc_wsaSession c"
  by (simp_all add: close_socket_def disconnects_def split: option.splits prod.splits)

lemma disconnect_release_other [simp]:
  "disconnects (disconnect_release c) = disconnects c" "cc_isConnected (disconnect_release c) = cc_isConnected c"
  "cc_hasMetrics (disconnect_release c) = cc_hasMetrics c" "\<not> cc_recvThread (disconnect_release c)"
  by (simp_all add: disconnect_release_def disconnects_def)

lemma recv_buffer_other:
  assumes "only_console cb" and "recv_buffer api nowNs cb buf c = Some c'"
  shows "disconnects c' = disconnects c" "cc_isConnected c' = cc_isConnected c" "cc_hasMetrics c' = cc_hasMetrics c"
    "cc_recvThread c' = cc_recvThread c" "cc_tcpClientSocket c' = cc_tcpClientSocket c" "cc_os c' = cc_os c"
    "cc_wsaSession c' = cc_wsaSession c"
proof -
  have cb: "disconnects d' = disconnects d \<and> cc_isConnected d' = cc_isConnected d \<and> cc_hasMetrics d' = cc_hasMetrics d
      \<and> cc_recvThread d' = cc_recvThread d \<and> cc_tcpClientSocket d' = cc_tcpClientSocket d \<and> cc_os d' = cc_os d
      \<and> cc_wsaSession d' = cc_wsaSession d" if h: "cb p d = Some d'" for p d d'
  proof -
    obtain con where "d' = d\<lparr>cc_console := con\<rparr>" using assms(1) h unfolding only_console_def by blast
    then show ?thesis by (simp add: disconnects_def)
  qed
  have "disconnects c' = disconnects c \<and> cc_isConnected c' = cc_isConnected c \<and> cc_hasMetrics c' = cc_hasMetrics c
      \<and> cc_recvThread c' = cc_recvThread c \<and> cc_tcpClientSocket c' = cc_tcpClientSocket c \<and> cc_os c' = cc_os c
      \<and> cc_wsaSession c' = cc_wsaSession c"
    using assms(2) by (auto simp: recv_buffer_def Let_def split: if_splits option.splits dest!: cb)
  then show "disconnects c' = disconnects c" "cc_isConnected c' = cc_isConnected c" "cc_hasMetrics c' = cc_hasMetrics c"
    "cc_recvThread c' = cc_recvThread c" "cc_tcpClientSocket c' = cc_tcpClientSocket c" "cc_os c' = cc_os c"
    "cc_wsaSession c' = cc_wsaSession c" by simp_all
qed

lemma recv_due_le: "recv_due b pc \<le> 1" "recv_due False pc \<le> recv_due True pc"
  by (cases pc; simp)+

lemma reports_inv_step:
  assumes "thread_step api recv cb r r'" and "only_console cb" and "reports_inv r"
  shows "reports_inv r'"
  using assms
proof cases
  case (main_exchange was c)
  then show ?thesis
    using assms(3) recv_due_le(2) [of "cr_recv r"]
    by (cases "cc_isConnected (cr_client r)"; cases "cr_recv r")
       (auto simp: reports_inv_def disconnect_exchange_def Let_def)
next
  case (recv_packet buf nowNs c)
  then show ?thesis
    using assms(3) recv_buffer_other [OF assms(2) recv_packet(3)] by (auto simp: reports_inv_def Let_def)
qed (use assms(3) in \<open>auto simp: reports_inv_def Let_def disconnect_report_def recv_lost_report_def
      split: if_splits sum.splits\<close>)

text \<open>The socket and the Winsock session are released exactly once.\<close>

definition release_inv :: "SocketHandle \<Rightarrow> 'w ClientRun \<Rightarrow> bool" where
  "release_inv h r \<longleftrightarrow> (let c = cr_client r; closes = count_list (cc_os c) (OsCloseSocket h);
       cleanups = count_list (cc_os c) OsWSACleanup in
     if cr_main r = Main_Returned
     then cc_tcpClientSocket c = None \<and> cc_packetStream c = None \<and> cc_wsaSession c = None \<and> closes = 1 \<and> cleanups = 1
     else (\<exists>s. cc_tcpClientSocket c = Some s \<and> (tcp_socketHandle s = h \<and> closes = 0 \<or> tcp_socketHandle s = InvalidSocket \<and> closes = 1))
        \<and> cc_wsaSession c = Some \<lparr>ws_isInitialized = True\<rparr> \<and> cleanups = 0)"

lemma tcp_Close_counts:
  "h \<noteq> InvalidSocket \<Longrightarrow> tcp_socketHandle s = h \<or> tcp_socketHandle s = InvalidSocket \<Longrightarrow>
    count_list (snd (tcp_Close s)) (OsCloseSocket h) = (if tcp_socketHandle s = h then 1 else 0)"
  "count_list (snd (tcp_Close s)) OsWSACleanup = 0" "tcp_socketHandle (fst (tcp_Close s)) = InvalidSocket"
  by (auto simp: tcp_Close_def)

lemma close_socket_release:
  assumes "h \<noteq> InvalidSocket" and "release_inv h r" and "cr_main r \<noteq> Main_Returned" and "pc \<noteq> Main_Returned"
  shows "release_inv h (r\<lparr>cr_client := close_socket (cr_client r), cr_main := pc, cr_recv := q\<rparr>)"
proof -
  obtain s where s: "cc_tcpClientSocket (cr_client r) = Some s" "tcp_socketHandle s = h \<or> tcp_socketHandle s = InvalidSocket"
    using assms(2,3) by (auto simp: release_inv_def Let_def)
  then show ?thesis
    using assms tcp_Close_counts(1) [of h s] tcp_Close_counts(2,3) [of s]
    by (auto simp: release_inv_def close_socket_def Let_def split: prod.splits)
qed

lemma release_inv_step:
  assumes "thread_step api recv cb r r'" and "only_console cb" and "h \<noteq> InvalidSocket" and "reports_inv r" and "release_inv h r"
  shows "release_inv h r'"
  using assms(1)
proof cases
  case (main_close was)
  then show ?thesis using close_socket_release [OF assms(3,5), of "Main_Closed was" "cr_recv r"] by simp
next
  case (main_join was nowNs)
  then obtain s where s: "cc_tcpClientSocket (cr_client r) = Some s" "tcp_socketHandle s = h \<or> tcp_socketHandle s = InvalidSocket"
    using assms(5) by (auto simp: release_inv_def Let_def)
  then show ?thesis
    using main_join assms(3,5) tcp_Close_counts(1) [OF assms(3) s(2)] tcp_Close_counts(2,3) [of s]
    by (auto simp: release_inv_def Let_def disconnect_report_def disconnect_release_def destroy_socket_def
        destroy_session_def WsaSession_Cleanup_def)
next
  case (recv_packet buf nowNs c)
  then show ?thesis
    using assms(5) recv_buffer_other [OF assms(2) recv_packet(3)] assms(4)
    by (auto simp: release_inv_def reports_inv_def Let_def)
next
  case (recv_lost_close e)
  moreover have "cr_main r \<noteq> Main_Returned" using recv_lost_close assms(4) by (auto simp: reports_inv_def Let_def)
  ultimately show ?thesis using close_socket_release [OF assms(3,5), of "cr_main r" "Recv_LostReport e"] by simp
qed (use assms(5) in \<open>auto simp: release_inv_def Let_def disconnect_exchange_def recv_lost_report_def
      split: if_splits sum.splits\<close>)

lemma connected_inv:
  assumes "ChatClient_Connect env ip port (ChatClient_new True tmo con) = (True, c)"
  shows "reports_inv (StartRecvLoop c w) \<and> release_inv (env_socket (ce_net env)) (StartRecvLoop c w)
    \<and> env_socket (ce_net env) \<noteq> InvalidSocket"
  using assms
  by (auto simp: ChatClient_Connect_def ChatClient_new_def Let_def WsaSession_Create_def WsaSession_Initialize_def
      tcp_Connect_def tcp_Close_def reports_inv_def release_inv_def StartRecvLoop_def destroy_socket_def destroy_session_def
      report_def log_line_def disconnects_def split: sum.splits if_splits)


text \<open>A connection to a server that closes at once: \<open>recv\<close> returns no bytes.\<close>

definition demo_connect :: ClientConnectEnv where
  "demo_connect = \<lparr>ce_startup = 0, ce_net = \<lparr>env_socket = 5, env_pton = 1, env_connect = 0\<rparr>, ce_elapsed = 3, ce_now = 10\<rparr>"

definition demo_client :: ChatClient where
  "demo_client = snd (ChatClient_Connect demo_connect ''127.0.0.1'' 8080 (ChatClient_new True 3000 (ConsoleState_new True)))"

definition closed_recv :: "unit recv_fn" where
  "closed_recv h n w = (Received [], w)"

lemma demo_connected:
  "ChatClient_Connect demo_connect ''127.0.0.1'' 8080 (ChatClient_new True 3000 (ConsoleState_new True)) = (True, demo_client)"
  by (simp add: demo_client_def demo_connect_def ChatClient_Connect_def ChatClient_new_def Let_def WsaSession_Create_def
      WsaSession_Initialize_def tcp_Connect_def tcp_Close_def IsValidPort_def InvalidSocket_def SocketError_def)

lemma demo_client_fields:
  "cc_isConnected demo_client" "cc_hasMetrics demo_client" "disconnects demo_client = 0"
  "cc_tcpClientSocket demo_client = Some \<lparr>tcp_hasSession = True, tcp_socketHandle = 5\<rparr>"
  "cc_packetStream demo_client = Some \<lparr>ps_maxFrameSize = maxFrameSize\<rparr>" "cc_nextSequence demo_client = 1"
  by (simp_all add: demo_client_def demo_connect_def ChatClient_Connect_def ChatClient_new_def Let_def WsaSession_Create_def
      WsaSession_Initialize_def tcp_Connect_def tcp_Close_def IsValidPort_def InvalidSocket_def SocketError_def disconnects_def
      report_def log_line_def)

text \<open>The next step of one thread, as a function, to run a schedule.\<close>

definition main_turn :: "uint64 \<Rightarrow> 'w ClientRun \<Rightarrow> 'w ClientRun option" where
  "main_turn nowNs r =
     (case cr_main r of
        Main_Idle \<Rightarrow> (case disconnect_exchange (cr_client r) of (was, c) \<Rightarrow> Some (r\<lparr>cr_client := c, cr_main := Main_Exchanged was\<rparr>))
      | Main_Exchanged was \<Rightarrow> Some (r\<lparr>cr_stop := cr_stop r \<or> cc_recvThread (cr_client r), cr_main := Main_StopRequested was\<rparr>)
      | Main_StopRequested was \<Rightarrow> Some (r\<lparr>cr_client := close_socket (cr_client r), cr_main := Main_Closed was\<rparr>)
      | Main_Closed was \<Rightarrow>
          if cc_recvThread (cr_client r) \<longrightarrow> cr_recv r = Recv_Exited
          then Some (r\<lparr>cr_client := disconnect_report nowNs CDR_LocalClose was (disconnect_release (cr_client r)), cr_main := Main_Returned\<rparr>)
          else None
      | Main_Returned \<Rightarrow> None)"

definition recv_turn ::
  "PacketApi \<Rightarrow> 'w recv_fn \<Rightarrow> (Packet \<Rightarrow> ChatClient \<Rightarrow> ChatClient option) \<Rightarrow> uint64 \<Rightarrow> 'w ClientRun \<Rightarrow> 'w ClientRun option" where
  "recv_turn api recv cb nowNs r =
     (case cr_recv r of
        Recv_TestStop \<Rightarrow> Some (r\<lparr>cr_recv := (if cr_stop r then Recv_Exited else Recv_TestFlag)\<rparr>)
      | Recv_TestFlag \<Rightarrow> Some (r\<lparr>cr_recv := (if cc_isConnected (cr_client r) then Recv_Frame else Recv_Exited)\<rparr>)
      | Recv_Frame \<Rightarrow> (case recv_stream recv (cr_client r) (cr_world r) of (res, buf, w) \<Rightarrow>
          Some (r\<lparr>cr_world := w, cr_recv := (case res of Inl e \<Rightarrow> Recv_FailedStop e | Inr _ \<Rightarrow> Recv_Buffer buf)\<rparr>))
      | Recv_Buffer buf \<Rightarrow> (case recv_buffer api nowNs cb buf (cr_client r) of
          None \<Rightarrow> Some (r\<lparr>cr_recv := Recv_Crashed\<rparr>) | Some c \<Rightarrow> Some (r\<lparr>cr_client := c, cr_recv := Recv_TestStop\<rparr>))
      | Recv_FailedStop e \<Rightarrow> Some (r\<lparr>cr_recv := (if cr_stop r then Recv_Exited else Recv_FailedFlag e)\<rparr>)
      | Recv_FailedFlag e \<Rightarrow> Some (r\<lparr>cr_recv := (if cc_isConnected (cr_client r) then Recv_Lost e else Recv_Exited)\<rparr>)
      | Recv_Lost e \<Rightarrow> Some (r\<lparr>cr_client := (cr_client r)\<lparr>cc_isConnected := False\<rparr>, cr_recv := Recv_LostClose e\<rparr>)
      | Recv_LostClose e \<Rightarrow> Some (r\<lparr>cr_client := close_socket (cr_client r), cr_recv := Recv_LostReport e\<rparr>)
      | Recv_LostReport e \<Rightarrow> Some (r\<lparr>cr_client := recv_lost_report nowNs e (cr_client r), cr_recv := Recv_Exited\<rparr>)
      | Recv_Exited \<Rightarrow> None
      | Recv_Crashed \<Rightarrow> None)"

lemma main_turn_step: "main_turn nowNs r = Some r' \<Longrightarrow> thread_step api recv cb r r'"
  by (auto simp: main_turn_def intro: thread_step.intros split: MainPc.splits if_splits prod.splits)

lemma recv_turn_step: "recv_turn api recv cb nowNs r = Some r' \<Longrightarrow> thread_step api recv cb r r'"
  by (cases "cr_recv r") (auto simp: recv_turn_def intro: thread_step.intros split: prod.splits option.splits)

text \<open>A schedule says which thread moves; \<open>True\<close> is the main thread.\<close>

fun run_schedule ::
  "PacketApi \<Rightarrow> 'w recv_fn \<Rightarrow> (Packet \<Rightarrow> ChatClient \<Rightarrow> ChatClient option) \<Rightarrow> uint64 \<Rightarrow> bool list \<Rightarrow> 'w ClientRun \<Rightarrow> 'w ClientRun option" where
  "run_schedule api recv cb nowNs [] r = Some r"
| "run_schedule api recv cb nowNs (t # ts) r =
     (case (if t then main_turn nowNs r else recv_turn api recv cb nowNs r) of
        None \<Rightarrow> None | Some r' \<Rightarrow> run_schedule api recv cb nowNs ts r')"

lemma run_schedule_steps:
  "run_schedule api recv cb nowNs ts r = Some r' \<Longrightarrow> (thread_step api recv cb)\<^sup>*\<^sup>* r r'"
proof (induction ts arbitrary: r)
  case (Cons t ts)
  then show ?case
    using main_turn_step [of nowNs r _ api recv cb] recv_turn_step [of api recv cb nowNs r]
    by (auto split: option.splits if_splits intro: converse_rtranclp_into_rtranclp)
qed simp

text \<open>The receive thread finds the stream closed and the flag set.  \<open>Disconnect\<close> runs up to
  the join before the thread stores the flag; then the thread reports the loss, and
  \<open>Disconnect\<close> the local close.\<close>

definition race_schedule :: "bool list" where
  "race_schedule = [False, False, False, False, False, True, True, True, False, False, False, True]"

lemma closed_stream:
  "recv_stream closed_recv (demo_client\<lparr>cc_recvThread := True\<rparr>) () = (Inl SocketInvalid, [], ())"
  by (simp add: demo_client_fields recv_stream_def RecvFrame_def maxFrameSize_def RecvExact_def kHeaderSize_def
      recv_loop.simps RecvSome_def tcp_IsConnected_def InvalidSocket_def closed_recv_def)

lemma race_run:
  "\<exists>c. run_schedule api closed_recv cb 20 race_schedule (StartRecvLoop demo_client ())
     = Some \<lparr>cr_client = c, cr_world = (), cr_stop = True, cr_main = Main_Returned, cr_recv = Recv_Exited\<rparr> \<and> disconnects c = 2"
  by (simp add: race_schedule_def StartRecvLoop_def main_turn_def recv_turn_def closed_stream demo_client_fields
      disconnect_exchange_def disconnect_report_def recv_lost_report_def)


text \<open>The end of one connection can be reported twice.  The receive thread tests the
  flag and clears it in two steps; when \<open>Disconnect\<close> exchanges it in between, both
  threads report the disconnect.\<close>

theorem disconnect_reported_twice:
  "\<exists>r. (thread_step api closed_recv (onPacketReceived names))\<^sup>*\<^sup>* (StartRecvLoop demo_client ()) r
     \<and> cr_main r = Main_Returned \<and> disconnects (cr_client r) = 2"
  using race_run [of api "onPacketReceived names"] run_schedule_steps by fastforce

section \<open>Sequence numbers\<close>

text \<open>The numbers of the tracked requests, and that they are all different and below the
  next one, as long as the counter has not wrapped.\<close>

definition sent_sequences :: "ChatClient \<Rightarrow> uint32 list" where
  "sent_sequences c = tracked (map (\<lambda>(t, call). (t, Step_Call call)) (cc_calls c))"

definition sequences_ok :: "nat \<Rightarrow> ChatClient \<Rightarrow> bool" where
  "sequences_ok n c \<longleftrightarrow> unat (cc_nextSequence c) = n \<and> 0 < n
     \<and> distinct (sent_sequences c) \<and> (\<forall>k \<in> set (sent_sequences c). unat k < n)"

lemma sequences_report [simp]:
  "sent_sequences (report nowNs call c) = sent_sequences c @ (if cc_hasMetrics c then tracked_by (Step_Call call) else [])"
  "sent_sequences (log_line level msg c) = sent_sequences c" "sent_sequences (c\<lparr>cc_nextSequence := k\<rparr>) = sent_sequences c"
  "sent_sequences (c\<lparr>cc_console := con\<rparr>) = sent_sequences c"
  "cc_nextSequence (report nowNs call c) = cc_nextSequence c" "cc_nextSequence (log_line level msg c) = cc_nextSequence c"
  by (simp_all add: sent_sequences_def report_def log_line_def)

lemma sequences_ok_log [simp]:
  "sequences_ok n (log_line level msg c) = sequences_ok n c" "sequences_ok n (c\<lparr>cc_console := con\<rparr>) = sequences_ok n c"
  by (simp_all add: sequences_ok_def)

lemma ChatClient_Send_sequences:
  "cc_nextSequence (fst (ChatClient_Send api send nowNs pkt tr (c, w))) = cc_nextSequence c"
  "sent_sequences (fst (ChatClient_Send api send nowNs pkt tr (c, w))) = sent_sequences c
    \<or> sent_sequences (fst (ChatClient_Send api send nowNs pkt tr (c, w))) = sent_sequences c @ [rt_sequence tr]"
  by (auto simp: ChatClient_Send_def Let_def split: option.splits sum.splits prod.splits)

lemma send_numbered:
  assumes "sequences_ok n c" and "Suc n < 2 ^ 32" and "NextSequence c = (seqn, c1)"
  shows "sequences_ok (Suc n) (fst (ChatClient_Send api send nowNs pkt \<lparr>rt_sequence = seqn, rt_responseType = ty\<rparr> (c1, w)))"
proof -
  have "unat (cc_nextSequence c + 1) = Suc n"
    using assms(1,2) by (simp add: sequences_ok_def unat_word_ariths(1))
  moreover have "seqn \<notin> set (sent_sequences c)" "unat seqn = n"
    using assms(1,3) by (auto simp: sequences_ok_def NextSequence_def)
  ultimately show ?thesis
    using assms ChatClient_Send_sequences [of api send nowNs pkt "\<lparr>rt_sequence = seqn, rt_responseType = ty\<rparr>" c1 w]
    by (auto simp: sequences_ok_def NextSequence_def less_Suc_eq)
qed

lemma senders_numbered:
  assumes "sequences_ok n c" and "Suc n < 2 ^ 32"
  shows "sequences_ok (Suc n) (fst (sendJoinRoom api send nowNs name (c, w)))"
    "sequences_ok (Suc n) (fst (sendLeave api send nowNs (c, w)))"
    "sequences_ok (Suc n) (fst (sendMessage api send nowNs name msg (c, w)))"
  by (auto simp: sendJoinRoom_def sendLeave_def sendMessage_def intro: send_numbered [OF assms] split: prod.splits)

lemma Handle_numbered:
  assumes "sequences_ok n (cli_client cli)" and "Suc n < 2 ^ 32"
  shows "\<exists>m \<in> {n, Suc n}. sequences_ok m (cli_client (snd (HandleCommand api send nowNs line cli)))"
    "\<exists>m \<in> {n, Suc n}. sequences_ok m (cli_client (snd (HandleChat api send nowNs line cli)))"
proof -
  have helped: "sequences_ok n (cli_client (PrintHelp cli))" using assms(1) by (simp add: PrintHelp_def)
  show "\<exists>m \<in> {n, Suc n}. sequences_ok m (cli_client (snd (HandleCommand api send nowNs line cli)))"
    using assms helped by (cases "parseCommand line") (auto simp: HandleCommand_def senders_numbered [OF assms])
  show "\<exists>m \<in> {n, Suc n}. sequences_ok m (cli_client (snd (HandleChat api send nowNs line cli)))"
    using assms by (auto simp: HandleChat_def senders_numbered [OF assms])
qed

lemma run_lines_numbered:
  assumes "sequences_ok n (cli_client cli)" and "n + length input < 2 ^ 32"
  shows "\<exists>m \<le> n + length input. sequences_ok m (cli_client (run_lines api send input cli))"
  using assms
proof (induction input arbitrary: cli n)
  case Nil
  then show ?case by (auto simp: PrintPrompt_def)
next
  case (Cons x input)
  obtain nowNs line where x: "x = (nowNs, line)" by fastforce
  let ?cli = "on_console HidePrompt (PrintPrompt cli)"
  have ok: "sequences_ok n (cli_client ?cli)" using Cons.prems(1) by (simp add: PrintPrompt_def)
  show ?case
  proof (cases "line = []")
    case True
    moreover obtain m where "m \<le> n + length input" "sequences_ok m (cli_client (run_lines api send input ?cli))"
      using Cons.IH [OF ok] Cons.prems(2) by auto
    ultimately show ?thesis using x by (intro exI [of _ m]) (simp add: Let_def)
  next
    case False
    obtain act cli' where h: "(if hd line = CHR ''/'' then HandleCommand api send nowNs line ?cli
        else HandleChat api send nowNs line ?cli) = (act, cli')" by fastforce
    obtain m where m: "m \<in> {n, Suc n}" "sequences_ok m (cli_client cli')"
      using Handle_numbered [OF ok, of api send nowNs line] Cons.prems(2) h by (auto split: if_splits)
    obtain k where k: "k \<le> m + length input" "sequences_ok k (cli_client (run_lines api send input cli'))"
      using Cons.IH [OF m(2)] m(1) Cons.prems(2) by auto
    have "run_lines api send (x # input) cli = (case act of Act_Quit \<Rightarrow> cli' | Act_Continue \<Rightarrow> run_lines api send input cli')"
      using False x h by (cases act) (simp_all add: Let_def)
    then show ?thesis
      using k m by (intro exI [of _ "case act of Act_Quit \<Rightarrow> m | Act_Continue \<Rightarrow> k"]) (cases act; auto)
  qed
qed

text \<open>A session at the command line numbers its requests 1, 2, 3, ... without repetition, for
  fewer than \<open>2 ^ 32 - 1\<close> lines: what the accounting of the requests relies on.\<close>

lemma Cli_Run_numbered:
  assumes "Suc (length input) < 2 ^ 32" and "cc_calls (cli_client cli) = []" and "cc_nextSequence (cli_client cli) = 1"
  shows "distinct (sent_sequences (cli_client (Cli_Run api send input cli)))
    \<and> (\<forall>k \<in> set (sent_sequences (cli_client (Cli_Run api send input cli))). unat k \<le> length input)"
proof -
  have "sequences_ok 1 (cli_client (PrintHelp cli))"
    using assms(2,3) by (simp add: PrintHelp_def sequences_ok_def sent_sequences_def log_line_def)
  then obtain m where "m \<le> 1 + length input" "sequences_ok m (cli_client (Cli_Run api send input cli))"
    unfolding Cli_Run_def using run_lines_numbered [of 1 "PrintHelp cli" input api send] assms(1) by auto
  then show ?thesis unfolding sequences_ok_def by fastforce
qed

end
