(* ===== verification/ChatRequests.thy ===== *)
theory ChatRequests
  imports ChatServer ChatClient
begin

text \<open>
  A chat message from the client that sends it, through the server, to the clients
  that receive it: what becomes of the requests the clients' metrics wait for.
  The client expects the broadcast of its own message as the answer
  (PacketSender.cpp), the server sends the broadcast to the other members only, with
  the sender's sequence number (ChatMessageHandler.cpp, Room.cpp).
\<close>

abbreviation run_calls :: "(uint64 \<times> ClientMetric) list \<Rightarrow> AtomicClientMetrics \<Rightarrow> AtomicClientMetrics" where
  "run_calls calls m \<equiv> fold (\<lambda>(nowNs, call). client_metric nowNs call) calls m"

lemma deliveries_to_other:
  "(h, bytes) \<in> set (deliveries_to env p sock us) \<Longrightarrow>
    bytes = framed env p \<and> (\<exists>v \<in> set us. h = sock (ss_tcpClient (us_session v)))"
  by (auto simp: deliveries_to_def delivery_def split: if_splits)

lemma recv_buffer_broadcast:
  assumes "cc_hasMetrics c" and "api_reads_back api b" and "api_bytes api b \<noteq> []" and "b = makeChatMessageBroadcast sid name txt ts seqn"
  shows "\<exists>c'. recv_buffer api nowNs (onPacketReceived names) (api_bytes api b) c = Some c'
    \<and> cc_calls c' = cc_calls c @ [(nowNs, CM_RecvCompleted (of_nat (length (api_bytes api b)))),
        (nowNs, CM_PacketValidationSucceeded), (nowNs, CM_ResolveRequest seqn 152)]"
proof -
  have "pk_type b = B_ChatMessage" "pk_sequence b = seqn" "payload_as P_ChatMessageBroadcast b = Some (ChatMessageBroadcast sid name txt ts)"
    using assms(4) by (simp_all add: makeChatMessageBroadcast_def) (simp_all add: finishTypedPacket_def)
  then show ?thesis
    using assms(1-3) by (simp add: recv_buffer_def api_reads_back_def onPacketReceived_def Let_def report_def log_line_def)
qed

lemma ResolveRequest_hit:
  assumes "map_of (cm_pendingRequests m) seqn = Some req" and "pr_responseType req = ty" and "pr_sentAtNs req \<le> nowNs" and "seqn \<noteq> 0"
  shows "map_of (cm_pendingRequests (ResolveRequest nowNs seqn ty m)) seqn = None"
    and "tw_count (cm_requestRtt (ResolveRequest nowNs seqn ty m)) = tw_count (cm_requestRtt m) + 1"
  using assms by (simp_all add: ResolveRequest_def ObserveWindow_def)


text \<open>Two clients that both have sent their message number 7.\<close>

definition broadcast_api :: PacketApi where
  "broadcast_api = \<lparr>api_verify = (\<lambda>bytes. bytes = [9]), api_get = (\<lambda>_. Some (makeChatMessageBroadcast 0 ''ann'' ''hi'' (0, 0) 7)),
     api_bytes = (\<lambda>_. [9])\<rparr>"


end
