(* ===== verification/ChatDelivery.thy ===== *)
theory ChatDelivery
  imports ChatRequests
begin

text \<open>
  A chat message from the keyboard of one user to the screens of the others: the
  command line and \<open>PacketStream\<close> of the sending client, the receive completions and
  the tick of the server, \<open>PacketStream\<close> and the receive thread of the other
  clients.  The network is the list of bytes on the wire, cut by the system into
  chunks of any size.
\<close>

section \<open>The sending client\<close>

lemma sendMessage_wire:
  assumes "cc_tcpClientSocket c = Some sk" and "tcp_IsConnected sk" and "cc_packetStream c \<noteq> None"
    and "send_contract send wire" and "send_progress send"
    and "sendMessage api send nowNs name txt (c, w) = (c', w')"
  shows "wire w' = wire w @ encode_frame (api_bytes api (makeSendMessageRequest 0 name txt (cc_nextSequence c)))"
proof -
  obtain w1 where "SendFrame send sk (api_bytes api (makeSendMessageRequest 0 name txt (cc_nextSequence c))) w = (Inr (), w1)"
    "wire w1 = wire w @ encode_frame (api_bytes api (makeSendMessageRequest 0 name txt (cc_nextSequence c)))"
    using SendFrame_wire [OF assms(4,5,2)] by blast
  then show ?thesis
    using assms(1-3,6) by (auto simp: sendMessage_def NextSequence_def ChatClient_Send_def Let_def)
qed

section \<open>The server\<close>

text \<open>Receiving a stream in chunks: exactly its frames are queued, and nothing else of the
  server changes but the frame buffer of the slot.\<close>

lemma receive_chunks:
  fixes s :: server
  assumes "i < length (sl_clientPool s)" and "\<not> gl_hasStopped (sl_app s)" and "fb_inv (cl_frameBuf (client_of s i))"
    and "incomplete (Data (cl_frameBuf (client_of s i)))"
    and "length (Data (cl_frameBuf (client_of s i))) + length (concat chunks) \<le> maxFrameSize"
    and "frames_of (valid_payload (cv_api env)) (Data (cl_frameBuf (client_of s i)) @ concat chunks) = (ps, r, Waiting)"
  shows "\<exists>fb. fold (GameLoop_Receive env ns i) chunks s =
      (on_app (\<lambda>g. g\<lparr>gl_dispatcher := fold (accept_payload (cv_api env) ns i) ps (gl_dispatcher g)\<rparr>) s)
        \<lparr>sl_clientPool := (sl_clientPool s)[i := (client_of s i)\<lparr>cl_frameBuf := fb\<rparr>]\<rparr>
    \<and> fb_inv fb \<and> Data fb = r"
  using assms
proof (induction chunks arbitrary: s ps)
  case Nil
  then have "ps = []" "r = Data (cl_frameBuf (client_of s i))" by (simp_all add: frames_of_incomplete)
  then show ?case using Nil.prems(3) by (intro exI [of _ "cl_frameBuf (client_of s i)"]) (simp add: on_app_def)
next
  case (Cons a chunks)
  let ?api = "cv_api env" and ?c = "client_of s i"
  let ?v = "valid_payload ?api" and ?b = "Data (cl_frameBuf ?c)"
  obtain ps1 r1 where f1: "frames_of ?v (?b @ a) = (ps1, r1, Waiting)"
    using frames_of_prefix_waiting [of ?v "?b @ a" "concat chunks"] Cons.prems(6) by auto
  obtain ps2 where f2: "frames_of ?v (r1 @ concat chunks) = (ps2, r, Waiting)" "ps = ps1 @ ps2"
    using frames_of_append [OF f1, of "concat chunks"] Cons.prems(6) by (auto split: prod.splits)
  obtain c1 d1 outs where rc: "Receive ?api ns i a ?c (gl_dispatcher (sl_app s)) = (c1, d1, outs)" by (metis prod_cases3)
  have "client_rel r1 ?c c1" and d1: "d1 = fold (accept_payload ?api ns i) ps1 (gl_dispatcher (sl_app s))" "outs = []"
    using Receive_stream [OF Cons.prems(3) _ rc] Cons.prems(5) f1 by (auto simp: receive_spec_def maxFrameSize_def)
  then obtain fb1 where fb1: "c1 = ?c\<lparr>cl_frameBuf := fb1\<rparr>" "fb_inv fb1" "Data fb1 = r1" by (auto simp: client_rel_def)
  let ?s1 = "GameLoop_Receive env ns i a s"
  have s1: "?s1 = (on_app (\<lambda>g. g\<lparr>gl_dispatcher := d1\<rparr>) s)\<lparr>sl_clientPool := (sl_clientPool s)[i := c1]\<rparr>"
    using Cons.prems(2) rc d1(2) by (simp add: GameLoop_Receive_def put_client_def on_app_def)
  have "\<exists>fb. fold (GameLoop_Receive env ns i) chunks ?s1 =
      (on_app (\<lambda>g. g\<lparr>gl_dispatcher := fold (accept_payload ?api ns i) ps2 (gl_dispatcher g)\<rparr>) ?s1)
        \<lparr>sl_clientPool := (sl_clientPool ?s1)[i := (client_of ?s1 i)\<lparr>cl_frameBuf := fb\<rparr>]\<rparr>
    \<and> fb_inv fb \<and> Data fb = r"
    using Cons.prems f2(1) frames_of_rest_length [OF f1] frames_of_waiting_incomplete [OF f1] fb1
    by (intro Cons.IH) (simp_all add: s1 on_app_def)
  then show ?case using Cons.prems(1) by (auto simp: s1 fb1 d1 f2(2) on_app_def)
qed

lemma tick_payloads:
  fixes s :: server
  assumes "pd_handlers (gl_dispatcher (sl_app s)) = chat_handlers env" and "Empty (pd_commandQueue (gl_dispatcher (sl_app s)))"
    and "\<forall>p \<in> set ps. valid_payload (cv_api env) p"
    and "s1 = (on_app (\<lambda>g. g\<lparr>gl_dispatcher := fold (accept_payload (cv_api env) ns i) ps (gl_dispatcher g)\<rparr>) s)\<lparr>sl_clientPool := pool\<rparr>"
    and "t = fold (dispatch_payload (cv_api env) close_client (chat_handlers env) i) ps
      (with_app (gl_chat (sl_app s)) (s\<lparr>sl_clientPool := pool\<rparr>))"
  shows "sl_events (update_round env ns t0 t1 s1) = sl_events t" and "gl_chat (sl_app (update_round env ns t0 t1 s1)) = sl_app t"
proof -
  let ?g = "sl_app s1"
  obtain d u where tk: "Tick (cv_api env) ns close_client (gl_dispatcher ?g, with_app (gl_chat ?g) s1) = (d, u)" by fastforce
  have "with_app (gl_chat ?g) s1 = with_app (gl_chat (sl_app s)) (s\<lparr>sl_clientPool := pool\<rparr>)"
    by (simp add: assms(4) with_app_def on_app_def)
  then have "u = t"
    using Tick_commands [OF tk] fold_accept_dispatch [OF assms(3), of close_client "chat_handlers env" ns i "gl_dispatcher (sl_app s)"]
      assms(1,2) by (simp add: assms(4,5) on_app_def Empty_def)
  then show "sl_events (update_round env ns t0 t1 s1) = sl_events t" and "gl_chat (sl_app (update_round env ns t0 t1 s1)) = sl_app t"
    using tk by (simp_all add: update_round_def GameLoop_Tick_def Let_def log_event_def on_app_def with_app_def)
qed

text \<open>A request that arrives in chunks is handed to its handler at the next round of the
  logic thread; until then only the frame buffer of the slot has changed.\<close>

lemma request_handled:
  fixes s :: server
  assumes "server_inv (game_ok env) s" and "i < length (sl_clientPool s)" and "\<not> gl_hasStopped (sl_app s)"
    and "Data (cl_frameBuf (client_of s i)) = []" and "Empty (pd_commandQueue (gl_dispatcher (sl_app s)))"
    and "api_reads_back (cv_api env) q" and "length (api_bytes (cv_api env) q) + 4 \<le> maxFrameSize"
    and "concat chunks = encode_frame (api_bytes (cv_api env) q)"
    and "s' = update_round env ns t0 t1 (fold (GameLoop_Receive env ns i) chunks s)"
  obtains s0 t where "t = dispatch_payload (cv_api env) close_client (chat_handlers env) i (api_bytes (cv_api env) q) s0"
    and "sl_app s0 = gl_chat (sl_app s)" "sockets s0 = sockets s" "length (sl_clientPool s0) = length (sl_clientPool s)"
      "sl_events s0 = sl_events s" "sl_events s' = sl_events t" "gl_chat (sl_app s') = sl_app t"
proof -
  let ?api = "cv_api env" and ?p = "api_bytes (cv_api env) q"
  have inv: "lifecycle_inv s" "game_ok env (length (sl_clientPool s)) (sl_app s)"
    using assms(1) by (simp_all add: server_inv_def pool_inv_def)
  have v: "valid_payload ?api ?p" using assms(6) by (auto simp: api_reads_back_def valid_payload_def ParsePacket_def)
  have frame: "frames_of (valid_payload ?api) (concat chunks) = ([?p], [], Waiting)"
    using frames_of_frame [of ?p "valid_payload ?api" "[]"] v assms(7,8) by (simp add: frames_of_incomplete incomplete_def)
  have len: "length (concat chunks) \<le> maxFrameSize"
    using assms(7,8) encode_frame_small [of ?p] by (simp add: maxFrameSize_def)
  have "fb_inv (cl_frameBuf (client_of s i))"
    using pool_member [OF inv(1) assms(2)] by (simp add: pooled_client_ok_def client_inv_def)
  from receive_chunks [OF assms(2,3) this, of chunks env "[?p]" "[]" ns]
  obtain pool where s1: "fold (GameLoop_Receive env ns i) chunks s =
      (on_app (\<lambda>g. g\<lparr>gl_dispatcher := fold (accept_payload ?api ns i) [?p] (gl_dispatcher g)\<rparr>) s)\<lparr>sl_clientPool := pool\<rparr>"
      and pool: "length pool = length (sl_clientPool s)" "\<forall>k. cl_socket (pool ! k) = cl_socket (client_of s k)"
    using assms(2,4) len frame by (auto simp: incomplete_def nth_list_update)
  let ?s0 = "with_app (gl_chat (sl_app s)) (s\<lparr>sl_clientPool := pool\<rparr>)"
  have "sockets ?s0 = sockets s" using pool(2) by (auto simp: sockets_def with_app_def)
  then show ?thesis
    using that [OF refl, of ?s0] tick_payloads [of s env "[?p]", OF _ assms(5) _ s1 refl] v inv(2) assms(9) pool(1)
    by (simp add: game_ok_def with_app_def)
qed

lemma message_broadcast:
  fixes s :: server
  assumes "server_inv (game_ok env) s" and "i < length (sl_clientPool s)" and "\<not> gl_hasStopped (sl_app s)"
    and "Data (cl_frameBuf (client_of s i)) = []" and "Empty (pd_commandQueue (gl_dispatcher (sl_app s)))"
    and "q = makeSendMessageRequest rid name txt seqn" and "api_reads_back (cv_api env) q"
    and "length (api_bytes (cv_api env) q) + 4 \<le> maxFrameSize" and "concat chunks = encode_frame (api_bytes (cv_api env) q)"
    and "s' = update_round env ns t0 t1 (fold (GameLoop_Receive env ns i) chunks s)"
    and "GetUserByClient (sockets s) i (ch_users (gl_chat (sl_app s))) = Some u"
  shows "gl_chat (sl_app s') = gl_chat (sl_app s)
    \<and> (\<exists>j. GetRoom (us_roomId u) (ch_rooms (gl_chat (sl_app s))) = Some j
      \<and> deliveries (sl_events s') = deliveries (sl_events s)
        @ deliveries_to env (makeChatMessageBroadcast (ucast (us_id u)) (us_userName u) txt (cv_now env (length (sl_events s))) seqn)
            (sockets s) (filter (\<lambda>v. us_id v \<noteq> us_id u) (rm_users (room_at (gl_chat (sl_app s)) j))))"
proof -
  obtain s0 t where t: "t = dispatch_payload (cv_api env) close_client (chat_handlers env) i (api_bytes (cv_api env) q) s0"
      and s0: "sl_app s0 = gl_chat (sl_app s)" "sockets s0 = sockets s" "length (sl_clientPool s0) = length (sl_clientPool s)"
        "sl_events s0 = sl_events s" and s': "sl_events s' = sl_events t" "gl_chat (sl_app s') = sl_app t"
    by (rule request_handled [OF assms(1-5,7-10)])
  have "ChatMessageHandler_Handle env i q (SendMessageRequest rid name txt) s0 = t"
    using assms(7) by (simp add: t dispatch_payload_def api_reads_back_def chat_handlers_lookup assms(6) packet_factory_defs payload_as_def)
  moreover have "chat_inv (length (sl_clientPool s0)) (sl_app s0)" "GetUserByClient (sockets s0) i (ch_users (sl_app s0)) = Some u"
    using assms(1,11) s0 by (simp_all add: server_inv_def pool_inv_def game_ok_def)
  ultimately show ?thesis
    using ChatMessageHandler_effect [of s0 i u env q "SendMessageRequest rid name txt" t] s0 s'
    by (simp add: assms(6) makeSendMessageRequest_def finishTypedPacket_def)
qed

section \<open>The receiving clients\<close>

text \<open>A client that finds the frame of a broadcast at the head of its stream reads exactly
  it and shows the line.\<close>

lemma broadcast_shown:
  assumes "cc_tcpClientSocket c = Some sk" and "tcp_IsConnected sk" and "cc_packetStream c = Some \<lparr>ps_maxFrameSize = maxFrameSize\<rparr>"
    and "recv_contract recv wire" and "wire w = framed env b @ rest"
    and "b = makeChatMessageBroadcast sid name txt ts seqn" and "api_reads_back (cv_api env) b" and "sendable env b"
    and "api_bytes (cv_api env) b \<noteq> []"
  shows "\<exists>n w' c'. recv_stream recv c w = (Inr n, api_bytes (cv_api env) b, w') \<and> wire w' = rest
    \<and> recv_buffer (cv_api env) nowNs (onPacketReceived names) (api_bytes (cv_api env) b) c = Some c'
    \<and> cc_console c' = Console_Log ''INFO'' (''[Chat] '' @ render_nat (unat sid) @ ''['' @ c_str name @ '']: '' @ c_str txt) (cc_console c)"
proof -
  have "length (api_bytes (cv_api env) b) \<le> maxFrameSize"
    using assms(8) by (simp add: sendable_def sendBufferSize_def maxFrameSize_def)
  then obtain w' where "RecvFrame recv sk \<lparr>ps_maxFrameSize = maxFrameSize\<rparr> [] w
      = (Inr (length (api_bytes (cv_api env) b)), api_bytes (cv_api env) b, w')" "wire w' = rest"
    using RecvFrame_frame [OF assms(4,2), of "\<lparr>ps_maxFrameSize = maxFrameSize\<rparr>" "api_bytes (cv_api env) b" w rest "[]"] assms(5)
    by (auto simp: framed_def maxFrameSize_def)
  moreover have "pk_type b = B_ChatMessage" "payload_as P_ChatMessageBroadcast b = Some (ChatMessageBroadcast sid name txt ts)"
    using assms(6) by (simp_all add: makeChatMessageBroadcast_def) (simp_all add: finishTypedPacket_def)
  ultimately show ?thesis
    using assms(1,3,7,9)
    by (simp add: recv_stream_def recv_buffer_def api_reads_back_def onPacketReceived_def Let_def log_line_def report_def)
qed


text \<open>Two users in one room: what the one in slot 0 types goes to the one in slot 1.\<close>

definition talk_api :: PacketApi where
  "talk_api = \<lparr>api_verify = (\<lambda>bytes. bytes = [1] \<or> bytes = [2]),
     api_get = (\<lambda>bytes. Some (if bytes = [1] then makeSendMessageRequest 0 ''ann'' ''hi'' 1
        else makeChatMessageBroadcast 0 ''ann'' ''hi'' (0, 0) 1)),
     api_bytes = (\<lambda>p. if pk_type p = CS_SendMessage then [1] else [2])\<rparr>"

definition talk_env :: ChatEnv where
  "talk_env = demo_env\<lparr>cv_api := talk_api\<rparr>"

definition talk_users :: "User list" where
  "talk_users = [demo_user, \<lparr>us_session = \<lparr>ss_tcpClient = 1, ss_sessionId = 1\<rparr>, us_id = 1, us_userName = ''bob'', us_roomId = 0\<rparr>]"

definition talk_server :: server where
  "talk_server = with_app ((new_game talk_env 1 2 WithDefaults)\<lparr>gl_chat := demo_chat talk_users\<rparr>) (demo_server talk_users)"

definition talk_cli :: "byte list ChatCli" where
  "talk_cli = \<lparr>cli_client = demo_client, cli_world = [], cli_nickname = ''ann'', cli_joined = True\<rparr>"

lemma talk_chat_inv: "chat_inv 2 (demo_chat talk_users)"
  by (simp add: chat_inv_def rooms_ok_def users_ok_def members_ok_def sessions_ok_def demo_chat_def members_def
      user_manager.consistent_def ids_ok_def IsRoomExist_def demo_user_def talk_users_def)

lemma talk_server_inv: "server_inv (game_ok talk_env) talk_server"
proof -
  have "game_ok talk_env (Suc (Suc 0)) ((new_game talk_env 1 2 WithDefaults)\<lparr>gl_chat := demo_chat talk_users\<rparr>)"
    using new_game_ok [of talk_env 2 1 2 WithDefaults] talk_chat_inv by (simp add: game_ok_def numeral_2_eq_2)
  moreover have "pooled_client_ok ((Client_UseCallbacks BuildClientCallbacks Client_new)\<lparr>cl_socket := h\<rparr>)" if "h \<noteq> InvalidSocket" for h
    using that by (simp add: pooled_client_ok_def client_inv_def Client_UseCallbacks_def BuildClientCallbacks_def Client_new_def fb_inv_init)
  ultimately show ?thesis
    by (simp add: talk_server_def server_inv_def pool_inv_def lifecycle_inv_def with_app_def counted_def reports_exact_def
        demo_server_def idle_server_def InvalidSocket_def Client_UseCallbacks_def Client_new_def)
qed


end
