(* ===== verification/Metrics.thy ===== *)
theory Metrics
  imports MetricWindows
begin

text \<open>
  The server's metrics: \<open>AtomicServerMetrics\<close>, \<open>NullServerMetrics\<close>, the bound
  callbacks of ServerMetricsCallbacks.cpp and the snapshot
  (lib/inc/metrics, lib/src/metrics/server).

  The virtual methods of \<open>IServerMetrics\<close> are the constructors of
  \<open>ServerMetric\<close>; an implementation is a function from the method and its
  arguments to the change of its state.  Every counter is a 64-bit atomic that
  wraps; the timing windows are those of MetricWindows.  Durations are signed
  nanoseconds.
\<close>

datatype ServerMetric =
    M_AcceptPosted | M_AcceptPostFailed | M_AcceptCompleted | M_AcceptCompletionFailed
  | M_ClientConnected | M_ClientDisconnected
  | M_RecvPosted | M_RecvPostFailed | M_RecvCompleted size_t bool
  | M_SendPosted | M_SendPostFailed | M_SendCompleted size_t bool
  | M_WorkerDispatchBegin | M_WorkerDispatchEnd
  | M_PacketValidationSucceeded | M_PacketValidationFailed
  | M_QueuePushed size_t | M_QueueDrained size_t | M_QueueWait int
  | M_DispatchProcess int | M_TickDuration int | M_TickLag int

record AtomicServerMetrics =
  am_acceptTotal :: uint64
  am_disconnectTotal :: uint64
  am_recvPacketsTotal :: uint64
  am_sendPacketsTotal :: uint64
  am_recvBytesTotal :: uint64
  am_sendBytesTotal :: uint64
  am_sendFailTotal :: uint64
  am_packetValidationTotal :: uint64
  am_packetValidationFailureTotal :: uint64
  am_connectedClients :: int64
  am_pendingAcceptCount :: int64
  am_pendingRecvCount :: int64
  am_pendingSendCount :: int64
  am_dispatcherQueueLength :: int64
  am_runnableWorkerThreadCount :: int64
  am_queueWait :: TimingWindow
  am_dispatchProcess :: TimingWindow
  am_tickDuration :: TimingWindow
  am_tickLag :: TimingWindow

definition AtomicServerMetrics_new :: AtomicServerMetrics where
  "AtomicServerMetrics_new =
     \<lparr>am_acceptTotal = 0, am_disconnectTotal = 0, am_recvPacketsTotal = 0, am_sendPacketsTotal = 0,
      am_recvBytesTotal = 0, am_sendBytesTotal = 0, am_sendFailTotal = 0, am_packetValidationTotal = 0,
      am_packetValidationFailureTotal = 0, am_connectedClients = 0, am_pendingAcceptCount = 0,
      am_pendingRecvCount = 0, am_pendingSendCount = 0, am_dispatcherQueueLength = 0,
      am_runnableWorkerThreadCount = 0, am_queueWait = empty_window, am_dispatchProcess = empty_window,
      am_tickDuration = empty_window, am_tickLag = empty_window\<rparr>"

definition Increment :: "int64 \<Rightarrow> int64 \<Rightarrow> int64" where
  "Increment delta v = v + delta"

definition Decrement :: "int64 \<Rightarrow> int64 \<Rightarrow> int64" where
  "Decrement delta v = v - delta"

text \<open>The four \<open>Observe\<close> methods ignore a negative duration.\<close>

definition observe_duration :: "int \<Rightarrow> TimingWindow \<Rightarrow> TimingWindow" where
  "observe_duration duration w = (if duration < 0 then w else ObserveWindow (of_int duration) w)"

fun atomic_metric :: "ServerMetric \<Rightarrow> AtomicServerMetrics \<Rightarrow> AtomicServerMetrics" where
  "atomic_metric M_AcceptPosted m = m\<lparr>am_pendingAcceptCount := Increment 1 (am_pendingAcceptCount m)\<rparr>"
| "atomic_metric M_AcceptPostFailed m = m"
| "atomic_metric M_AcceptCompleted m =
     m\<lparr>am_pendingAcceptCount := Decrement 1 (am_pendingAcceptCount m), am_acceptTotal := am_acceptTotal m + 1\<rparr>"
| "atomic_metric M_AcceptCompletionFailed m = m\<lparr>am_pendingAcceptCount := Decrement 1 (am_pendingAcceptCount m)\<rparr>"
| "atomic_metric M_ClientConnected m = m\<lparr>am_connectedClients := Increment 1 (am_connectedClients m)\<rparr>"
| "atomic_metric M_ClientDisconnected m =
     m\<lparr>am_connectedClients := Decrement 1 (am_connectedClients m), am_disconnectTotal := am_disconnectTotal m + 1\<rparr>"
| "atomic_metric M_RecvPosted m = m\<lparr>am_pendingRecvCount := Increment 1 (am_pendingRecvCount m)\<rparr>"
| "atomic_metric M_RecvPostFailed m = m"
| "atomic_metric (M_RecvCompleted bytesTransferred countPayload) m =
     (let m1 = m\<lparr>am_pendingRecvCount := Decrement 1 (am_pendingRecvCount m)\<rparr> in
      if \<not> countPayload then m1
      else m1\<lparr>am_recvPacketsTotal := am_recvPacketsTotal m1 + 1, am_recvBytesTotal := am_recvBytesTotal m1 + bytesTransferred\<rparr>)"
| "atomic_metric M_SendPosted m = m\<lparr>am_pendingSendCount := Increment 1 (am_pendingSendCount m)\<rparr>"
| "atomic_metric M_SendPostFailed m = m\<lparr>am_sendFailTotal := am_sendFailTotal m + 1\<rparr>"
| "atomic_metric (M_SendCompleted bytesTransferred countPayload) m =
     (let m1 = m\<lparr>am_pendingSendCount := Decrement 1 (am_pendingSendCount m)\<rparr> in
      if \<not> countPayload then m1
      else m1\<lparr>am_sendPacketsTotal := am_sendPacketsTotal m1 + 1, am_sendBytesTotal := am_sendBytesTotal m1 + bytesTransferred\<rparr>)"
| "atomic_metric M_WorkerDispatchBegin m = m\<lparr>am_runnableWorkerThreadCount := Increment 1 (am_runnableWorkerThreadCount m)\<rparr>"
| "atomic_metric M_WorkerDispatchEnd m = m\<lparr>am_runnableWorkerThreadCount := Decrement 1 (am_runnableWorkerThreadCount m)\<rparr>"
| "atomic_metric M_PacketValidationSucceeded m = m\<lparr>am_packetValidationTotal := am_packetValidationTotal m + 1\<rparr>"
| "atomic_metric M_PacketValidationFailed m =
     m\<lparr>am_packetValidationTotal := am_packetValidationTotal m + 1,
       am_packetValidationFailureTotal := am_packetValidationFailureTotal m + 1\<rparr>"
| "atomic_metric (M_QueuePushed delta) m = m\<lparr>am_dispatcherQueueLength := Increment delta (am_dispatcherQueueLength m)\<rparr>"
| "atomic_metric (M_QueueDrained delta) m = m\<lparr>am_dispatcherQueueLength := Decrement delta (am_dispatcherQueueLength m)\<rparr>"
| "atomic_metric (M_QueueWait d) m = m\<lparr>am_queueWait := observe_duration d (am_queueWait m)\<rparr>"
| "atomic_metric (M_DispatchProcess d) m = m\<lparr>am_dispatchProcess := observe_duration d (am_dispatchProcess m)\<rparr>"
| "atomic_metric (M_TickDuration d) m = m\<lparr>am_tickDuration := observe_duration d (am_tickDuration m)\<rparr>"
| "atomic_metric (M_TickLag d) m = m\<lparr>am_tickLag := observe_duration d (am_tickLag m)\<rparr>"

text \<open>A snapshot copies the counters and drains the windows.  The three runtime
  fields of \<open>ServerMetricsSnapshot\<close> keep their initial zero and nothing reads
  them; they are left out.  The time of the system clock is an argument.\<close>

record ServerMetricsSnapshot =
  ss_capturedAt :: nat
  ss_acceptTotal :: uint64
  ss_disconnectTotal :: uint64
  ss_recvPacketsTotal :: uint64
  ss_sendPacketsTotal :: uint64
  ss_recvBytesTotal :: uint64
  ss_sendBytesTotal :: uint64
  ss_sendFailTotal :: uint64
  ss_packetValidationTotal :: uint64
  ss_packetValidationFailureTotal :: uint64
  ss_connectedClients :: int64
  ss_pendingAcceptCount :: int64
  ss_pendingRecvCount :: int64
  ss_pendingSendCount :: int64
  ss_dispatcherQueueLength :: int64
  ss_runnableWorkerThreadCount :: int64
  ss_queueWait :: TimingWindow
  ss_dispatchProcess :: TimingWindow
  ss_tickDuration :: TimingWindow
  ss_tickLag :: TimingWindow

definition TakeSnapshot :: "nat \<Rightarrow> AtomicServerMetrics \<Rightarrow> ServerMetricsSnapshot \<times> AtomicServerMetrics" where
  "TakeSnapshot now m =
     (case DrainWindow (am_queueWait m) of (qw, qw') \<Rightarrow>
      case DrainWindow (am_dispatchProcess m) of (dp, dp') \<Rightarrow>
      case DrainWindow (am_tickDuration m) of (td, td') \<Rightarrow>
      case DrainWindow (am_tickLag m) of (lag, lag') \<Rightarrow>
        (\<lparr>ss_capturedAt = now,
          ss_acceptTotal = am_acceptTotal m, ss_disconnectTotal = am_disconnectTotal m,
          ss_recvPacketsTotal = am_recvPacketsTotal m, ss_sendPacketsTotal = am_sendPacketsTotal m,
          ss_recvBytesTotal = am_recvBytesTotal m, ss_sendBytesTotal = am_sendBytesTotal m,
          ss_sendFailTotal = am_sendFailTotal m, ss_packetValidationTotal = am_packetValidationTotal m,
          ss_packetValidationFailureTotal = am_packetValidationFailureTotal m, ss_connectedClients = am_connectedClients m,
          ss_pendingAcceptCount = am_pendingAcceptCount m, ss_pendingRecvCount = am_pendingRecvCount m,
          ss_pendingSendCount = am_pendingSendCount m, ss_dispatcherQueueLength = am_dispatcherQueueLength m,
          ss_runnableWorkerThreadCount = am_runnableWorkerThreadCount m,
          ss_queueWait = qw, ss_dispatchProcess = dp, ss_tickDuration = td, ss_tickLag = lag\<rparr>,
         m\<lparr>am_queueWait := qw', am_dispatchProcess := dp', am_tickDuration := td', am_tickLag := lag'\<rparr>))"

definition null_metric :: "ServerMetric \<Rightarrow> unit \<Rightarrow> unit" where
  "null_metric e m = m"

definition null_TakeSnapshot :: "nat \<Rightarrow> unit \<Rightarrow> ServerMetricsSnapshot \<times> unit" where
  "null_TakeSnapshot now m =
     (\<lparr>ss_capturedAt = 0,
       ss_acceptTotal = 0, ss_disconnectTotal = 0, ss_recvPacketsTotal = 0,
       ss_sendPacketsTotal = 0, ss_recvBytesTotal = 0, ss_sendBytesTotal = 0,
       ss_sendFailTotal = 0, ss_packetValidationTotal = 0, ss_packetValidationFailureTotal = 0,
       ss_connectedClients = 0, ss_pendingAcceptCount = 0, ss_pendingRecvCount = 0,
       ss_pendingSendCount = 0, ss_dispatcherQueueLength = 0, ss_runnableWorkerThreadCount = 0,
       ss_queueWait = empty_window, ss_dispatchProcess = empty_window, ss_tickDuration = empty_window,
       ss_tickLag = empty_window\<rparr>, m)"

section \<open>Bound callbacks\<close>

type_synonym 'm metrics_impl = "ServerMetric \<Rightarrow> 'm \<Rightarrow> 'm"

record 'm AcceptorMetricsCallbacks =
  mc_onAcceptPosted :: "('m \<Rightarrow> 'm) option"
  mc_onAcceptPostFailed :: "('m \<Rightarrow> 'm) option"
  mc_onAcceptCompleted :: "('m \<Rightarrow> 'm) option"
  mc_onAcceptCompletionFailed :: "('m \<Rightarrow> 'm) option"

record 'm ConnectionMetricsCallbacks =
  mc_onClientConnected :: "('m \<Rightarrow> 'm) option"
  mc_onClientDisconnected :: "('m \<Rightarrow> 'm) option"
  mc_onRecvPosted :: "('m \<Rightarrow> 'm) option"
  mc_onRecvPostFailed :: "('m \<Rightarrow> 'm) option"
  mc_onRecvCompleted :: "(size_t \<Rightarrow> bool \<Rightarrow> 'm \<Rightarrow> 'm) option"
  mc_onSendPosted :: "('m \<Rightarrow> 'm) option"
  mc_onSendPostFailed :: "('m \<Rightarrow> 'm) option"
  mc_onSendCompleted :: "(size_t \<Rightarrow> bool \<Rightarrow> 'm \<Rightarrow> 'm) option"

record 'm WorkerMetricsCallbacks =
  mc_onWorkerDispatchBegin :: "('m \<Rightarrow> 'm) option"
  mc_onWorkerDispatchEnd :: "('m \<Rightarrow> 'm) option"

record 'm DispatcherMetricsCallbacks =
  mc_onPacketValidationSucceeded :: "('m \<Rightarrow> 'm) option"
  mc_onPacketValidationFailed :: "('m \<Rightarrow> 'm) option"
  mc_onQueuePushed :: "(size_t \<Rightarrow> 'm \<Rightarrow> 'm) option"
  mc_onQueueDrained :: "(size_t \<Rightarrow> 'm \<Rightarrow> 'm) option"
  mc_observeQueueWait :: "(int \<Rightarrow> 'm \<Rightarrow> 'm) option"
  mc_observeDispatchProcess :: "(int \<Rightarrow> 'm \<Rightarrow> 'm) option"

record 'm LogicMetricsCallbacks =
  mc_observeTickDuration :: "(int \<Rightarrow> 'm \<Rightarrow> 'm) option"
  mc_observeTickLag :: "(int \<Rightarrow> 'm \<Rightarrow> 'm) option"

definition BindVoidMetric :: "'m metrics_impl option \<Rightarrow> ServerMetric \<Rightarrow> ('m \<Rightarrow> 'm) option" where
  "BindVoidMetric metrics meth = (case metrics of None \<Rightarrow> None | Some call \<Rightarrow> Some (call meth))"

definition BindSizeTMetric :: "'m metrics_impl option \<Rightarrow> (size_t \<Rightarrow> ServerMetric) \<Rightarrow> (size_t \<Rightarrow> 'm \<Rightarrow> 'm) option" where
  "BindSizeTMetric metrics meth = (case metrics of None \<Rightarrow> None | Some call \<Rightarrow> Some (\<lambda>v. call (meth v)))"

definition BindSizeTBoolMetric ::
  "'m metrics_impl option \<Rightarrow> (size_t \<Rightarrow> bool \<Rightarrow> ServerMetric) \<Rightarrow> (size_t \<Rightarrow> bool \<Rightarrow> 'm \<Rightarrow> 'm) option" where
  "BindSizeTBoolMetric metrics meth = (case metrics of None \<Rightarrow> None | Some call \<Rightarrow> Some (\<lambda>n b. call (meth n b)))"

definition BindDurationMetric :: "'m metrics_impl option \<Rightarrow> (int \<Rightarrow> ServerMetric) \<Rightarrow> (int \<Rightarrow> 'm \<Rightarrow> 'm) option" where
  "BindDurationMetric metrics meth = (case metrics of None \<Rightarrow> None | Some call \<Rightarrow> Some (\<lambda>d. call (meth d)))"

definition MakeNoopAcceptorMetricsCallbacks :: "'m AcceptorMetricsCallbacks" where
  "MakeNoopAcceptorMetricsCallbacks =
     \<lparr>mc_onAcceptPosted = Some id, mc_onAcceptPostFailed = Some id, mc_onAcceptCompleted = Some id,
      mc_onAcceptCompletionFailed = Some id\<rparr>"

definition BindAcceptorMetricsCallbacks :: "'m metrics_impl option \<Rightarrow> 'm AcceptorMetricsCallbacks" where
  "BindAcceptorMetricsCallbacks metrics =
     (if metrics = None then MakeNoopAcceptorMetricsCallbacks
      else \<lparr>mc_onAcceptPosted = BindVoidMetric metrics M_AcceptPosted,
            mc_onAcceptPostFailed = BindVoidMetric metrics M_AcceptPostFailed,
            mc_onAcceptCompleted = BindVoidMetric metrics M_AcceptCompleted,
            mc_onAcceptCompletionFailed = BindVoidMetric metrics M_AcceptCompletionFailed\<rparr>)"

definition MakeNoopConnectionMetricsCallbacks :: "'m ConnectionMetricsCallbacks" where
  "MakeNoopConnectionMetricsCallbacks =
     \<lparr>mc_onClientConnected = Some id, mc_onClientDisconnected = Some id, mc_onRecvPosted = Some id,
      mc_onRecvPostFailed = Some id, mc_onRecvCompleted = Some (\<lambda>_ _. id), mc_onSendPosted = Some id,
      mc_onSendPostFailed = Some id, mc_onSendCompleted = Some (\<lambda>_ _. id)\<rparr>"

definition BindConnectionMetricsCallbacks :: "'m metrics_impl option \<Rightarrow> 'm ConnectionMetricsCallbacks" where
  "BindConnectionMetricsCallbacks metrics =
     (if metrics = None then MakeNoopConnectionMetricsCallbacks
      else \<lparr>mc_onClientConnected = BindVoidMetric metrics M_ClientConnected,
            mc_onClientDisconnected = BindVoidMetric metrics M_ClientDisconnected,
            mc_onRecvPosted = BindVoidMetric metrics M_RecvPosted,
            mc_onRecvPostFailed = BindVoidMetric metrics M_RecvPostFailed,
            mc_onRecvCompleted = BindSizeTBoolMetric metrics M_RecvCompleted,
            mc_onSendPosted = BindVoidMetric metrics M_SendPosted,
            mc_onSendPostFailed = BindVoidMetric metrics M_SendPostFailed,
            mc_onSendCompleted = BindSizeTBoolMetric metrics M_SendCompleted\<rparr>)"

definition MakeNoopWorkerMetricsCallbacks :: "'m WorkerMetricsCallbacks" where
  "MakeNoopWorkerMetricsCallbacks = \<lparr>mc_onWorkerDispatchBegin = Some id, mc_onWorkerDispatchEnd = Some id\<rparr>"

definition BindWorkerMetricsCallbacks :: "'m metrics_impl option \<Rightarrow> 'm WorkerMetricsCallbacks" where
  "BindWorkerMetricsCallbacks metrics =
     (if metrics = None then MakeNoopWorkerMetricsCallbacks
      else \<lparr>mc_onWorkerDispatchBegin = BindVoidMetric metrics M_WorkerDispatchBegin,
            mc_onWorkerDispatchEnd = BindVoidMetric metrics M_WorkerDispatchEnd\<rparr>)"

definition MakeNoopDispatcherMetricsCallbacks :: "'m DispatcherMetricsCallbacks" where
  "MakeNoopDispatcherMetricsCallbacks =
     \<lparr>mc_onPacketValidationSucceeded = Some id, mc_onPacketValidationFailed = Some id,
      mc_onQueuePushed = Some (\<lambda>_. id), mc_onQueueDrained = Some (\<lambda>_. id),
      mc_observeQueueWait = Some (\<lambda>_. id), mc_observeDispatchProcess = Some (\<lambda>_. id)\<rparr>"

definition BindDispatcherMetricsCallbacks :: "'m metrics_impl option \<Rightarrow> 'm DispatcherMetricsCallbacks" where
  "BindDispatcherMetricsCallbacks metrics =
     (if metrics = None then MakeNoopDispatcherMetricsCallbacks
      else \<lparr>mc_onPacketValidationSucceeded = BindVoidMetric metrics M_PacketValidationSucceeded,
            mc_onPacketValidationFailed = BindVoidMetric metrics M_PacketValidationFailed,
            mc_onQueuePushed = BindSizeTMetric metrics M_QueuePushed,
            mc_onQueueDrained = BindSizeTMetric metrics M_QueueDrained,
            mc_observeQueueWait = BindDurationMetric metrics M_QueueWait,
            mc_observeDispatchProcess = BindDurationMetric metrics M_DispatchProcess\<rparr>)"

definition MakeNoopLogicMetricsCallbacks :: "'m LogicMetricsCallbacks" where
  "MakeNoopLogicMetricsCallbacks = \<lparr>mc_observeTickDuration = Some (\<lambda>_. id), mc_observeTickLag = Some (\<lambda>_. id)\<rparr>"

definition BindLogicMetricsCallbacks :: "'m metrics_impl option \<Rightarrow> 'm LogicMetricsCallbacks" where
  "BindLogicMetricsCallbacks metrics =
     (if metrics = None then MakeNoopLogicMetricsCallbacks
      else \<lparr>mc_observeTickDuration = BindDurationMetric metrics M_TickDuration,
            mc_observeTickLag = BindDurationMetric metrics M_TickLag\<rparr>)"

record 'm ServerMetricsCallbacks =
  mc_acceptor :: "'m AcceptorMetricsCallbacks"
  mc_connection :: "'m ConnectionMetricsCallbacks"
  mc_worker :: "'m WorkerMetricsCallbacks"
  mc_dispatcher :: "'m DispatcherMetricsCallbacks"
  mc_logic :: "'m LogicMetricsCallbacks"

definition BindServerMetricsCallbacks :: "'m metrics_impl option \<Rightarrow> 'm ServerMetricsCallbacks" where
  "BindServerMetricsCallbacks metrics =
     \<lparr>mc_acceptor = BindAcceptorMetricsCallbacks metrics, mc_connection = BindConnectionMetricsCallbacks metrics,
      mc_worker = BindWorkerMetricsCallbacks metrics, mc_dispatcher = BindDispatcherMetricsCallbacks metrics,
      mc_logic = BindLogicMetricsCallbacks metrics\<rparr>"

definition MakeNoopServerMetricsCallbacks :: "'m ServerMetricsCallbacks" where
  "MakeNoopServerMetricsCallbacks =
     \<lparr>mc_acceptor = MakeNoopAcceptorMetricsCallbacks, mc_connection = MakeNoopConnectionMetricsCallbacks,
      mc_worker = MakeNoopWorkerMetricsCallbacks, mc_dispatcher = MakeNoopDispatcherMetricsCallbacks,
      mc_logic = MakeNoopLogicMetricsCallbacks\<rparr>"

text \<open>Binding no metrics object at all gives callbacks that do nothing.\<close>

lemma BindServerMetricsCallbacks_None: "BindServerMetricsCallbacks None = MakeNoopServerMetricsCallbacks"
  by (simp add: BindServerMetricsCallbacks_def MakeNoopServerMetricsCallbacks_def BindAcceptorMetricsCallbacks_def
      BindConnectionMetricsCallbacks_def BindWorkerMetricsCallbacks_def BindDispatcherMetricsCallbacks_def
      BindLogicMetricsCallbacks_def)

text \<open>The counters are sums over the calls: what a call adds to the two gauges.\<close>

lemma atomic_metric_gauges:
  "am_connectedClients (atomic_metric e m) =
     am_connectedClients m + (case e of M_ClientConnected \<Rightarrow> 1 | M_ClientDisconnected \<Rightarrow> - 1 | _ \<Rightarrow> 0)"
  "am_dispatcherQueueLength (atomic_metric e m) =
     am_dispatcherQueueLength m + (case e of M_QueuePushed n \<Rightarrow> n | M_QueueDrained n \<Rightarrow> - n | _ \<Rightarrow> 0)"
  by (cases e; simp add: Increment_def Decrement_def Let_def)+

declare atomic_metric.simps [simp del]

end
