(* ===== verification/MetricsWiring.thy ===== *)
theory MetricsWiring
  imports Metrics ChatServer
begin

text \<open>
  How \<open>main\<close> connects the chat server with its metrics:
  \<open>MetricsCallbacksFactory.cpp\<close> and the assembly in main.cpp.

  The components record the callbacks they invoke (their events); a component's
  callback record says which \<open>std::function\<close>s are set.  The functions built here
  say which are set by the factory, and the \<open>run_\<close> functions apply the bound
  metric to an event.  The counters are sums, so the order of the calls of
  different components, which the model does not fix, does not matter for them.
\<close>

definition MakePacketDispatcherCallbacks :: "'m DispatcherMetricsCallbacks \<Rightarrow> DispatcherCallbacks" where
  "MakePacketDispatcherCallbacks cb =
     \<lparr>dcb_onPacketValidationSucceeded = mc_onPacketValidationSucceeded cb \<noteq> None,
      dcb_onPacketValidationFailed = mc_onPacketValidationFailed cb \<noteq> None,
      dcb_onQueuePushed = mc_onQueuePushed cb \<noteq> None, dcb_onQueueDrained = mc_onQueueDrained cb \<noteq> None,
      dcb_onQueueWait = mc_observeQueueWait cb \<noteq> None, dcb_onDispatchProcess = mc_observeDispatchProcess cb \<noteq> None\<rparr>"

definition MakeLifeCycleCallbacks :: "'m ServerMetricsCallbacks \<Rightarrow> LifecycleCallbacks" where
  "MakeLifeCycleCallbacks cb =
     \<lparr>lcb_client = \<lparr>cb_onConnected = mc_onClientConnected (mc_connection cb) \<noteq> None,
        cb_onDisconnected = mc_onClientDisconnected (mc_connection cb) \<noteq> None,
        cb_onRecvPosted = mc_onRecvPosted (mc_connection cb) \<noteq> None,
        cb_onRecvPostFailed = mc_onRecvPostFailed (mc_connection cb) \<noteq> None,
        cb_onSendPosted = mc_onSendPosted (mc_connection cb) \<noteq> None,
        cb_onSendPostFailed = mc_onSendPostFailed (mc_connection cb) \<noteq> None\<rparr>,
      lcb_acceptor = \<lparr>acb_onAcceptPosted = mc_onAcceptPosted (mc_acceptor cb) \<noteq> None,
        acb_onAcceptPostFailed = mc_onAcceptPostFailed (mc_acceptor cb) \<noteq> None,
        acb_onAcceptCompleted = mc_onAcceptCompleted (mc_acceptor cb) \<noteq> None,
        acb_onAcceptCompletionFailed = mc_onAcceptCompletionFailed (mc_acceptor cb) \<noteq> None\<rparr>,
      lcb_iocp = \<lparr>mcb_onWorkerDispatchBegin = mc_onWorkerDispatchBegin (mc_worker cb) \<noteq> None,
        mcb_onWorkerDispatchEnd = mc_onWorkerDispatchEnd (mc_worker cb) \<noteq> None\<rparr>,
      lcb_onRecvCompleted = mc_onRecvCompleted (mc_connection cb) \<noteq> None,
      lcb_onSendCompleted = mc_onSendCompleted (mc_connection cb) \<noteq> None\<rparr>"

record MetricsCallbacksBundle =
  mb_gameLoop :: GameLoopCallbacks
  mb_server :: ServerCallbacks

text \<open>The three lambdas around the writer are always set; they test the writer
  when they run.\<close>

definition MakeMetricsCallbacksBundle :: "'m metrics_impl option \<Rightarrow> MetricsCallbacksBundle" where
  "MakeMetricsCallbacksBundle metrics =
     (let metricsCallbacks = BindServerMetricsCallbacks metrics in
      \<lparr>mb_gameLoop = \<lparr>gcb_dispatcher = MakePacketDispatcherCallbacks (mc_dispatcher metricsCallbacks),
         gcb_onTickDuration = mc_observeTickDuration (mc_logic metricsCallbacks) \<noteq> None,
         gcb_onTickLag = mc_observeTickLag (mc_logic metricsCallbacks) \<noteq> None,
         gcb_onLogicThreadStarted = True\<rparr>,
       mb_server = \<lparr>scb_lifecycle = MakeLifeCycleCallbacks metricsCallbacks, scb_onStarted = True, scb_onStopping = True\<rparr>\<rparr>)"

text \<open>The objects \<open>main\<close> builds before it starts the server: one room manager with one
  room, empty managers, the game loop and the server with the bundle's callbacks.\<close>

definition main_server :: "ChatEnv \<Rightarrow> 'm metrics_impl option \<Rightarrow> uint32 \<Rightarrow> NetworkCfg \<Rightarrow> Server" where
  "main_server env metrics maxCapacity cfg =
     (let bundle = MakeMetricsCallbacksBundle metrics;
          gameLoop = GameLoop_UseCallbacks (mb_gameLoop bundle)
            (GameLoop_new env PacketDispatcher_new (RoomManager_new 1 maxCapacity) SessionManager_new UserManager_new cfg)
      in Server_UseCallbacks (mb_server bundle)
           \<lparr>sv_config = cfg, sv_hasLifecycle = False, sv_lifecycle = idle_server gameLoop, sv_hasGameLoop = True,
            sv_hasStopped = False,
            sv_callbacks = \<lparr>scb_lifecycle = sl_callbacks (idle_server ()), scb_onStarted = False, scb_onStopping = False\<rparr>,
            sv_events = []\<rparr>)"

section \<open>Events reach the metrics\<close>

abbreviation run_void :: "('m \<Rightarrow> 'm) option \<Rightarrow> 'm \<Rightarrow> 'm" where
  "run_void f \<equiv> case_option id id f"

fun run_dispatcher_event :: "'m DispatcherMetricsCallbacks \<Rightarrow> DispatcherEvent \<Rightarrow> 'm \<Rightarrow> 'm" where
  "run_dispatcher_event cb PacketValidationSucceeded = run_void (mc_onPacketValidationSucceeded cb)"
| "run_dispatcher_event cb PacketValidationFailed = run_void (mc_onPacketValidationFailed cb)"
| "run_dispatcher_event cb (QueuePushed n) = case_option id (\<lambda>f. f (of_nat n)) (mc_onQueuePushed cb)"
| "run_dispatcher_event cb (QueueDrained n) = case_option id (\<lambda>f. f (of_nat n)) (mc_onQueueDrained cb)"
| "run_dispatcher_event cb (QueueWait d) = case_option id (\<lambda>f. f d) (mc_observeQueueWait cb)"
| "run_dispatcher_event cb (DispatchProcess d) = case_option id (\<lambda>f. f d) (mc_observeDispatchProcess cb)"

fun run_client_event :: "'m ConnectionMetricsCallbacks \<Rightarrow> ClientOut \<Rightarrow> 'm \<Rightarrow> 'm" where
  "run_client_event cb OnConnected = run_void (mc_onClientConnected cb)"
| "run_client_event cb OnDisconnected = run_void (mc_onClientDisconnected cb)"
| "run_client_event cb OnRecvPosted = run_void (mc_onRecvPosted cb)"
| "run_client_event cb OnRecvPostFailed = run_void (mc_onRecvPostFailed cb)"
| "run_client_event cb OnSendPosted = run_void (mc_onSendPosted cb)"
| "run_client_event cb OnSendPostFailed = run_void (mc_onSendPostFailed cb)"
| "run_client_event cb _ = id"

fun run_acceptor_event :: "'m AcceptorMetricsCallbacks \<Rightarrow> AcceptorOut \<Rightarrow> 'm \<Rightarrow> 'm" where
  "run_acceptor_event cb OnAcceptPosted = run_void (mc_onAcceptPosted cb)"
| "run_acceptor_event cb OnAcceptPostFailed = run_void (mc_onAcceptPostFailed cb)"
| "run_acceptor_event cb OnAcceptCompleted = run_void (mc_onAcceptCompleted cb)"
| "run_acceptor_event cb OnAcceptCompletionFailed = run_void (mc_onAcceptCompletionFailed cb)"
| "run_acceptor_event cb _ = id"

fun run_lifecycle_event :: "'m ServerMetricsCallbacks \<Rightarrow> LifecycleEvent \<Rightarrow> 'm \<Rightarrow> 'm" where
  "run_lifecycle_event cb (Forwarded e) = run_client_event (mc_connection cb) e"
| "run_lifecycle_event cb (RecvCompleted n b) = case_option id (\<lambda>f. f (of_nat n) b) (mc_onRecvCompleted (mc_connection cb))"
| "run_lifecycle_event cb (SendCompleted n b) = case_option id (\<lambda>f. f (of_nat n) b) (mc_onSendCompleted (mc_connection cb))"
| "run_lifecycle_event cb (ClosedSocket h) = id"
| "run_lifecycle_event cb (FromAcceptor e) = run_acceptor_event (mc_acceptor cb) e"

fun run_game_event :: "'m LogicMetricsCallbacks \<Rightarrow> GameLoopEvent \<Rightarrow> 'm \<Rightarrow> 'm" where
  "run_game_event cb (TickDuration d) = case_option id (\<lambda>f. f d) (mc_observeTickDuration cb)"
| "run_game_event cb (TickLag d) = case_option id (\<lambda>f. f d) (mc_observeTickLag cb)"
| "run_game_event cb _ = id"

fun run_worker_event :: "'m WorkerMetricsCallbacks \<Rightarrow> MultiplexerOut \<Rightarrow> 'm \<Rightarrow> 'm" where
  "run_worker_event cb OnWorkerDispatchBegin = run_void (mc_onWorkerDispatchBegin cb)"
| "run_worker_event cb OnWorkerDispatchEnd = run_void (mc_onWorkerDispatchEnd cb)"

definition metrics_of :: "'m ServerMetricsCallbacks \<Rightarrow> 'm \<Rightarrow> server \<Rightarrow> 'm" where
  "metrics_of cb m s =
     fold (run_game_event (mc_logic cb)) (gl_events (sl_app s))
       (fold (run_dispatcher_event (mc_dispatcher cb)) (pd_events (gl_dispatcher (sl_app s)))
         (fold (run_lifecycle_event cb) (sl_events s) m))"

abbreviation atomic_callbacks :: "AtomicServerMetrics ServerMetricsCallbacks" where
  "atomic_callbacks \<equiv> BindServerMetricsCallbacks (Some atomic_metric)"

lemmas bound_callbacks = BindServerMetricsCallbacks_def BindConnectionMetricsCallbacks_def
  BindAcceptorMetricsCallbacks_def BindWorkerMetricsCallbacks_def BindDispatcherMetricsCallbacks_def
  BindLogicMetricsCallbacks_def BindVoidMetric_def BindSizeTMetric_def BindSizeTBoolMetric_def BindDurationMetric_def

text \<open>A call forwarded to the atomic metrics moves the gauges by what the event says.\<close>

lemma lifecycle_event_gauges:
  "am_connectedClients (run_lifecycle_event atomic_callbacks e m) = am_connectedClients m + of_int (connection_delta e)"
  "am_dispatcherQueueLength (run_lifecycle_event atomic_callbacks e m) = am_dispatcherQueueLength m"
proof -
  have c: "am_connectedClients (run_client_event (mc_connection atomic_callbacks) o' m) = am_connectedClients m + of_int (out_delta o')
      \<and> am_dispatcherQueueLength (run_client_event (mc_connection atomic_callbacks) o' m) = am_dispatcherQueueLength m" for o'
    by (cases o') (simp_all add: bound_callbacks atomic_metric_gauges)
  have a: "am_connectedClients (run_acceptor_event (mc_acceptor atomic_callbacks) o' m) = am_connectedClients m
      \<and> am_dispatcherQueueLength (run_acceptor_event (mc_acceptor atomic_callbacks) o' m) = am_dispatcherQueueLength m" for o'
    by (cases o') (simp_all add: bound_callbacks atomic_metric_gauges)
  show "am_connectedClients (run_lifecycle_event atomic_callbacks e m) = am_connectedClients m + of_int (connection_delta e)"
    "am_dispatcherQueueLength (run_lifecycle_event atomic_callbacks e m) = am_dispatcherQueueLength m"
    by (cases e; simp add: c a; simp add: bound_callbacks atomic_metric_gauges)+
qed

lemma dispatcher_event_gauges:
  "am_dispatcherQueueLength (run_dispatcher_event (mc_dispatcher atomic_callbacks) e m) =
     am_dispatcherQueueLength m + of_int (queue_delta e)"
  "am_connectedClients (run_dispatcher_event (mc_dispatcher atomic_callbacks) e m) = am_connectedClients m"
  by (cases e; simp add: bound_callbacks atomic_metric_gauges)+

lemma game_event_gauges:
  "am_dispatcherQueueLength (run_game_event (mc_logic atomic_callbacks) e m) = am_dispatcherQueueLength m"
  "am_connectedClients (run_game_event (mc_logic atomic_callbacks) e m) = am_connectedClients m"
  by (cases e; simp add: bound_callbacks atomic_metric_gauges)+

lemma of_int_sum_list: "of_int (sum_list (map f xs)) = sum_list (map (\<lambda>x. of_int (f x)) xs)"
  by (induction xs) simp_all

lemma metrics_of_gauges:
  "am_connectedClients (metrics_of atomic_callbacks m s)
     = am_connectedClients m + of_int (sum_list (map connection_delta (sl_events s)))"
  "am_dispatcherQueueLength (metrics_of atomic_callbacks m s)
     = am_dispatcherQueueLength m + of_int (sum_list (map queue_delta (pd_events (gl_dispatcher (sl_app s)))))"
  using fold_sum_list [of am_connectedClients "run_lifecycle_event atomic_callbacks", OF lifecycle_event_gauges(1)]
    fold_sum_list [of am_connectedClients "run_dispatcher_event (mc_dispatcher atomic_callbacks)" "\<lambda>_. 0"]
    fold_sum_list [of am_connectedClients "run_game_event (mc_logic atomic_callbacks)" "\<lambda>_. 0"]
    fold_sum_list [of am_dispatcherQueueLength "run_lifecycle_event atomic_callbacks" "\<lambda>_. 0"]
    fold_sum_list [of am_dispatcherQueueLength "run_dispatcher_event (mc_dispatcher atomic_callbacks)", OF dispatcher_event_gauges(1)]
    fold_sum_list [of am_dispatcherQueueLength "run_game_event (mc_logic atomic_callbacks)" "\<lambda>_. 0"]
  by (simp_all add: metrics_of_def of_int_sum_list lifecycle_event_gauges dispatcher_event_gauges game_event_gauges)

section \<open>The gauges are exact\<close>

text \<open>The application's invariant together with the dispatcher's installed callbacks.\<close>

definition wired_ok :: "ChatEnv \<Rightarrow> DispatcherCallbacks \<Rightarrow> nat \<Rightarrow> GameLoop \<Rightarrow> bool" where
  "wired_ok env cbs n g \<longleftrightarrow> game_ok env n g \<and> pd_callbacks (gl_dispatcher g) = cbs"

lemma keeps_callbacks:
  assumes "keeps_pool_at (game_ok env) f"
    and "\<And>i s. pool_inv (game_ok env) s \<Longrightarrow> i < length (sl_clientPool s)
      \<Longrightarrow> pd_callbacks (gl_dispatcher (sl_app (f i s))) = pd_callbacks (gl_dispatcher (sl_app s))"
  shows "keeps_pool_at (wired_ok env cbs) f"
  unfolding keeps_pool_at_def
proof (intro allI impI, elim conjE)
  fix i s assume s: "pool_inv (wired_ok env cbs) s" "i < length (sl_clientPool s)"
  then have "pool_inv (game_ok env) s" by (simp add: pool_inv_def wired_ok_def)
  from keeps_pool_atD [OF assms(1) this s(2)] assms(2) [OF this s(2)] s(1)
  show "pool_inv (wired_ok env cbs) (f i s) \<and> length (sl_clientPool (f i s)) = length (sl_clientPool s)
    \<and> sl_acceptor (f i s) = sl_acceptor s \<and> sl_callbacks (f i s) = sl_callbacks s"
    by (simp add: pool_inv_def wired_ok_def)
qed

lemma Connect_keeps_callbacks: "keeps_pool_at (wired_ok env cbs) GameLoop_Connect"
  by (rule keeps_callbacks [OF Connect_keeps]) (simp add: GameLoop_Connect_def)

lemma Disconnect_keeps_callbacks: "keeps_pool_at (wired_ok env cbs) GameLoop_Disconnect"
  by (rule keeps_callbacks [OF Disconnect_keeps]) (simp add: GameLoop_Disconnect_def)

lemma Receive_keeps_callbacks:
  assumes "pool_inv (game_ok env) s" and "i < length (sl_clientPool s)" and "length data < 2 ^ 32"
  shows "pd_callbacks (gl_dispatcher (sl_app (GameLoop_Receive env ns i data s))) = pd_callbacks (gl_dispatcher (sl_app s))"
proof -
  obtain c d outs where r: "Receive (cv_api env) ns i data (client_of s i) (gl_dispatcher (sl_app s)) = (c, d, outs)"
    by (metis prod_cases3)
  have "fb_inv (cl_frameBuf (client_of s i))"
    using pool_member [of s i] assms(1,2) by (simp add: pool_inv_def pooled_client_ok_def client_inv_def)
  from Receive_callbacks [OF this _ r] show ?thesis
    using r assms(3) by (simp add: GameLoop_Receive_def)
qed

interpretation wired: session_receiver "chat_receiver env ns" "wired_ok env cbs" for env ns cbs
  by unfold_locales
     (simp_all add: chat_receiver_def Server_OnAccept_def [abs_def] Server_OnRecv_def [abs_def]
       Server_OnSend_def [abs_def] Server_OnDisconnect_def [abs_def] Connect_keeps_callbacks
       keeps_callbacks [OF Receive_keeps] Receive_keeps_callbacks Disconnect_keeps_callbacks ignore_keeps)

lemma wired_step:
  assumes "server_step env ns s s'" and "server_inv (wired_ok env cbs) s"
  shows "server_inv (wired_ok env cbs) s' \<and> sl_callbacks s' = sl_callbacks s"
  using assms(1)
proof (cases rule: server_step.cases)
  case (completion ev cenv)
  then show ?thesis using wired.OnCompletion_keeps [OF assms(2)] by simp
next
  case (round t0 t1)
  have g: "server_inv (game_ok env) s" "pd_callbacks (gl_dispatcher (sl_app s)) = cbs"
    using assms(2) by (simp_all add: server_inv_def pool_inv_def wired_ok_def)
  obtain d u where t: "Tick (cv_api env) ns close_client (gl_dispatcher (sl_app s), with_app (gl_chat (sl_app s)) s) = (d, u)"
    by fastforce
  have "pd_callbacks (gl_dispatcher (sl_app (GameLoop_Tick env ns s))) = cbs"
    using Tick_callbacks [OF t] g(2) by (simp add: GameLoop_Tick_def t)
  then have "pd_callbacks (gl_dispatcher (sl_app s')) = cbs"
    using round by (simp add: update_round_def log_event_def Let_def)
  then show ?thesis
    using server_step_inv [OF assms(1) g(1)] unfolding server_inv_def pool_inv_def wired_ok_def by blast
qed

lemma wired_reachable:
  assumes "(server_step env ns)\<^sup>*\<^sup>* s s'" and "server_inv (wired_ok env cbs) s"
  shows "server_inv (wired_ok env cbs) s' \<and> sl_callbacks s' = sl_callbacks s"
  using assms by (induction rule: rtranclp_induct) (auto dest: wired_step)

lemma gauges_of_invariant:
  assumes "lifecycle_inv s" and "queue_reported (gl_dispatcher (sl_app s))" and "reports_connections s"
    and "dcb_onQueuePushed (pd_callbacks (gl_dispatcher (sl_app s)))"
    and "dcb_onQueueDrained (pd_callbacks (gl_dispatcher (sl_app s)))"
  shows "am_connectedClients (metrics_of atomic_callbacks AtomicServerMetrics_new s)
      = of_nat (length (filter cl_connectionEventCounted (sl_clientPool s)))
    \<and> am_dispatcherQueueLength (metrics_of atomic_callbacks AtomicServerMetrics_new s)
      = of_nat (length (q_writeQueue (pd_commandQueue (gl_dispatcher (sl_app s)))))"
  using assms
  by (simp add: metrics_of_gauges AtomicServerMetrics_new_def lifecycle_inv_def counted_def reports_exact_def
      queue_reported_def)



end
