(* ===== verification/ServerWriter.thy ===== *)
theory ServerWriter
  imports Metrics MetricsSupport
begin

text \<open>
  Writing the server's metrics: \<open>RuntimeSampler\<close>, \<open>SummaryAccumulator\<close>,
  \<open>JsonFields\<close> and \<open>ServerMetricsWriter\<close> (lib/src/metrics/server,
  lib/inc/metrics/server/writer).

  The metrics object is any implementation of \<open>IServerMetrics\<close>: its state is part
  of the writer and \<open>takeSnapshot\<close> its \<open>TakeSnapshot\<close>.  What the operating system answers
  (clocks, process times, whether a file could be opened and written) are
  arguments.  A file is the text written to it; what a failed write leaves in it and
  other programs writing to it are not modelled.
\<close>

section \<open>Runtime sampling\<close>

record 'd RuntimeSample =
  smp_processCpuPercent :: 'd
  smp_logicThreadCpuPercent :: 'd
  smp_threadCount :: uint32

record RuntimeSampler =
  rs_logicThreadId :: uint32
  rs_lastSampleAt :: int
  rs_lastProcessKernel100ns :: uint64
  rs_lastProcessUser100ns :: uint64
  rs_lastLogicThreadKernel100ns :: uint64
  rs_lastLogicThreadUser100ns :: uint64
  rs_lastLogicThreadIdSampled :: uint32
  rs_hasBaseline :: bool

text \<open>The answers to one sample: the steady clock in nanoseconds, kernel and user time
  of the process and of the thread with the given id (nothing when it cannot be
  opened or read), and the numbers of processors and threads.\<close>

record SampleEnv =
  en_now :: int
  en_processTimes :: "(uint64 \<times> uint64) option"
  en_threadTimes :: "uint32 \<Rightarrow> (uint64 \<times> uint64) option"
  en_processorCount :: uint32
  en_threadCount :: uint32

definition SetLogicThreadId :: "uint32 \<Rightarrow> RuntimeSampler \<Rightarrow> RuntimeSampler" where
  "SetLogicThreadId threadId r = r\<lparr>rs_logicThreadId := threadId\<rparr>"

definition Sampler_Reset :: "RuntimeSampler \<Rightarrow> RuntimeSampler" where
  "Sampler_Reset r =
     r\<lparr>rs_lastSampleAt := 0, rs_lastProcessKernel100ns := 0, rs_lastProcessUser100ns := 0,
       rs_lastLogicThreadKernel100ns := 0, rs_lastLogicThreadUser100ns := 0, rs_lastLogicThreadIdSampled := 0,
       rs_hasBaseline := False\<rparr>"

definition cpu_seconds :: "'d Fp \<Rightarrow> uint64 \<Rightarrow> 'd" where
  "cpu_seconds fp delta = fp_mul fp (fp_of_uint64 fp delta) (fp_literal fp ''1e-7'')"

definition Sample :: "'d Fp \<Rightarrow> SampleEnv \<Rightarrow> RuntimeSampler \<Rightarrow> 'd RuntimeSample \<times> RuntimeSampler" where
  "Sample fp env r =
     (let sample = \<lparr>smp_processCpuPercent = fp_zero fp, smp_logicThreadCpuPercent = fp_zero fp, smp_threadCount = 0\<rparr> in
      case en_processTimes env of
        None \<Rightarrow> (sample, r\<lparr>rs_hasBaseline := False, rs_lastSampleAt := en_now env, rs_lastProcessKernel100ns := 0,
            rs_lastProcessUser100ns := 0, rs_lastLogicThreadKernel100ns := 0, rs_lastLogicThreadUser100ns := 0,
            rs_lastLogicThreadIdSampled := 0\<rparr>)
      | Some (processKernel, processUser) \<Rightarrow>
        let logicThreadId = rs_logicThreadId r;
            logic = (if logicThreadId \<noteq> 0 then en_threadTimes env logicThreadId else None);
            logicKernel = (case logic of None \<Rightarrow> 0 | Some (k, u) \<Rightarrow> k);
            logicUser = (case logic of None \<Rightarrow> 0 | Some (k, u) \<Rightarrow> u)
        in if \<not> rs_hasBaseline r then
             (sample, r\<lparr>rs_hasBaseline := True, rs_lastSampleAt := en_now env, rs_lastProcessKernel100ns := processKernel,
                rs_lastProcessUser100ns := processUser, rs_lastLogicThreadKernel100ns := logicKernel,
                rs_lastLogicThreadUser100ns := logicUser, rs_lastLogicThreadIdSampled := logicThreadId\<rparr>)
           else
             let elapsedSeconds = fp_seconds fp (en_now env - rs_lastSampleAt r);
                 (sample1, r1) =
                   (if fp_less fp (fp_zero fp) elapsedSeconds then
                      let processDelta = (processKernel - rs_lastProcessKernel100ns r) + (processUser - rs_lastProcessUser100ns r);
                          s1 = sample\<lparr>smp_processCpuPercent :=
                            fp_mul fp (fp_div fp (fp_div fp (cpu_seconds fp processDelta) elapsedSeconds)
                              (fp_of_uint64 fp (ucast (en_processorCount env)))) (fp_literal fp ''100.0'')\<rparr>
                      in if logicThreadId \<noteq> 0 \<and> logic \<noteq> None then
                           (if rs_lastLogicThreadIdSampled r \<noteq> logicThreadId then
                              (s1, r\<lparr>rs_lastLogicThreadKernel100ns := logicKernel, rs_lastLogicThreadUser100ns := logicUser,
                                 rs_lastLogicThreadIdSampled := logicThreadId\<rparr>)
                            else
                              let logicDelta = logicKernel - rs_lastLogicThreadKernel100ns r + (logicUser - rs_lastLogicThreadUser100ns r)
                              in (s1\<lparr>smp_logicThreadCpuPercent :=
                                    fp_mul fp (fp_div fp (cpu_seconds fp logicDelta) elapsedSeconds) (fp_literal fp ''100.0'')\<rparr>, r))
                         else (s1, r)
                    else (sample, r));
                 r2 = r1\<lparr>rs_lastSampleAt := en_now env, rs_lastProcessKernel100ns := processKernel,
                         rs_lastProcessUser100ns := processUser\<rparr>;
                 r3 = (if logic \<noteq> None then r2\<lparr>rs_lastLogicThreadKernel100ns := logicKernel,
                         rs_lastLogicThreadUser100ns := logicUser, rs_lastLogicThreadIdSampled := logicThreadId\<rparr> else r2)
             in (sample1\<lparr>smp_threadCount := en_threadCount env\<rparr>, r3))"

section \<open>Records of one snapshot\<close>

record 'd SnapshotRecord =
  sr_capturedAt :: ticks
  sr_capturedAtSteady :: int
  sr_acceptTotal :: uint64
  sr_disconnectTotal :: uint64
  sr_recvPacketsTotal :: uint64
  sr_sendPacketsTotal :: uint64
  sr_recvBytesTotal :: uint64
  sr_sendBytesTotal :: uint64
  sr_sendFailTotal :: uint64
  sr_packetValidationTotal :: uint64
  sr_packetValidationFailureTotal :: uint64
  sr_connectedClients :: int64
  sr_pendingAcceptCount :: int64
  sr_pendingRecvCount :: int64
  sr_pendingSendCount :: int64
  sr_dispatcherQueueLength :: int64
  sr_runnableWorkerThreadCount :: int64
  sr_queueWaitMsAvg :: 'd
  sr_queueWaitMsMax :: 'd
  sr_dispatchProcessMsAvg :: 'd
  sr_dispatchProcessMsMax :: 'd
  sr_tickDurationMsAvg :: 'd
  sr_tickDurationMsMax :: 'd
  sr_tickLagMsAvg :: 'd
  sr_tickLagMsMax :: 'd
  sr_processCpuPercent :: 'd
  sr_logicThreadCpuPercent :: 'd
  sr_threadCount :: uint32

definition SnapshotRecord_zero :: "'d Fp \<Rightarrow> 'd SnapshotRecord" where
  "SnapshotRecord_zero fp =
     \<lparr>sr_capturedAt = 0, sr_capturedAtSteady = 0,
      sr_acceptTotal = 0, sr_disconnectTotal = 0, sr_recvPacketsTotal = 0, sr_sendPacketsTotal = 0,
      sr_recvBytesTotal = 0, sr_sendBytesTotal = 0, sr_sendFailTotal = 0, sr_packetValidationTotal = 0,
      sr_packetValidationFailureTotal = 0, sr_connectedClients = 0, sr_pendingAcceptCount = 0, sr_pendingRecvCount = 0,
      sr_pendingSendCount = 0, sr_dispatcherQueueLength = 0, sr_runnableWorkerThreadCount = 0,
      sr_queueWaitMsAvg = fp_zero fp, sr_queueWaitMsMax = fp_zero fp, sr_dispatchProcessMsAvg = fp_zero fp,
      sr_dispatchProcessMsMax = fp_zero fp, sr_tickDurationMsAvg = fp_zero fp, sr_tickDurationMsMax = fp_zero fp,
      sr_tickLagMsAvg = fp_zero fp, sr_tickLagMsMax = fp_zero fp, sr_processCpuPercent = fp_zero fp,
      sr_logicThreadCpuPercent = fp_zero fp,
      sr_threadCount = 0\<rparr>"

text \<open>The record \<open>CaptureAndWriteSnapshot\<close> fills from a snapshot and a runtime sample.\<close>

definition make_record :: "'d Fp \<Rightarrow> int \<Rightarrow> ServerMetricsSnapshot \<Rightarrow> 'd RuntimeSample \<Rightarrow> 'd SnapshotRecord" where
  "make_record fp steady snapshot runtime =
     \<lparr>sr_capturedAt = ss_capturedAt snapshot, sr_capturedAtSteady = steady,
      sr_acceptTotal = ss_acceptTotal snapshot, sr_disconnectTotal = ss_disconnectTotal snapshot,
      sr_recvPacketsTotal = ss_recvPacketsTotal snapshot, sr_sendPacketsTotal = ss_sendPacketsTotal snapshot,
      sr_recvBytesTotal = ss_recvBytesTotal snapshot, sr_sendBytesTotal = ss_sendBytesTotal snapshot,
      sr_sendFailTotal = ss_sendFailTotal snapshot, sr_packetValidationTotal = ss_packetValidationTotal snapshot,
      sr_packetValidationFailureTotal = ss_packetValidationFailureTotal snapshot, sr_connectedClients = ss_connectedClients snapshot,
      sr_pendingAcceptCount = ss_pendingAcceptCount snapshot, sr_pendingRecvCount = ss_pendingRecvCount snapshot,
      sr_pendingSendCount = ss_pendingSendCount snapshot, sr_dispatcherQueueLength = ss_dispatcherQueueLength snapshot,
      sr_runnableWorkerThreadCount = ss_runnableWorkerThreadCount snapshot,
      sr_queueWaitMsAvg = TimingAverageMs fp (ss_queueWait snapshot), sr_queueWaitMsMax = TimingMaxMs fp (ss_queueWait snapshot),
      sr_dispatchProcessMsAvg = TimingAverageMs fp (ss_dispatchProcess snapshot), sr_dispatchProcessMsMax = TimingMaxMs fp (ss_dispatchProcess snapshot),
      sr_tickDurationMsAvg = TimingAverageMs fp (ss_tickDuration snapshot), sr_tickDurationMsMax = TimingMaxMs fp (ss_tickDuration snapshot),
      sr_tickLagMsAvg = TimingAverageMs fp (ss_tickLag snapshot), sr_tickLagMsMax = TimingMaxMs fp (ss_tickLag snapshot),
      sr_processCpuPercent = smp_processCpuPercent runtime, sr_logicThreadCpuPercent = smp_logicThreadCpuPercent runtime,
      sr_threadCount = smp_threadCount runtime\<rparr>"

section \<open>Summary\<close>

text \<open>\<open>std::max\<close> on \<open>int64_t\<close>.\<close>

definition int64_max :: "int64 \<Rightarrow> int64 \<Rightarrow> int64" where
  "int64_max a b = (if sint a < sint b then b else a)"

record 'd SummaryAccumulator =
  sa_snapshots :: uint64
  sa_acceptPerSecSum :: 'd
  sa_recvPacketsPerSecSum :: 'd
  sa_sendPacketsPerSecSum :: 'd
  sa_maxAcceptPerSec :: 'd
  sa_maxRecvPacketsPerSec :: 'd
  sa_maxSendPacketsPerSec :: 'd
  sa_queueWaitMsSum :: 'd
  sa_dispatchProcessMsSum :: 'd
  sa_tickDurationMsSum :: 'd
  sa_tickLagMsSum :: 'd
  sa_processCpuPercentSum :: 'd
  sa_logicThreadCpuPercentSum :: 'd
  sa_maxConnectedClients :: int64
  sa_maxDispatcherQueueLength :: int64
  sa_maxPendingSendCount :: int64
  sa_maxQueueWaitMs :: 'd
  sa_maxDispatchProcessMs :: 'd
  sa_maxTickDurationMs :: 'd
  sa_maxTickLagMs :: 'd
  sa_maxProcessCpuPercent :: 'd
  sa_maxLogicThreadCpuPercent :: 'd
  sa_maxThreadCount :: uint32
  sa_disconnectTotal :: uint64
  sa_packetValidationFailureTotal :: uint64

definition Summary_Reset :: "'d Fp \<Rightarrow> 'd SummaryAccumulator" where
  "Summary_Reset fp =
     \<lparr>sa_snapshots = 0,
      sa_acceptPerSecSum = fp_zero fp, sa_recvPacketsPerSecSum = fp_zero fp, sa_sendPacketsPerSecSum = fp_zero fp,
      sa_maxAcceptPerSec = fp_zero fp, sa_maxRecvPacketsPerSec = fp_zero fp, sa_maxSendPacketsPerSec = fp_zero fp,
      sa_queueWaitMsSum = fp_zero fp, sa_dispatchProcessMsSum = fp_zero fp, sa_tickDurationMsSum = fp_zero fp,
      sa_tickLagMsSum = fp_zero fp, sa_processCpuPercentSum = fp_zero fp, sa_logicThreadCpuPercentSum = fp_zero fp,
      sa_maxConnectedClients = 0, sa_maxDispatcherQueueLength = 0, sa_maxPendingSendCount = 0,
      sa_maxQueueWaitMs = fp_zero fp, sa_maxDispatchProcessMs = fp_zero fp, sa_maxTickDurationMs = fp_zero fp,
      sa_maxTickLagMs = fp_zero fp, sa_maxProcessCpuPercent = fp_zero fp, sa_maxLogicThreadCpuPercent = fp_zero fp,
      sa_maxThreadCount = 0, sa_disconnectTotal = 0, sa_packetValidationFailureTotal = 0\<rparr>"

definition Observe :: "'d Fp \<Rightarrow> 'd SnapshotRecord \<Rightarrow> 'd SnapshotRecord option \<Rightarrow> 'd SummaryAccumulator \<Rightarrow> 'd SummaryAccumulator" where
  "Observe fp rec previous a =
     (let elapsed = (case previous of None \<Rightarrow> 1000000000
                     | Some p \<Rightarrow> (int (sr_capturedAt rec) - int (sr_capturedAt p)) * 100);
          rate = (\<lambda>field. case previous of None \<Rightarrow> fp_zero fp | Some p \<Rightarrow> ComputeRate fp (field rec) (field p) elapsed);
          acceptPerSec = rate sr_acceptTotal;
          recvPacketsPerSec = rate sr_recvPacketsTotal;
          sendPacketsPerSec = rate sr_sendPacketsTotal
      in a\<lparr>sa_snapshots := sa_snapshots a + 1,
           sa_maxConnectedClients := int64_max (sa_maxConnectedClients a) (sr_connectedClients rec),
           sa_maxDispatcherQueueLength := int64_max (sa_maxDispatcherQueueLength a) (sr_dispatcherQueueLength rec),
           sa_maxPendingSendCount := int64_max (sa_maxPendingSendCount a) (sr_pendingSendCount rec),
           sa_maxQueueWaitMs := fp_max fp (sa_maxQueueWaitMs a) (sr_queueWaitMsMax rec),
           sa_maxDispatchProcessMs := fp_max fp (sa_maxDispatchProcessMs a) (sr_dispatchProcessMsMax rec),
           sa_maxTickDurationMs := fp_max fp (sa_maxTickDurationMs a) (sr_tickDurationMsMax rec),
           sa_maxTickLagMs := fp_max fp (sa_maxTickLagMs a) (sr_tickLagMsMax rec),
           sa_maxProcessCpuPercent := fp_max fp (sa_maxProcessCpuPercent a) (sr_processCpuPercent rec),
           sa_maxLogicThreadCpuPercent := fp_max fp (sa_maxLogicThreadCpuPercent a) (sr_logicThreadCpuPercent rec),
           sa_maxThreadCount := max (sa_maxThreadCount a) (sr_threadCount rec),
           sa_disconnectTotal := sr_disconnectTotal rec,
           sa_packetValidationFailureTotal := sr_packetValidationFailureTotal rec,
           sa_acceptPerSecSum := fp_add fp (sa_acceptPerSecSum a) acceptPerSec,
           sa_recvPacketsPerSecSum := fp_add fp (sa_recvPacketsPerSecSum a) recvPacketsPerSec,
           sa_sendPacketsPerSecSum := fp_add fp (sa_sendPacketsPerSecSum a) sendPacketsPerSec,
           sa_maxAcceptPerSec := fp_max fp (sa_maxAcceptPerSec a) acceptPerSec,
           sa_maxRecvPacketsPerSec := fp_max fp (sa_maxRecvPacketsPerSec a) recvPacketsPerSec,
           sa_maxSendPacketsPerSec := fp_max fp (sa_maxSendPacketsPerSec a) sendPacketsPerSec,
           sa_queueWaitMsSum := fp_add fp (sa_queueWaitMsSum a) (sr_queueWaitMsAvg rec),
           sa_dispatchProcessMsSum := fp_add fp (sa_dispatchProcessMsSum a) (sr_dispatchProcessMsAvg rec),
           sa_tickDurationMsSum := fp_add fp (sa_tickDurationMsSum a) (sr_tickDurationMsAvg rec),
           sa_tickLagMsSum := fp_add fp (sa_tickLagMsSum a) (sr_tickLagMsAvg rec),
           sa_processCpuPercentSum := fp_add fp (sa_processCpuPercentSum a) (sr_processCpuPercent rec),
           sa_logicThreadCpuPercentSum := fp_add fp (sa_logicThreadCpuPercentSum a) (sr_logicThreadCpuPercent rec)\<rparr>)"

definition Average :: "'d Fp \<Rightarrow> 'd \<Rightarrow> 'd SummaryAccumulator \<Rightarrow> 'd" where
  "Average fp acc a =
     fp_div fp acc (if sa_snapshots a = 0 then fp_literal fp ''1.0'' else fp_of_uint64 fp (sa_snapshots a))"

definition bullet :: "string \<Rightarrow> string \<Rightarrow> string" where
  "bullet label v = ''- '' @ label @ '': '' @ v @ [CHR 0x0A]"

definition bottleneck :: "'d Fp \<Rightarrow> 'd SummaryAccumulator \<Rightarrow> string" where
  "bottleneck fp a =
     (if sint (sa_maxDispatcherQueueLength a) > 0 \<and> fp_less fp (fp_zero fp) (sa_maxTickLagMs a) then ''Queue / Logic''
      else if sint (sa_maxPendingSendCount a) > 0 then ''Transport / Send''
      else if fp_le fp (fp_literal fp ''80.0'') (sa_maxProcessCpuPercent a) then ''Runtime / CPU''
      else ''none observed'')"

definition BuildMarkdown :: "'d Fp \<Rightarrow> RunManifest \<Rightarrow> string \<Rightarrow> 'd SummaryAccumulator \<Rightarrow> string" where
  "BuildMarkdown fp manifest outputDir a =
     (let num = (\<lambda>d. FormatNumber fp d); avg = (\<lambda>s. FormatNumber fp (Average fp s a)) in
      ''Server Metrics Summary'' @ [CHR 0x0A, CHR 0x0A]
      @ bullet ''run_id'' (if man_runId manifest = [] then ''run'' else man_runId manifest)
      @ bullet ''server_name'' (if man_serverName manifest = [] then ''server'' else man_serverName manifest)
      @ bullet ''output_dir'' outputDir
      @ bullet ''started_at'' (optional_time (man_startedAt manifest))
      @ bullet ''finished_at'' (optional_time (man_finishedAt manifest)) @ [CHR 0x0A]
      @ ''Core Results'' @ [CHR 0x0A]
      @ bullet ''max connected clients'' (render_int (sint (sa_maxConnectedClients a)))
      @ bullet ''avg accept/sec'' (avg (sa_acceptPerSecSum a)) @ bullet ''max accept/sec'' (num (sa_maxAcceptPerSec a))
      @ bullet ''avg recv packets/sec'' (avg (sa_recvPacketsPerSecSum a)) @ bullet ''max recv packets/sec'' (num (sa_maxRecvPacketsPerSec a))
      @ bullet ''avg send packets/sec'' (avg (sa_sendPacketsPerSecSum a)) @ bullet ''max send packets/sec'' (num (sa_maxSendPacketsPerSec a))
      @ bullet ''avg queue wait ms'' (avg (sa_queueWaitMsSum a)) @ bullet ''max queue wait ms'' (num (sa_maxQueueWaitMs a))
      @ bullet ''avg dispatch process ms'' (avg (sa_dispatchProcessMsSum a)) @ bullet ''max dispatch process ms'' (num (sa_maxDispatchProcessMs a))
      @ bullet ''avg tick duration ms'' (avg (sa_tickDurationMsSum a)) @ bullet ''max tick duration ms'' (num (sa_maxTickDurationMs a))
      @ bullet ''avg tick lag ms'' (avg (sa_tickLagMsSum a)) @ bullet ''max tick lag ms'' (num (sa_maxTickLagMs a))
      @ bullet ''max pending send count'' (render_int (sint (sa_maxPendingSendCount a)))
      @ bullet ''packet validation failure total'' (render_nat (unat (sa_packetValidationFailureTotal a)))
      @ bullet ''disconnect total'' (render_nat (unat (sa_disconnectTotal a)))
      @ bullet ''avg process CPU percent'' (avg (sa_processCpuPercentSum a)) @ bullet ''max process CPU percent'' (num (sa_maxProcessCpuPercent a))
      @ bullet ''avg logic thread CPU percent'' (avg (sa_logicThreadCpuPercentSum a))
      @ bullet ''max logic thread CPU percent'' (num (sa_maxLogicThreadCpuPercent a))
      @ bullet ''max thread count'' (render_nat (unat (sa_maxThreadCount a)))
      @ bullet ''bottleneck guess'' (bottleneck fp a))"

section \<open>Snapshot lines\<close>

text \<open>\<open>duration_cast\<close> truncates towards zero.\<close>

definition truncate_div :: "int \<Rightarrow> int \<Rightarrow> int" where
  "truncate_div a b = (if a < 0 then - ((- a) div b) else a div b)"

datatype 'd JsonField =
    JsonTimestamp string ticks
  | JsonCounter string uint64
  | JsonGauge string int64
  | JsonNumber string 'd
  | JsonUint string uint32

fun field_text :: "'d Fp \<Rightarrow> 'd JsonField \<Rightarrow> string" where
  "field_text fp (JsonTimestamp name v) = quoted name @ '':'' @ quoted (JsonEscape (FormatUtcTime v))"
| "field_text fp (JsonCounter name v) = quoted name @ '':'' @ render_nat (unat v)"
| "field_text fp (JsonGauge name v) = quoted name @ '':'' @ render_int (sint v)"
| "field_text fp (JsonNumber name v) = quoted name @ '':'' @ FormatNumber fp v"
| "field_text fp (JsonUint name v) = quoted name @ '':'' @ render_nat (unat v)"

record JsonObjectWriter =
  jw_os :: string
  jw_first :: bool

definition JsonObjectWriter_new :: "string \<Rightarrow> JsonObjectWriter" where
  "JsonObjectWriter_new os = \<lparr>jw_os = os @ ''{'', jw_first = True\<rparr>"

definition JsonObjectWriter_put :: "'d Fp \<Rightarrow> 'd JsonField \<Rightarrow> JsonObjectWriter \<Rightarrow> JsonObjectWriter" where
  "JsonObjectWriter_put fp field w =
     \<lparr>jw_os = (if \<not> jw_first w then jw_os w @ '','' else jw_os w) @ field_text fp field, jw_first = False\<rparr>"

definition JsonObjectWriter_destroy :: "JsonObjectWriter \<Rightarrow> string" where
  "JsonObjectWriter_destroy w = jw_os w @ ''}''"

text \<open>The fields of a line; \<open>elapsed\<close> is in whole seconds.\<close>

definition snapshot_fields :: "'d Fp \<Rightarrow> 'd SnapshotRecord \<Rightarrow> 'd SnapshotRecord option \<Rightarrow> 'd JsonField list" where
  "snapshot_fields fp rec previous =
     (let elapsed = (case previous of None \<Rightarrow> 1
                     | Some p \<Rightarrow> truncate_div (sr_capturedAtSteady rec - sr_capturedAtSteady p) 1000000000);
          rate = (\<lambda>field. case previous of None \<Rightarrow> fp_zero fp
                          | Some p \<Rightarrow> ComputeRate fp (field rec) (field p) (elapsed * 1000000000))
      in [JsonTimestamp ''ts'' (sr_capturedAt rec),
          JsonCounter ''accept_total'' (sr_acceptTotal rec), JsonNumber ''accept_per_sec'' (rate sr_acceptTotal),
          JsonCounter ''disconnect_total'' (sr_disconnectTotal rec), JsonNumber ''disconnect_per_sec'' (rate sr_disconnectTotal),
          JsonCounter ''recv_packets_total'' (sr_recvPacketsTotal rec), JsonNumber ''recv_packets_per_sec'' (rate sr_recvPacketsTotal),
          JsonCounter ''send_packets_total'' (sr_sendPacketsTotal rec), JsonNumber ''send_packets_per_sec'' (rate sr_sendPacketsTotal),
          JsonCounter ''recv_bytes_total'' (sr_recvBytesTotal rec), JsonNumber ''recv_bytes_per_sec'' (rate sr_recvBytesTotal),
          JsonCounter ''send_bytes_total'' (sr_sendBytesTotal rec), JsonNumber ''send_bytes_per_sec'' (rate sr_sendBytesTotal),
          JsonCounter ''send_fail_total'' (sr_sendFailTotal rec),
          JsonCounter ''packet_validation_total'' (sr_packetValidationTotal rec),
          JsonCounter ''packet_validation_failure_total'' (sr_packetValidationFailureTotal rec),
          JsonGauge ''connected_clients'' (sr_connectedClients rec),
          JsonGauge ''pending_accept_count'' (sr_pendingAcceptCount rec),
          JsonGauge ''pending_recv_count'' (sr_pendingRecvCount rec),
          JsonGauge ''pending_send_count'' (sr_pendingSendCount rec),
          JsonGauge ''dispatcher_queue_length'' (sr_dispatcherQueueLength rec),
          JsonGauge ''runnable_worker_thread_count'' (sr_runnableWorkerThreadCount rec),
          JsonNumber ''queue_wait_ms_avg'' (sr_queueWaitMsAvg rec),
          JsonNumber ''queue_wait_ms_max'' (sr_queueWaitMsMax rec),
          JsonNumber ''dispatch_process_ms_avg'' (sr_dispatchProcessMsAvg rec),
          JsonNumber ''dispatch_process_ms_max'' (sr_dispatchProcessMsMax rec),
          JsonNumber ''tick_duration_ms_avg'' (sr_tickDurationMsAvg rec),
          JsonNumber ''tick_duration_ms_max'' (sr_tickDurationMsMax rec),
          JsonNumber ''tick_lag_ms_avg'' (sr_tickLagMsAvg rec),
          JsonNumber ''tick_lag_ms_max'' (sr_tickLagMsMax rec),
          JsonNumber ''process_cpu_percent'' (sr_processCpuPercent rec),
          JsonNumber ''logic_thread_cpu_percent'' (sr_logicThreadCpuPercent rec),
          JsonUint ''thread_count'' (sr_threadCount rec)])"

text \<open>The text is copied out of the stream before the writer, a local variable, is
  destroyed.\<close>

definition BuildSnapshotJson :: "'d Fp \<Rightarrow> 'd SnapshotRecord \<Rightarrow> 'd SnapshotRecord option \<Rightarrow> string" where
  "BuildSnapshotJson fp rec previous =
     jw_os (fold (JsonObjectWriter_put fp) (snapshot_fields fp rec previous) (JsonObjectWriter_new []))"

section \<open>The writer\<close>

text \<open>\<open>sw_files\<close> maps a path to the text of the file; \<open>sw_worker\<close> says that the
  thread object is joinable.\<close>

record ('d, 'm) ServerMetricsWriter =
  sw_metrics :: 'm
  sw_config :: ServerMetricsConfig
  sw_manifest :: RunManifest
  sw_sampler :: RuntimeSampler
  sw_summary :: "'d SummaryAccumulator"
  sw_previousRecord :: "'d SnapshotRecord"
  sw_outputDirectory :: string
  sw_manifestPath :: string
  sw_snapshotPath :: string
  sw_summaryPath :: string
  sw_worker :: bool
  sw_running :: bool
  sw_lastError :: string
  sw_files :: "string \<Rightarrow> string"

definition ServerMetricsWriter_new ::
  "'d Fp \<Rightarrow> 'm \<Rightarrow> ServerMetricsConfig \<Rightarrow> RunManifest \<Rightarrow> (string \<Rightarrow> string) \<Rightarrow> ('d, 'm) ServerMetricsWriter" where
  "ServerMetricsWriter_new fp metrics config manifest files =
     \<lparr>sw_metrics = metrics, sw_config = config, sw_manifest = manifest,
      sw_sampler = \<lparr>rs_logicThreadId = 0, rs_lastSampleAt = 0, rs_lastProcessKernel100ns = 0, rs_lastProcessUser100ns = 0,
        rs_lastLogicThreadKernel100ns = 0, rs_lastLogicThreadUser100ns = 0, rs_lastLogicThreadIdSampled = 0,
        rs_hasBaseline = False\<rparr>,
      sw_summary = Summary_Reset fp, sw_previousRecord = SnapshotRecord_zero fp, sw_outputDirectory = [],
      sw_manifestPath = [], sw_snapshotPath = [], sw_summaryPath = [], sw_worker = False, sw_running = False,
      sw_lastError = [], sw_files = files\<rparr>"

text \<open>Opening and writing a file: whether each succeeds.\<close>

record FileEnv =
  fe_open :: bool
  fe_good :: bool

record CaptureEnv =
  ca_now :: ticks
  ca_steady :: int
  ca_sample :: SampleEnv
  ca_file :: FileEnv

type_synonym 'm snapshot_fn = "ticks \<Rightarrow> 'm \<Rightarrow> ServerMetricsSnapshot \<times> 'm"

definition Writer_SetLogicThreadId :: "uint32 \<Rightarrow> ('d, 'm) ServerMetricsWriter \<Rightarrow> ('d, 'm) ServerMetricsWriter" where
  "Writer_SetLogicThreadId threadId w = w\<lparr>sw_sampler := SetLogicThreadId threadId (sw_sampler w)\<rparr>"

definition InitializeArtifacts ::
  "string option \<Rightarrow> ('d, 'm) ServerMetricsWriter \<Rightarrow> bool \<times> ('d, 'm) ServerMetricsWriter" where
  "InitializeArtifacts createError w =
     (let dir = OutputDirectory (sw_manifest w);
          w1 = w\<lparr>sw_outputDirectory := dir, sw_manifestPath := path_div dir ''manifest.json'',
                 sw_snapshotPath := path_div dir ''server-metrics.jsonl'', sw_summaryPath := path_div dir ''summary.md''\<rparr>
      in case createError of
           Some msg \<Rightarrow> (False, w1\<lparr>sw_lastError := ''failed to create metrics output directory: '' @ msg\<rparr>)
         | None \<Rightarrow> (True, w1))"

definition write_file :: "string \<Rightarrow> string \<Rightarrow> ('d, 'm) ServerMetricsWriter \<Rightarrow> ('d, 'm) ServerMetricsWriter" where
  "write_file path content w = w\<lparr>sw_files := (sw_files w)(path := content)\<rparr>"

definition WriteManifest :: "FileEnv \<Rightarrow> ('d, 'm) ServerMetricsWriter \<Rightarrow> bool \<times> ('d, 'm) ServerMetricsWriter" where
  "WriteManifest fe w =
     (if \<not> fe_open fe then (False, w\<lparr>sw_lastError := ''failed to open manifest file''\<rparr>)
      else if \<not> fe_good fe then (False, w\<lparr>sw_lastError := ''failed to write manifest file''\<rparr>)
      else (True, write_file (sw_manifestPath w) (ToJson (sw_manifest w)) w))"

definition CaptureAndWriteSnapshot ::
  "'d Fp \<Rightarrow> 'm snapshot_fn \<Rightarrow> CaptureEnv \<Rightarrow> ('d, 'm) ServerMetricsWriter \<Rightarrow> bool \<times> ('d, 'm) ServerMetricsWriter" where
  "CaptureAndWriteSnapshot fp takeSnapshot env w =
     (case takeSnapshot (ca_now env) (sw_metrics w) of (snapshot, m) \<Rightarrow>
      case Sample fp (ca_sample env) (sw_sampler w) of (runtime, sampler) \<Rightarrow>
      let rec = make_record fp (ca_steady env) snapshot runtime;
          w1 = w\<lparr>sw_metrics := m, sw_sampler := sampler\<rparr>
      in if \<not> fe_open (ca_file env) then (False, w1\<lparr>sw_lastError := ''failed to open metrics snapshot file''\<rparr>)
         else if \<not> fe_good (ca_file env) then (False, w1\<lparr>sw_lastError := ''failed to write metrics snapshot''\<rparr>)
         else (True, (write_file (sw_snapshotPath w1)
                 (sw_files w1 (sw_snapshotPath w1) @ BuildSnapshotJson fp rec (Some (sw_previousRecord w1)) @ [CHR 0x0A]) w1)
               \<lparr>sw_summary := Observe fp rec (Some (sw_previousRecord w1)) (sw_summary w1), sw_previousRecord := rec\<rparr>))"

text \<open>The answers to \<open>Start\<close>: the clock, the process id, the result of creating the
  directory, the two files, and of creating the thread (an error text, empty for an
  unknown exception).\<close>

record WriterStartEnv =
  ws_now :: ticks
  ws_processId :: nat
  ws_createError :: "string option"
  ws_manifest :: FileEnv
  ws_capture :: CaptureEnv
  ws_threadError :: "string option option"

definition Writer_Start ::
  "'d Fp \<Rightarrow> 'm snapshot_fn \<Rightarrow> WriterStartEnv \<Rightarrow> ('d, 'm) ServerMetricsWriter \<Rightarrow> bool \<times> ('d, 'm) ServerMetricsWriter" where
  "Writer_Start fp takeSnapshot env w0 =
     (let w = w0\<lparr>sw_lastError := []\<rparr> in
      if sw_running w then (True, w)
      else
        let cfg = sw_config w;
            w1 = w\<lparr>sw_summary := Summary_Reset fp, sw_sampler := Sampler_Reset (sw_sampler w),
                   sw_manifest := (sw_manifest w)\<lparr>man_startedAt := None, man_finishedAt := None\<rparr>,
                   sw_outputDirectory := [], sw_manifestPath := [], sw_snapshotPath := [], sw_summaryPath := []\<rparr>;
            runId = ResolveRunId (ws_now env) (ws_processId env) cfg
        in if \<not> mcfg_enabled cfg then
             (True, w1\<lparr>sw_outputDirectory := ResolveOutputDirectory (ws_now env) (ws_processId env) cfg,
                       sw_manifest := (sw_manifest w1)\<lparr>man_outputRoot := mcfg_outputRoot cfg, man_runId := runId\<rparr>\<rparr>)
           else
             let m = (sw_manifest w1)\<lparr>man_outputRoot := mcfg_outputRoot cfg, man_runId := runId\<rparr>;
                 m1 = (if man_serverName m = [] then m\<lparr>man_serverName := ''server''\<rparr> else m);
                 w2 = w1\<lparr>sw_manifest := m1\<lparr>man_startedAt := Some (ws_now env)\<rparr>\<rparr>
             in case InitializeArtifacts (ws_createError env) w2 of
                  (False, w3) \<Rightarrow> (False, w3)
                | (True, w3) \<Rightarrow>
                  (case WriteManifest (ws_manifest env) w3 of
                     (False, w4) \<Rightarrow> (False, w4)
                   | (True, w4) \<Rightarrow>
                     (case CaptureAndWriteSnapshot fp takeSnapshot (ws_capture env) w4 of
                        (False, w5) \<Rightarrow> (False, w5)
                      | (True, w5) \<Rightarrow>
                        (case ws_threadError env of
                           None \<Rightarrow> (True, w5\<lparr>sw_running := True, sw_worker := True\<rparr>)
                         | Some (Some what) \<Rightarrow>
                             (False, w5\<lparr>sw_running := False, sw_lastError := ''failed to start metrics writer thread: '' @ what\<rparr>)
                         | Some None \<Rightarrow>
                             (False, w5\<lparr>sw_running := False, sw_lastError := ''failed to start metrics writer thread''\<rparr>)))))"

text \<open>One round of the worker: whether a stop has been requested at the top of the
  loop and after the sleep, and whether \<open>_running\<close> is still set then (\<open>Stop\<close> clears
  it).\<close>

record WriterRound =
  wrd_stop :: bool
  wrd_running :: bool
  wrd_stopAfterSleep :: bool
  wrd_runningAfterSleep :: bool
  wrd_capture :: CaptureEnv

text \<open>The loop for any capture function; the client's writer has the same loop.\<close>

type_synonym 'w capture_fn = "CaptureEnv \<Rightarrow> 'w \<Rightarrow> bool \<times> 'w"

partial_function (option) thread_loop ::
  "'w capture_fn \<Rightarrow> (nat \<Rightarrow> WriterRound) \<Rightarrow> nat \<Rightarrow> 'w \<Rightarrow> 'w option" where
  "thread_loop capture rounds k w =
     (if wrd_stop (rounds k) \<or> \<not> wrd_running (rounds k) then Some w
      else if wrd_stopAfterSleep (rounds k) \<or> \<not> wrd_runningAfterSleep (rounds k) then Some w
      else case capture (wrd_capture (rounds k)) w of
             (ok, w') \<Rightarrow> if \<not> ok then Some w' else thread_loop capture rounds (Suc k) w')"

definition ThreadMain ::
  "'d Fp \<Rightarrow> 'm snapshot_fn \<Rightarrow> (nat \<Rightarrow> WriterRound) \<Rightarrow> ('d, 'm) ServerMetricsWriter \<Rightarrow> ('d, 'm) ServerMetricsWriter option" where
  "ThreadMain fp takeSnapshot rounds w = map_option (\<lambda>w'. w'\<lparr>sw_running := False\<rparr>) (thread_loop (CaptureAndWriteSnapshot fp takeSnapshot) rounds 0 w)"

text \<open>\<open>Stop\<close> joins the worker, so it is applied to the writer the worker leaves behind;
  \<open>None\<close> when the worker never returns.\<close>

record WriterStopEnv =
  wz_now :: ticks
  wz_capture :: CaptureEnv
  wz_manifest :: FileEnv
  wz_summaryOpen :: bool

definition finish_run :: "'d Fp \<Rightarrow> 'm snapshot_fn \<Rightarrow> WriterStopEnv \<Rightarrow> ('d, 'm) ServerMetricsWriter \<Rightarrow> ('d, 'm) ServerMetricsWriter" where
  "finish_run fp takeSnapshot env w =
     (let w1 = (if man_finishedAt (sw_manifest w) = None
                then w\<lparr>sw_manifest := (sw_manifest w)\<lparr>man_finishedAt := Some (wz_now env)\<rparr>\<rparr> else w);
          w2 = snd (CaptureAndWriteSnapshot fp takeSnapshot (wz_capture env) w1);
          w3 = snd (WriteManifest (wz_manifest env) w2)
      in if wz_summaryOpen env
         then write_file (sw_summaryPath w3) (BuildMarkdown fp (sw_manifest w3) (sw_outputDirectory w3) (sw_summary w3)) w3
         else w3)"

definition Writer_Stop ::
  "'d Fp \<Rightarrow> 'm snapshot_fn \<Rightarrow> (nat \<Rightarrow> WriterRound) \<Rightarrow> WriterStopEnv \<Rightarrow> ('d, 'm) ServerMetricsWriter
    \<Rightarrow> ('d, 'm) ServerMetricsWriter option" where
  "Writer_Stop fp takeSnapshot rounds env w =
     (if \<not> sw_running w \<and> \<not> sw_worker w then Some w
      else case (if sw_worker w then ThreadMain fp takeSnapshot rounds w else Some w) of
             None \<Rightarrow> None
           | Some w1 \<Rightarrow>
               let w2 = w1\<lparr>sw_running := False, sw_worker := False\<rparr>
               in Some (if mcfg_enabled (sw_config w2) then finish_run fp takeSnapshot env w2 else w2))"

definition Writer_destroy ::
  "'d Fp \<Rightarrow> 'm snapshot_fn \<Rightarrow> (nat \<Rightarrow> WriterRound) \<Rightarrow> WriterStopEnv \<Rightarrow> ('d, 'm) ServerMetricsWriter
    \<Rightarrow> ('d, 'm) ServerMetricsWriter option" where
  "Writer_destroy fp takeSnapshot rounds env w = Writer_Stop fp takeSnapshot rounds env w"

definition Writer_IsRunning :: "('d, 'm) ServerMetricsWriter \<Rightarrow> bool" where
  "Writer_IsRunning w = sw_running w"

definition Writer_OutputDirectory :: "('d, 'm) ServerMetricsWriter \<Rightarrow> string" where
  "Writer_OutputDirectory w = sw_outputDirectory w"

definition Writer_LastError :: "('d, 'm) ServerMetricsWriter \<Rightarrow> string" where
  "Writer_LastError w = sw_lastError w"

section \<open>The worker stops\<close>

lemma CaptureAndWriteSnapshot_config:
  "sw_config (snd (CaptureAndWriteSnapshot fp takeSnapshot env w)) = sw_config w"
  "sw_worker (snd (CaptureAndWriteSnapshot fp takeSnapshot env w)) = sw_worker w"
  "sw_running (snd (CaptureAndWriteSnapshot fp takeSnapshot env w)) = sw_running w"
  by (simp_all add: CaptureAndWriteSnapshot_def write_file_def Let_def split: prod.splits)

text \<open>The successful captures of the worker's first rounds.\<close>

fun capture_rounds :: "'w capture_fn \<Rightarrow> (nat \<Rightarrow> WriterRound) \<Rightarrow> nat \<Rightarrow> nat \<Rightarrow> 'w \<Rightarrow> 'w" where
  "capture_rounds capture rounds k 0 w = w"
| "capture_rounds capture rounds k (Suc n) w =
     capture_rounds capture rounds (Suc k) n (snd (capture (wrd_capture (rounds k)) w))"

lemma capture_rounds_keeps:
  assumes "\<And>env w. f (snd (capture env w)) = f w"
  shows "f (capture_rounds capture rounds k n w) = f w"
  by (induction n arbitrary: k w) (simp_all add: assms)

lemma thread_loop_returns:
  "wrd_stop (rounds (k + n)) \<Longrightarrow> \<exists>m \<le> n. thread_loop capture rounds k w = Some (capture_rounds capture rounds k m w)"
proof (induction n arbitrary: k w)
  case 0
  then show ?case by (auto simp: thread_loop.simps)
next
  case (Suc n)
  obtain ok w' where c: "capture (wrd_capture (rounds k)) w = (ok, w')" by fastforce
  obtain m where m: "m \<le> n" "thread_loop capture rounds (Suc k) w' = Some (capture_rounds capture rounds (Suc k) m w')"
    using Suc.IH [of "Suc k" w'] Suc.prems by auto
  let ?leave = "wrd_stop (rounds k) \<or> \<not> wrd_running (rounds k) \<or> wrd_stopAfterSleep (rounds k) \<or> \<not> wrd_runningAfterSleep (rounds k)"
  have step: "thread_loop capture rounds k w =
      (if ?leave then Some w else if \<not> ok then Some w' else thread_loop capture rounds (Suc k) w')"
    by (simp add: thread_loop.simps [of capture rounds k w] c)
  have captured: "capture_rounds capture rounds k 0 w = w" "capture_rounds capture rounds k 1 w = w'"
    "capture_rounds capture rounds k (Suc m) w = capture_rounds capture rounds (Suc k) m w'"
    using c by simp_all
  consider "thread_loop capture rounds k w = Some w" | "thread_loop capture rounds k w = Some w'"
    | "thread_loop capture rounds k w = Some (capture_rounds capture rounds (Suc k) m w')"
    using step m(2) by (cases ?leave; cases ok; simp)
  then show ?case
  proof cases
    case 1
    then show ?thesis using captured(1) by (intro exI [of _ 0]) simp
  next
    case 2
    then show ?thesis using captured(2) by (intro exI [of _ 1]) simp
  next
    case 3
    then show ?thesis using captured(3) m(1) by (intro exI [of _ "Suc m"]) simp
  qed
qed

lemma Writer_Stop_joined:
  assumes "wrd_stop (rounds n)" and "sw_worker w"
  shows "\<exists>m \<le> n. ThreadMain fp takeSnapshot rounds w
        = Some ((capture_rounds (CaptureAndWriteSnapshot fp takeSnapshot) rounds 0 m w)\<lparr>sw_running := False\<rparr>)
    \<and> (\<exists>w'. Writer_Stop fp takeSnapshot rounds env w = Some w' \<and> \<not> sw_running w' \<and> \<not> sw_worker w'
        \<and> (mcfg_enabled (sw_config w) \<longrightarrow> man_finishedAt (sw_manifest w') \<noteq> None))"
proof -
  obtain m where m: "m \<le> n" "thread_loop (CaptureAndWriteSnapshot fp takeSnapshot) rounds 0 w = Some (capture_rounds (CaptureAndWriteSnapshot fp takeSnapshot) rounds 0 m w)"
    using thread_loop_returns [of rounds 0 n "CaptureAndWriteSnapshot fp takeSnapshot" w] assms(1) by auto
  have man: "sw_manifest (snd (CaptureAndWriteSnapshot fp takeSnapshot e v)) = sw_manifest v"
    "sw_manifest (snd (WriteManifest f v)) = sw_manifest v" "sw_running (snd (WriteManifest f v)) = sw_running v"
    "sw_worker (snd (WriteManifest f v)) = sw_worker v" for e f v
    by (simp_all add: CaptureAndWriteSnapshot_def WriteManifest_def write_file_def Let_def split: prod.splits)
  have fin: "sw_running (finish_run fp takeSnapshot env v) = sw_running v"
    "sw_worker (finish_run fp takeSnapshot env v) = sw_worker v"
    "man_finishedAt (sw_manifest (finish_run fp takeSnapshot env v)) \<noteq> None" for v
    by (auto simp: finish_run_def Let_def write_file_def man CaptureAndWriteSnapshot_config)
  let ?w1 = "(capture_rounds (CaptureAndWriteSnapshot fp takeSnapshot) rounds 0 m w)\<lparr>sw_running := False\<rparr>"
  have t: "ThreadMain fp takeSnapshot rounds w = Some ?w1" using m(2) by (simp add: ThreadMain_def)
  then have "Writer_Stop fp takeSnapshot rounds env w
      = Some (if mcfg_enabled (sw_config w) then finish_run fp takeSnapshot env (?w1\<lparr>sw_worker := False\<rparr>)
              else ?w1\<lparr>sw_worker := False\<rparr>)"
    using assms(2) by (simp add: Writer_Stop_def Let_def capture_rounds_keeps [of sw_config, OF CaptureAndWriteSnapshot_config(1)])
  then show ?thesis using m(1) t fin by (intro exI [of _ m]) auto
qed

lemma Writer_Stop_outcome:
  assumes "wrd_stop (rounds n)" and "sw_running w \<longrightarrow> sw_worker w"
  shows "\<exists>w'. Writer_Stop fp takeSnapshot rounds env w = Some w' \<and> \<not> sw_running w' \<and> \<not> sw_worker w'
    \<and> (mcfg_enabled (sw_config w) \<and> sw_worker w \<longrightarrow> man_finishedAt (sw_manifest w') \<noteq> None)"
  using assms Writer_Stop_joined [where rounds = rounds and n = n and w = w and fp = fp and takeSnapshot = takeSnapshot and env = env]
  by (cases "sw_worker w") (auto simp: Writer_Stop_def)

text \<open>The metrics writer can be stopped.  Once a stop is requested the worker
  returns after at most the rounds before it, each of which wrote one snapshot; so
  \<open>Stop\<close> returns, and leaves the writer stopped and joined, with the manifest marked
  as finished when metrics are enabled.\<close>

theorem Writer_Stop_returns:
  assumes "wrd_stop (rounds n)" and "sw_worker w"
  shows "\<exists>m \<le> n. ThreadMain fp takeSnapshot rounds w
        = Some ((capture_rounds (CaptureAndWriteSnapshot fp takeSnapshot) rounds 0 m w)\<lparr>sw_running := False\<rparr>)
    \<and> (\<exists>w'. Writer_Stop fp takeSnapshot rounds env w = Some w' \<and> \<not> sw_running w' \<and> \<not> sw_worker w'
        \<and> (mcfg_enabled (sw_config w) \<longrightarrow> man_finishedAt (sw_manifest w') \<noteq> None))"
  using assms by (rule Writer_Stop_joined)

section \<open>Snapshot lines are not JSON\<close>

text \<open>\<open>std::fixed\<close> with precision 3 prints a sign, digits, a point and digits (for
  finite numbers).\<close>

definition prints_fixed :: "'d Fp \<Rightarrow> bool" where
  "prints_fixed fp \<longleftrightarrow> (\<forall>d. \<exists>a b. fp_fixed fp 3 d = a @ CHR ''.'' # b \<and> a \<noteq> [] \<and> CHR ''.'' \<notin> set a
     \<and> list_all number_char a \<and> list_all IsDigit b)"

lemma dropWhile_stops: "list_all P b \<Longrightarrow> \<exists>c. dropWhile Q (b @ x # r) = c @ x # r \<and> list_all P c" if "\<not> Q x"
proof (induction b)
  case Nil
  then show ?case using that by (intro exI [of _ "[]"]) simp
next
  case (Cons y b)
  then show ?case by (cases "Q y") (auto intro: exI [of _ "y # b"])
qed

lemma FormatNumber_wf:
  assumes "prints_fixed fp"
  shows "wf_scalar (JNumber (FormatNumber fp d))"
proof -
  obtain a b where s: "fp_fixed fp 3 d = a @ CHR ''.'' # b" "a \<noteq> []" "CHR ''.'' \<notin> set a"
      "list_all number_char a" "list_all IsDigit b"
    using assms unfolding prints_fixed_def by blast
  obtain c where c: "dropWhile (\<lambda>c. c = CHR ''0'') (rev b @ CHR ''.'' # rev a) = c @ CHR ''.'' # rev a" "list_all IsDigit c"
    using dropWhile_stops [of "\<lambda>c. c = CHR ''0''" "CHR ''.''" IsDigit "rev b" "rev a"] s(5) by auto
  have strip: "strip_zeros (fp_fixed fp 3 d) = a @ CHR ''.'' # rev c"
    using c(1) by (simp add: strip_zeros_def s(1))
  have nc: "number_char x" if "IsDigit x" for x using that by (simp add: number_char_def)
  show ?thesis
  proof (cases c)
    case Nil
    then have "FormatNumber fp d = (if a = ''-0'' then ''0'' else a)"
      by (simp add: FormatNumber_def Let_def strip) (simp add: s(1))
    then show ?thesis using s(2,4) by (auto simp: number_char_def IsDigit_def)
  next
    case (Cons x r)
    have "IsDigit x" using c(2) Cons by simp
    then have "x \<noteq> CHR ''.''" by (auto simp: IsDigit_def)
    moreover have "a @ CHR ''.'' # rev c \<noteq> ''-0''"
    proof
      assume e: "a @ CHR ''.'' # rev c = ''-0''"
      have "CHR ''.'' \<in> set (a @ CHR ''.'' # rev c)" by simp
      then show False unfolding e by simp
    qed
    ultimately have "FormatNumber fp d = a @ CHR ''.'' # rev c"
      using Cons by (simp add: FormatNumber_def Let_def strip) (simp add: s(1))
    then show ?thesis using s(4) c(2) nc by (auto simp: list_all_iff number_char_def)
  qed
qed

fun field_member :: "'d Fp \<Rightarrow> 'd JsonField \<Rightarrow> string \<times> json_scalar" where
  "field_member fp (JsonTimestamp name v) = (name, JString (FormatUtcTime v))"
| "field_member fp (JsonCounter name v) = (name, JNumber (render_nat (unat v)))"
| "field_member fp (JsonGauge name v) = (name, JNumber (render_int (sint v)))"
| "field_member fp (JsonNumber name v) = (name, JNumber (FormatNumber fp v))"
| "field_member fp (JsonUint name v) = (name, JNumber (render_nat (unat v)))"

lemma field_text_member:
  "field_text fp f = quoted (fst (field_member fp f)) @ '':'' @ json_text (snd (field_member fp f))"
  by (cases f) simp_all

text \<open>What the object writer has put into the stream.\<close>

lemma JsonObjectWriter_puts:
  "fs \<noteq> [] \<Longrightarrow> jw_os (fold (JsonObjectWriter_put fp) fs \<lparr>jw_os = os, jw_first = False\<rparr>)
    = os @ '','' @ members_text [] [] (map (field_member fp) fs)"
proof (induction fs arbitrary: os)
  case (Cons f fs)
  show ?case
  proof (cases "fs = []")
    case True
    then show ?thesis
      by (cases "field_member fp f") (simp add: JsonObjectWriter_put_def field_text_member)
  next
    case False
    then show ?thesis
      using Cons.IH [of "os @ '','' @ field_text fp f"]
      by (simp add: JsonObjectWriter_put_def field_text_member members_text_Cons)
  qed
qed simp

lemma JsonObjectWriter_text:
  assumes "fs \<noteq> []"
  shows "jw_os (fold (JsonObjectWriter_put fp) fs (JsonObjectWriter_new []))
    = CHR ''{'' # members_text [] [] (map (field_member fp) fs)"
proof -
  obtain f gs where fs: "fs = f # gs" using assms by (cases fs) auto
  show ?thesis
  proof (cases "gs = []")
    case True
    then show ?thesis
      by (cases "field_member fp f")
         (simp add: fs JsonObjectWriter_put_def JsonObjectWriter_new_def field_text_member)
  next
    case False
    then show ?thesis
      using JsonObjectWriter_puts [OF False, of fp "''{'' @ field_text fp f"]
      by (simp add: fs JsonObjectWriter_put_def JsonObjectWriter_new_def field_text_member members_text_Cons)
  qed
qed

lemma snapshot_fields_wf:
  assumes "prints_fixed fp"
  shows "wf_fields (map (field_member fp) (snapshot_fields fp rec previous))" "snapshot_fields fp rec previous \<noteq> []"
proof -
  have n: "wf_scalar (JNumber (FormatNumber fp d))" for d by (rule FormatNumber_wf [OF assms])
  show "wf_fields (map (field_member fp) (snapshot_fields fp rec previous))"
    by (simp add: snapshot_fields_def Let_def n plain_key_def JsonEscape_def json_escape_char_def del: wf_scalar.simps(2))
  show "snapshot_fields fp rec previous \<noteq> []" by (simp add: snapshot_fields_def Let_def)
qed

text \<open>The lines of the snapshot file are not JSON objects.  \<open>BuildSnapshotJson\<close>
  returns the text of the stream before the local \<open>JsonObjectWriter\<close> is destroyed, and
  only its destructor writes the closing brace: no line of the file can be read.
  The text with the brace, which the destructor still appends to the discarded
  stream, reads back as the fields of the record.\<close>

theorem snapshot_line_unterminated:
  assumes "prints_fixed fp"
  shows "json_object (BuildSnapshotJson fp rec previous) = None
    \<and> json_object (JsonObjectWriter_destroy
          (fold (JsonObjectWriter_put fp) (snapshot_fields fp rec previous) (JsonObjectWriter_new [])))
        = Some (map (field_member fp) (snapshot_fields fp rec previous))"
proof -
  note wf = snapshot_fields_wf [OF assms, of rec previous]
  have ws: "all_ws []" by (simp add: all_ws_def)
  have ne: "map (field_member fp) (snapshot_fields fp rec previous) \<noteq> []" using wf(2) by simp
  show ?thesis
    unfolding BuildSnapshotJson_def JsonObjectWriter_destroy_def JsonObjectWriter_text [OF wf(2)]
    using json_object_open [OF ws ws wf(1) ne] json_object_read [OF ws ws ws ws wf(1) ne] by simp
qed

text \<open>Numbers that all print as 1.500.\<close>

definition demo_fp :: "unit Fp" where
  "demo_fp = \<lparr>fp_of_uint64 = (\<lambda>_. ()), fp_of_int = (\<lambda>_. ()), fp_literal = (\<lambda>_. ()), fp_add = (\<lambda>_ _. ()),
     fp_mul = (\<lambda>_ _. ()), fp_div = (\<lambda>_ _. ()), fp_less = (\<lambda>_ _. False), fp_le = (\<lambda>_ _. False),
     fp_fixed = (\<lambda>_ _. ''1.500'')\<rparr>"

lemma demo_fp_prints: "prints_fixed demo_fp"
  unfolding prints_fixed_def
  by (intro allI exI [of _ "''1''"] exI [of _ "''500''"]) (simp add: demo_fp_def number_char_def IsDigit_def)

lemma snapshot_line_unterminated_witness:
  "json_object (BuildSnapshotJson demo_fp (SnapshotRecord_zero demo_fp) None) = None"
  using snapshot_line_unterminated [OF demo_fp_prints] by blast

definition demo_capture :: CaptureEnv where
  "demo_capture = \<lparr>ca_now = 0, ca_steady = 0,
     ca_sample = \<lparr>en_now = 0, en_processTimes = None, en_threadTimes = (\<lambda>_. None), en_processorCount = 1, en_threadCount = 1\<rparr>,
     ca_file = \<lparr>fe_open = True, fe_good = True\<rparr>\<rparr>"

definition demo_rounds :: "nat \<Rightarrow> WriterRound" where
  "demo_rounds k = \<lparr>wrd_stop = (k = 2), wrd_running = True, wrd_stopAfterSleep = False, wrd_runningAfterSleep = True,
     wrd_capture = demo_capture\<rparr>"

definition demo_manifest :: RunManifest where
  "demo_manifest =
     \<lparr>man_runId = ''r'', man_scenarioName = [], man_serverName = [], man_gitCommit = [], man_gitBranch = [],
      man_buildType = [], man_machineInfo = [], man_targetHost = [], man_outputRoot = ''out'', man_startedAt = Some 1,
      man_finishedAt = None, man_targetPort = 0, man_plannedClients = 0, man_messageSizeBytes = 0,
      man_sendIntervalMs = 0, man_durationSec = 0\<rparr>"

definition demo_writer :: "(unit, AtomicServerMetrics) ServerMetricsWriter" where
  "demo_writer = (ServerMetricsWriter_new demo_fp AtomicServerMetrics_new ServerMetricsConfig_default demo_manifest (\<lambda>_. []))
     \<lparr>sw_worker := True, sw_running := True\<rparr>"

lemma Writer_Stop_returns_witness:
  "\<exists>w'. Writer_Stop demo_fp TakeSnapshot demo_rounds
      \<lparr>wz_now = 9, wz_capture = demo_capture, wz_manifest = \<lparr>fe_open = True, fe_good = True\<rparr>, wz_summaryOpen = False\<rparr>
      demo_writer = Some w'
    \<and> \<not> sw_running w' \<and> man_finishedAt (sw_manifest w') \<noteq> None"
  using Writer_Stop_returns [where rounds = demo_rounds and n = 2 and w = demo_writer and fp = demo_fp
      and takeSnapshot = TakeSnapshot and env = "\<lparr>wz_now = 9, wz_capture = demo_capture,
        wz_manifest = \<lparr>fe_open = True, fe_good = True\<rparr>, wz_summaryOpen = False\<rparr>"]
  by (auto simp: demo_rounds_def demo_writer_def ServerMetricsWriter_new_def ServerMetricsConfig_default_def)

end
