(* ===== verification/Sockets.thy ===== *)
theory Sockets
  imports ClientSocket Toml "HOL-Library.State_Monad"
begin

text \<open>
  The listening socket: \<open>NetworkTransport\<close>, \<open>SocketOptionBuilder\<close>,
  \<open>AsyncSocket\<close>, \<open>WindowsAsyncSocket\<close> and \<open>SocketHelper::MakeDefaultListener\<close>
  (network/inc/socket, network/src/socket, network/inc/transport).

  The operations are sequences of Winsock calls, so they are written in the
  state monad over the list of calls made so far.  What the k-th call returns
  is given by \<open>SockSys\<close>.
\<close>

datatype ETransport = TCP | UDP

datatype SocketType = SOCK_STREAM | SOCK_DGRAM

datatype IpProto = IPPROTO_TCP | IPPROTO_UDP | IPPROTO_IP

text \<open>\<open>NetworkTransport::GetInfos\<close>.\<close>

fun GetInfos :: "ETransport \<Rightarrow> SocketType \<times> IpProto" where
  "GetInfos TCP = (SOCK_STREAM, IPPROTO_TCP)"
| "GetInfos UDP = (SOCK_DGRAM, IPPROTO_UDP)"

record TcpKeepalive =
  ka_onoff :: uint32
  ka_keepalivetime :: uint32
  ka_keepaliveinterval :: uint32

record Linger =
  l_onoff :: "16 word"
  l_linger :: "16 word"

text \<open>A socket option with its level and value.\<close>

datatype SockOption =
    SO_REUSEADDR int
  | SO_SNDBUF int
  | SO_RCVBUF int
  | SO_BROADCAST int
  | SO_UPDATE_ACCEPT_CONTEXT SocketHandle
  | TCP_NODELAY int
  | SO_KEEPALIVE int
  | SO_LINGER Linger
  | SO_SNDTIMEO uint32
  | SO_RCVTIMEO uint32
  | IP_TTL int

datatype SockCall =
    CallStartup
  | CallSocket SocketType IpProto
  | CallSetOpt SocketHandle SockOption
  | CallKeepaliveVals SocketHandle TcpKeepalive
  | CallBind SocketHandle "16 word"
  | CallListen SocketHandle int
  | CallClose SocketHandle
  | CallCleanup

record SockSys =
  sy_ret :: "nat \<Rightarrow> int"
  sy_socket :: "nat \<Rightarrow> SocketHandle"
  sy_lastError :: "nat \<Rightarrow> WsaError"

type_synonym 'a sock_io = "(SockCall list, 'a) state"

definition sys_call :: "SockSys \<Rightarrow> SockCall \<Rightarrow> int sock_io" where
  "sys_call sys c = State (\<lambda>t. (sy_ret sys (length t), t @ [c]))"

definition sys_socket :: "SockSys \<Rightarrow> SockCall \<Rightarrow> (SocketHandle \<times> WsaError) sock_io" where
  "sys_socket sys c = State (\<lambda>t. ((sy_socket sys (length t), sy_lastError sys (length t)), t @ [c]))"

section \<open>SocketOptionBuilder\<close>

text \<open>One \<open>setsockopt\<close> and the comparison with \<open>SocketError\<close>, the body that all
  setters share.\<close>

definition set_opt :: "SockSys \<Rightarrow> SocketHandle \<Rightarrow> SockOption \<Rightarrow> bool sock_io" where
  "set_opt sys sh opt = do { r \<leftarrow> sys_call sys (CallSetOpt sh opt); State_Monad.return (r \<noteq> SocketError) }"

definition SetReuseAddr :: "SockSys \<Rightarrow> SocketHandle \<Rightarrow> bool \<Rightarrow> bool sock_io" where
  "SetReuseAddr sys sh enable = set_opt sys sh (SO_REUSEADDR (if enable then 1 else 0))"

definition SetSendBufferSize :: "SockSys \<Rightarrow> SocketHandle \<Rightarrow> int \<Rightarrow> bool sock_io" where
  "SetSendBufferSize sys sh sz = set_opt sys sh (SO_SNDBUF sz)"

definition SetRecvBufferSize :: "SockSys \<Rightarrow> SocketHandle \<Rightarrow> int \<Rightarrow> bool sock_io" where
  "SetRecvBufferSize sys sh sz = set_opt sys sh (SO_RCVBUF sz)"

definition SetBroadcast :: "SockSys \<Rightarrow> SocketHandle \<Rightarrow> bool \<Rightarrow> bool sock_io" where
  "SetBroadcast sys sh enable = set_opt sys sh (SO_BROADCAST (if enable then 1 else 0))"

definition SetUpdateAcceptContext :: "SockSys \<Rightarrow> SocketHandle \<Rightarrow> SocketHandle \<Rightarrow> bool sock_io" where
  "SetUpdateAcceptContext sys acceptedSock listenSock = set_opt sys acceptedSock (SO_UPDATE_ACCEPT_CONTEXT listenSock)"

definition SetTcpNoDelay :: "SockSys \<Rightarrow> SocketHandle \<Rightarrow> bool \<Rightarrow> bool sock_io" where
  "SetTcpNoDelay sys sh enable = set_opt sys sh (TCP_NODELAY (if enable then 1 else 0))"

definition SetKeepAlive :: "SockSys \<Rightarrow> SocketHandle \<Rightarrow> TcpKeepalive \<Rightarrow> bool sock_io" where
  "SetKeepAlive sys sh config = do {
     ok \<leftarrow> set_opt sys sh (SO_KEEPALIVE (if ka_onoff config \<noteq> 0 then 1 else 0));
     if \<not> ok then State_Monad.return False
     else if ka_onoff config = 0 then State_Monad.return True
     else do {
       r \<leftarrow> sys_call sys (CallKeepaliveVals sh config);
       State_Monad.return (r \<noteq> SocketError)
     }
   }"

definition SetLinger :: "SockSys \<Rightarrow> SocketHandle \<Rightarrow> Linger \<Rightarrow> bool sock_io" where
  "SetLinger sys sh l = set_opt sys sh (SO_LINGER l)"

definition SetSendTimeout :: "SockSys \<Rightarrow> SocketHandle \<Rightarrow> uint32 \<Rightarrow> bool sock_io" where
  "SetSendTimeout sys sh timeoutMs = set_opt sys sh (SO_SNDTIMEO timeoutMs)"

definition SetRecvTimeout :: "SockSys \<Rightarrow> SocketHandle \<Rightarrow> uint32 \<Rightarrow> bool sock_io" where
  "SetRecvTimeout sys sh timeoutMs = set_opt sys sh (SO_RCVTIMEO timeoutMs)"

definition SetTtl :: "SockSys \<Rightarrow> SocketHandle \<Rightarrow> int \<Rightarrow> bool sock_io" where
  "SetTtl sys sh ttl = set_opt sys sh (IP_TTL ttl)"

definition ApplyGameServerDefaults :: "SockSys \<Rightarrow> SocketHandle \<Rightarrow> bool sock_io" where
  "ApplyGameServerDefaults sys sh = do {
     a \<leftarrow> SetReuseAddr sys sh True;
     if \<not> a then State_Monad.return False else do {
     b \<leftarrow> SetTcpNoDelay sys sh True;
     if \<not> b then State_Monad.return False else do {
     c \<leftarrow> SetKeepAlive sys sh \<lparr>ka_onoff = 1, ka_keepalivetime = 30000, ka_keepaliveinterval = 5000\<rparr>;
     if \<not> c then State_Monad.return False else
     SetLinger sys sh \<lparr>l_onoff = 1, l_linger = 5\<rparr> }}}"

section \<open>AsyncSocket and WindowsAsyncSocket\<close>

text \<open>The base class only holds the handle; its operations succeed without doing
  anything.\<close>

definition AsyncSocket_default :: "ENetworkError + unit" where
  "AsyncSocket_default = Inr ()"

record WindowsAsyncSocket =
  was_socketHandle :: SocketHandle
  was_sockaddr :: "16 word option"
  was_wsaStarted :: bool

definition was_new :: WindowsAsyncSocket where
  "was_new = \<lparr>was_socketHandle = InvalidSocket, was_sockaddr = None, was_wsaStarted = False\<rparr>"

definition GetSocketHandle :: "WindowsAsyncSocket \<Rightarrow> SocketHandle" where
  "GetSocketHandle s = was_socketHandle s"

type_synonym was_res = "((ENetworkError + unit) \<times> WindowsAsyncSocket) sock_io"

definition was_Initialize :: "SockSys \<Rightarrow> WindowsAsyncSocket \<Rightarrow> was_res" where
  "was_Initialize sys s =
     (if was_wsaStarted s then State_Monad.return (Inr (), s)
      else do {
        res \<leftarrow> sys_call sys CallStartup;
        if res \<noteq> 0 then State_Monad.return (Inl WsaStartupFailed, s)
        else State_Monad.return (Inr (), s\<lparr>was_wsaStarted := True\<rparr>)
      })"

definition was_CreateSocket :: "SockSys \<Rightarrow> ETransport \<Rightarrow> WindowsAsyncSocket \<Rightarrow> was_res" where
  "was_CreateSocket sys transport s =
     (case GetInfos transport of (socketType, protocol) \<Rightarrow> do {
        (h, err) \<leftarrow> sys_socket sys (CallSocket socketType protocol);
        State_Monad.return
          (if h = InvalidSocket then Inl (wsaStartupError err) else Inr (), s\<lparr>was_socketHandle := h\<rparr>)
      })"

definition was_Bind :: "SockSys \<Rightarrow> 16 word \<Rightarrow> WindowsAsyncSocket \<Rightarrow> was_res" where
  "was_Bind sys port s =
     (if \<not> IsValidPort port then State_Monad.return (Inr (), s)
      else do {
        res \<leftarrow> sys_call sys (CallBind (was_socketHandle s) port);
        State_Monad.return (if res \<noteq> 0 then Inl SocketBindFailed else Inr (), s\<lparr>was_sockaddr := Some port\<rparr>)
      })"

definition was_Listen :: "SockSys \<Rightarrow> int \<Rightarrow> WindowsAsyncSocket \<Rightarrow> was_res" where
  "was_Listen sys backlog s =
     (if was_socketHandle s = InvalidSocket then State_Monad.return (Inl SocketInvalid, s)
      else do {
        res \<leftarrow> sys_call sys (CallListen (was_socketHandle s) backlog);
        State_Monad.return (if res \<noteq> 0 then Inl SocketListenFailed else Inr (), s)
      })"

definition was_Cleanup :: "SockSys \<Rightarrow> WindowsAsyncSocket \<Rightarrow> was_res" where
  "was_Cleanup sys s = do {
     s1 \<leftarrow> (if was_socketHandle s \<noteq> InvalidSocket then do {
              _ \<leftarrow> sys_call sys (CallClose (was_socketHandle s));
              State_Monad.return (s\<lparr>was_socketHandle := InvalidSocket\<rparr>)
            } else State_Monad.return s);
     s2 \<leftarrow> (if was_wsaStarted s1 then do {
              _ \<leftarrow> sys_call sys CallCleanup;
              State_Monad.return (s1\<lparr>was_wsaStarted := False\<rparr>)
            } else State_Monad.return s1);
     State_Monad.return (Inr (), s2)
   }"

section \<open>SocketHelper\<close>

text \<open>Returning null destroys the socket object, which cleans up.  The option
  setters' results are ignored.  The port is narrowed to 16 bits.\<close>

definition give_up :: "SockSys \<Rightarrow> WindowsAsyncSocket \<Rightarrow> WindowsAsyncSocket option sock_io" where
  "give_up sys s = do { _ \<leftarrow> was_Cleanup sys s; State_Monad.return None }"

definition MakeDefaultListener :: "SockSys \<Rightarrow> ETransport \<Rightarrow> NetworkCfg \<Rightarrow> WindowsAsyncSocket option sock_io" where
  "MakeDefaultListener sys netTransport netCfg = do {
     (initializeRes, s1) \<leftarrow> was_Initialize sys was_new;
     if has_err initializeRes then give_up sys s1 else do {
     (createSocketRes, s2) \<leftarrow> was_CreateSocket sys netTransport s1;
     if has_err createSocketRes then give_up sys s2 else do {
     _ \<leftarrow> SetReuseAddr sys (GetSocketHandle s2) True;
     _ \<leftarrow> SetSendBufferSize sys (GetSocketHandle s2) (int sendBufferSize);
     (bindRes, s3) \<leftarrow> was_Bind sys (of_int (nc_port netCfg)) s2;
     if has_err bindRes then give_up sys s3 else do {
     (listenRes, s4) \<leftarrow> was_Listen sys (nc_backlog netCfg) s3;
     if has_err listenRes then give_up sys s4 else State_Monad.return (Some s4) }}}}"

section \<open>Properties\<close>

lemma run_bind [simp]:
  "run_state (State_Monad.bind m f) t = (case run_state m t of (a, t') \<Rightarrow> run_state (f a) t')"
  by (simp add: State_Monad.bind_def)

lemma run_basic [simp]:
  "run_state (State_Monad.return a) t = (a, t)"
  "run_state (sys_call sys c) t = (sy_ret sys (length t), t @ [c])"
  "run_state (sys_socket sys c) t = ((sy_socket sys (length t), sy_lastError sys (length t)), t @ [c])"
  "run_state (set_opt sys sh opt) t = (sy_ret sys (length t) \<noteq> SocketError, t @ [CallSetOpt sh opt])"
  by (simp_all add: State_Monad.return_def sys_call_def sys_socket_def set_opt_def State_Monad.bind_def)

text \<open>\<open>ApplyGameServerDefaults\<close> makes its five calls in order until one fails: it
  reports success exactly when none of them failed, and otherwise nothing is called
  after the first failure.\<close>

theorem ApplyGameServerDefaults_spec:
  fixes t :: "SockCall list" and h :: SocketHandle and sys :: SockSys
  defines "calls \<equiv> [CallSetOpt h (SO_REUSEADDR 1), CallSetOpt h (TCP_NODELAY 1), CallSetOpt h (SO_KEEPALIVE 1),
      CallKeepaliveVals h \<lparr>ka_onoff = 1, ka_keepalivetime = 30000, ka_keepaliveinterval = 5000\<rparr>,
      CallSetOpt h (SO_LINGER \<lparr>l_onoff = 1, l_linger = 5\<rparr>)]"
    and "failed \<equiv> filter (\<lambda>k. sy_ret sys (length t + k) = SocketError) [0, 1, 2, 3, 4]"
  shows "run_state (ApplyGameServerDefaults sys h) t =
    (failed = [], t @ (case failed of [] \<Rightarrow> calls | k # _ \<Rightarrow> take (Suc k) calls))"
  by (simp add: ApplyGameServerDefaults_def SetReuseAddr_def SetTcpNoDelay_def SetKeepAlive_def SetLinger_def
      calls_def failed_def numeral_2_eq_2 numeral_3_eq_3 numeral_eq_Suc)

lemma MakeDefaultListener_open:
  assumes "run_state (MakeDefaultListener sys tr cfg) [] = (Some s, t)"
  shows "was_socketHandle s \<noteq> InvalidSocket \<and> was_wsaStarted s"
  using assms
  by (auto simp: MakeDefaultListener_def was_Initialize_def was_new_def was_CreateSocket_def give_up_def was_Cleanup_def
      SetReuseAddr_def SetSendBufferSize_def was_Bind_def was_Listen_def split: if_splits prod.splits)

lemma was_Cleanup_open:
  assumes "was_socketHandle s \<noteq> InvalidSocket" and "was_wsaStarted s"
  shows "snd (run_state (was_Cleanup sys s) t) = t @ [CallClose (was_socketHandle s), CallCleanup]"
  using assms by (simp add: was_Cleanup_def)


definition demo_sys :: SockSys where
  "demo_sys = \<lparr>sy_ret = (\<lambda>_. 0), sy_socket = (\<lambda>_. 21), sy_lastError = (\<lambda>_. WSAEINVAL)\<rparr>"


end
