(* ===== verification/EchoPrograms.thy ===== *)
theory EchoPrograms
  imports Lifecycle ClientSocket
begin

text \<open>
  The echo server and the echo client (exec/echo).  The server is a second
  application of \<open>ServerLifeCycle\<close>: its receiver interprets the interface
  \<open>session_receiver\<close>, so the pool stays consistent under every completion.  The
  results of \<open>WSASend\<close> and \<open>WSARecv\<close> are an argument.
\<close>

section \<open>The server\<close>

record EchoEnv =
  eo_send :: "nat \<Rightarrow> int \<times> WsaError"
  eo_recv :: "nat \<Rightarrow> int \<times> WsaError"

definition Echo_OnAccept :: "addr \<Rightarrow> unit ServerLifeCycle \<Rightarrow> unit ServerLifeCycle" where
  "Echo_OnAccept client s = s"

definition Echo_OnRecv :: "EchoEnv \<Rightarrow> addr \<Rightarrow> byte list \<Rightarrow> unit ServerLifeCycle \<Rightarrow> unit ServerLifeCycle" where
  "Echo_OnRecv env client data s =
     (case eo_send env (length (sl_events s)) of (r, e) \<Rightarrow>
      case post_send r e data client s of
        (Inl _, s1) \<Rightarrow> CloseClient (Some client) s1
      | (Inr _, s1) \<Rightarrow>
          (case eo_recv env (length (sl_events s1)) of (r', e') \<Rightarrow>
           case post_recv r' e' client s1 of
             (Inl _, s2) \<Rightarrow> CloseClient (Some client) s2
           | (Inr _, s2) \<Rightarrow> s2))"

definition Echo_OnSend :: "addr \<Rightarrow> nat \<Rightarrow> unit ServerLifeCycle \<Rightarrow> unit ServerLifeCycle" where
  "Echo_OnSend client bytesTransferred s = s"

definition Echo_OnDisconnect :: "addr \<Rightarrow> unit ServerLifeCycle \<Rightarrow> unit ServerLifeCycle" where
  "Echo_OnDisconnect client s = s"

definition echo_receiver :: "EchoEnv \<Rightarrow> unit Receiver" where
  "echo_receiver env = \<lparr>rv_OnAccept = Echo_OnAccept, rv_OnRecv = Echo_OnRecv env, rv_OnSend = Echo_OnSend,
     rv_OnDisconnect = Echo_OnDisconnect\<rparr>"

text \<open>\<open>_lifecycle\<close> is a unique pointer.  A lifecycle starts with no callbacks.\<close>

record EchoServer =
  eo_config :: NetworkCfg
  eo_lifecycle :: "unit ServerLifeCycle option"

definition EchoServer_new :: "NetworkCfg \<Rightarrow> EchoServer" where
  "EchoServer_new config = \<lparr>eo_config = config, eo_lifecycle = None\<rparr>"

definition EchoServer_Start ::
  "StartEnv \<Rightarrow> HybridObjectPool \<Rightarrow> SocketHandle \<Rightarrow> EchoServer \<Rightarrow> (ENetworkError + unit) \<times> EchoServer" where
  "EchoServer_Start env pool listenSocket sv =
     (case Start env pool listenSocket (eo_config sv) (idle_server ()) of
        (res, s) \<Rightarrow> (res, sv\<lparr>eo_lifecycle := Some s\<rparr>))"

text \<open>The pool is the only owner of its clients.\<close>

definition EchoServer_Stop :: "EchoServer \<Rightarrow> EchoServer \<times> LifecycleEvent list" where
  "EchoServer_Stop sv =
     (case eo_lifecycle sv of None \<Rightarrow> (sv, [])
      | Some s \<Rightarrow> (sv\<lparr>eo_lifecycle := None\<rparr>, sl_events (Stop (\<lambda>_. True) s)))"

definition EchoServer_destroy :: "EchoServer \<Rightarrow> LifecycleEvent list" where
  "EchoServer_destroy sv = snd (EchoServer_Stop sv)"

lemma Echo_OnRecv_keeps: "keeps_pool_at (\<lambda>_ _. True) (\<lambda>i. Echo_OnRecv env i d)"
  unfolding keeps_pool_at_def
proof (intro allI impI)
  fix i and s :: "unit ServerLifeCycle"
  let ?good = "\<lambda>s'. pool_inv (\<lambda>_ _. True) s' \<and> length (sl_clientPool s') = length (sl_clientPool s)
    \<and> sl_acceptor s' = sl_acceptor s \<and> sl_callbacks s' = sl_callbacks s"
  assume s: "pool_inv (\<lambda>_ _. True) s \<and> i < length (sl_clientPool s)"
  then have i: "i < length (sl_clientPool s)" by simp
  have send: "?good (snd (post_send r e d i s))" for r e
    using s post_send_inv [of s i r e d] by (simp add: pool_inv_def)
  have recv: "?good (snd (post_recv r e i s'))" if "?good s'" for r e s'
    using that i post_recv_inv [of s' i r e] by (simp add: pool_inv_def)
  have close: "?good (CloseClient (Some i) s')" if "?good s'" for s'
    using that i close_client_inv [of s' i] by (simp add: CloseClient_def pool_inv_def)
  show "?good (Echo_OnRecv env i d s)"
    unfolding Echo_OnRecv_def
    by (auto split: prod.splits sum.splits dest!: arg_cong [of _ _ snd]) (metis send recv close snd_conv)+
qed

interpretation echo: session_receiver "echo_receiver env" "\<lambda>_ _. True" for env
  by unfold_locales
     (simp_all add: echo_receiver_def Echo_OnAccept_def [abs_def] Echo_OnSend_def [abs_def] Echo_OnDisconnect_def [abs_def]
       Echo_OnRecv_keeps ignore_keeps)

text \<open>The calls of Winsock a run has made.\<close>

fun is_io_call :: "LifecycleEvent \<Rightarrow> bool" where
  "is_io_call (Forwarded (WSASend h d)) = True"
| "is_io_call (Forwarded (WSARecv h n)) = True"
| "is_io_call _ = False"

abbreviation io_calls :: "unit ServerLifeCycle \<Rightarrow> LifecycleEvent list" where
  "io_calls s \<equiv> filter is_io_call (sl_events s)"

lemma post_recv_calls:
  assumes "r \<noteq> SocketError" and "i < length (sl_clientPool s)"
  obtains s' where "post_recv r e i s = (Inr (), s')"
    and "io_calls s' = io_calls s @ [Forwarded (WSARecv (cl_socket (client_of s i)) (length (ro_buf (cl_recv (client_of s i)))))]"
    and "length (sl_clientPool s') = length (sl_clientPool s)"
    and "cl_socket (client_of s' i) = cl_socket (client_of s i)"
    and "ro_buf (cl_recv (client_of s' i)) = ro_buf (cl_recv (client_of s i))"
  using assms that [of "snd (post_recv r e i s)"]
  by (cases "cb_onRecvPosted (cl_callbacks (client_of s i))")
     (auto simp: post_recv_def PostRecv_def put_client_def event_def Let_def emit_def)

lemma post_send_calls:
  assumes "r \<noteq> SocketError" and "i < length (sl_clientPool s)" and "length d < 2 ^ 32"
  obtains s' where "post_send r e d i s = (Inr (), s')"
    and "io_calls s' = io_calls s @ [Forwarded (WSASend (cl_socket (client_of s i)) d)]"
    and "length (sl_clientPool s') = length (sl_clientPool s)"
    and "cl_socket (client_of s' i) = cl_socket (client_of s i)"
    and "cl_recv (client_of s' i) = cl_recv (client_of s i)"
  using assms that [of "snd (post_send r e d i s)"] unat_of_nat32 [of "length d"]
  by (cases "cb_onSendPosted (cl_callbacks (client_of s i))")
     (auto simp: post_send_def PostSend_def put_client_def event_def Let_def emit_def)

text \<open>When the posts succeed, a completed receive makes the server send back exactly the received bytes, and
  then post two receives on the same connection and the same buffer: one by \<open>OnRecv\<close> and one by
  \<open>HandleRecv\<close> after it.\<close>

theorem echo_answers_and_receives_twice:
  assumes "ev_target ev = Some i" and "ev_success ev" and "ev_bytesTransferred ev \<noteq> 0" and "i < length (sl_clientPool s)"
    and "\<forall>n. fst (eo_send env n) \<noteq> SocketError" and "\<forall>n. fst (eo_recv env n) \<noteq> SocketError" and "se_recv se \<noteq> SocketError"
  shows "io_calls (HandleRecv (Some (echo_receiver env)) se ev s) = io_calls s
    @ [Forwarded (WSASend (cl_socket (client_of s i)) (take (unat (ev_bytesTransferred ev)) (ro_buf (cl_recv (client_of s i)))))]
    @ replicate 2 (Forwarded (WSARecv (cl_socket (client_of s i)) (length (ro_buf (cl_recv (client_of s i))))))"
proof -
  define s1 where "s1 = (if lcb_onRecvCompleted (sl_callbacks s)
    then event (RecvCompleted (unat (ev_bytesTransferred ev)) True) s else s)"
  have event_pool: "sl_clientPool (event e s') = sl_clientPool s'" for e and s' :: "unit ServerLifeCycle"
    by (simp add: event_def)
  have s1: "sl_clientPool s1 = sl_clientPool s" "io_calls s1 = io_calls s" by (simp_all add: s1_def event_def)
  let ?d = "take (unat (ev_bytesTransferred ev)) (ro_buf (cl_recv (client_of s i)))"
  have d: "length ?d < 2 ^ 32"
    using unsigned_less [of "ev_bytesTransferred ev", where ?'a = nat] by (simp add: min_less_iff_disj)
  obtain r e where re: "eo_send env (length (sl_events s1)) = (r, e)" by fastforce
  then have "r \<noteq> SocketError" using assms(5) by (metis fst_conv)
  then obtain s2 where s2: "post_send r e ?d i s1 = (Inr (), s2)"
      "io_calls s2 = io_calls s1 @ [Forwarded (WSASend (cl_socket (client_of s1 i)) ?d)]"
      "length (sl_clientPool s2) = length (sl_clientPool s1)" "cl_socket (client_of s2 i) = cl_socket (client_of s1 i)"
      "cl_recv (client_of s2 i) = cl_recv (client_of s1 i)"
    using post_send_calls [of r i s1 ?d e] assms(4) s1 d by metis
  obtain r' e' where re': "eo_recv env (length (sl_events s2)) = (r', e')" by fastforce
  then have "r' \<noteq> SocketError" using assms(6) by (metis fst_conv)
  then obtain s3 where s3: "post_recv r' e' i s2 = (Inr (), s3)"
      "io_calls s3 = io_calls s2 @ [Forwarded (WSARecv (cl_socket (client_of s2 i)) (length (ro_buf (cl_recv (client_of s2 i)))))]"
      "length (sl_clientPool s3) = length (sl_clientPool s2)" "cl_socket (client_of s3 i) = cl_socket (client_of s2 i)"
      "ro_buf (cl_recv (client_of s3 i)) = ro_buf (cl_recv (client_of s2 i))"
    using post_recv_calls [of r' i s2 e'] assms(4) s1 s2(3) by metis
  obtain s4 where s4: "post_recv (se_recv se) (se_recvError se) i s3 = (Inr (), s4)"
      "io_calls s4 = io_calls s3 @ [Forwarded (WSARecv (cl_socket (client_of s3 i)) (length (ro_buf (cl_recv (client_of s3 i)))))]"
    using post_recv_calls [of "se_recv se" i s3 "se_recvError se"] assms(4,7) s1 s2(3) s3(3) by metis
  have "Echo_OnRecv env i ?d s1 = s3" by (simp add: Echo_OnRecv_def re re' s2(1) s3(1))
  moreover have "unat (ev_bytesTransferred ev) \<noteq> 0" using assms(3) by (simp add: unat_eq_0)
  ultimately have "HandleRecv (Some (echo_receiver env)) se ev s = s4"
    using assms(1,2) s4(1)
    by (cases "lcb_onRecvCompleted (sl_callbacks s)") (simp_all add: HandleRecv_def echo_receiver_def Let_def s1_def event_pool)
  then show ?thesis by (simp add: s4 s3 s2 s1 numeral_2_eq_2)
qed

lemma echo_answers_and_receives_twice_witness:
  "io_calls (HandleRecv (Some (echo_receiver \<lparr>eo_send = \<lambda>_. (0, ERROR_IO_PENDING), eo_recv = \<lambda>_. (0, ERROR_IO_PENDING)\<rparr>))
      \<lparr>se_associate = None, se_recv = 0, se_recvError = ERROR_IO_PENDING\<rparr>
      \<lparr>ev_ioType = Recv, ev_target = Some 0, ev_overlapped = None, ev_bytesTransferred = 4, ev_success = True, ev_errorCode = None\<rparr>
      ((idle_server ())\<lparr>sl_clientPool := [Client_new\<lparr>cl_socket := 9\<rparr>]\<rparr>))
    = Forwarded (WSASend 9 (replicate 4 0)) # replicate 2 (Forwarded (WSARecv 9 recvBufferSize))"
proof -
  have "ro_buf (cl_recv Client_new) = replicate recvBufferSize 0" by (simp add: Client_new_def)
  then show ?thesis
    by (subst echo_answers_and_receives_twice [where i = 0])
       (simp_all add: SocketError_def idle_server_def recvBufferSize_def)
qed

section \<open>The client\<close>

datatype EchoLog =
    EL_Info string | EL_Error string
  | EL_Sent "byte list" | EL_Received "byte list"

record EchoClient =
  ec_wsaSession :: "WsaSession option"
  ec_tcpClientSocket :: "TcpClientSocket option"
  ec_packetStream :: "PacketStream option"
  ec_os :: "OsCall list"
  ec_log :: "EchoLog list"

definition EchoClient_new :: EchoClient where
  "EchoClient_new = \<lparr>ec_wsaSession = None, ec_tcpClientSocket = None, ec_packetStream = None, ec_os = [], ec_log = []\<rparr>"

abbreviation echo_log :: "EchoLog \<Rightarrow> EchoClient \<Rightarrow> EchoClient" where
  "echo_log l c \<equiv> c\<lparr>ec_log := ec_log c @ [l]\<rparr>"

definition EchoClient_Disconnect :: "EchoClient \<Rightarrow> bool \<times> EchoClient" where
  "EchoClient_Disconnect c =
     (case ec_tcpClientSocket c of None \<Rightarrow> (False, c)
      | Some s \<Rightarrow>
          (True, echo_log (EL_Info ''Disconnected from server.'')
            (c\<lparr>ec_packetStream := None, ec_tcpClientSocket := None, ec_wsaSession := None,
               ec_os := ec_os c @ snd (tcp_Close s)
                 @ (case ec_wsaSession c of None \<Rightarrow> [] | Some ws \<Rightarrow> snd (WsaSession_Cleanup ws))\<rparr>)))"

definition EchoClient_destroy :: "EchoClient \<Rightarrow> EchoClient" where
  "EchoClient_destroy c = snd (EchoClient_Disconnect c)"

definition EchoClient_Connect :: "int \<Rightarrow> ConnectEnv \<Rightarrow> 16 word \<Rightarrow> EchoClient \<Rightarrow> bool \<times> EchoClient" where
  "EchoClient_Connect startup env port c0 =
     (let c = snd (EchoClient_Disconnect c0) in
      case WsaSession_Create startup of
        Inl _ \<Rightarrow> (False, echo_log (EL_Error ''Failed to initialize WSA session.'') c)
      | Inr wsaSession \<Rightarrow>
          let c1 = echo_log (EL_Info ''Connecting'') c in
          case tcp_Connect env port (TcpClientSocket_new True) of
            (Inl _, socket, os) \<Rightarrow>
              (False, (echo_log (EL_Error ''Connect failed.'') c1)
                \<lparr>ec_os := ec_os c1 @ os @ snd (tcp_Close socket) @ snd (WsaSession_Cleanup wsaSession)\<rparr>)
          | (Inr _, socket, os) \<Rightarrow>
              (True, echo_log (EL_Info ''Connected'')
                (c1\<lparr>ec_wsaSession := Some wsaSession, ec_tcpClientSocket := Some socket,
                    ec_packetStream := Some (PacketStream_new maxFrameSize), ec_os := ec_os c1 @ os\<rparr>)))"

definition EchoClient_Send :: "'w send_fn \<Rightarrow> 'w recv_fn \<Rightarrow> byte list \<Rightarrow> EchoClient \<times> 'w \<Rightarrow> EchoClient \<times> 'w" where
  "EchoClient_Send send recv message cw =
     (case cw of (c, w) \<Rightarrow>
      case (ec_tcpClientSocket c, ec_packetStream c) of
        (Some s, Some stream) \<Rightarrow>
          if \<not> tcp_IsConnected s then (echo_log (EL_Error ''Not connected to server.'') c, w)
          else (case SendFrame send s message w of
                  (Inl _, w1) \<Rightarrow> (echo_log (EL_Error ''Send failed.'') c, w1)
                | (Inr _, w1) \<Rightarrow>
                    let c1 = echo_log (EL_Sent message) c in
                    (case RecvFrame recv s stream [] w1 of
                       (Inl _, _, w2) \<Rightarrow> (echo_log (EL_Error ''Recv failed.'') c1, w2)
                     | (Inr _, recvBuffer, w2) \<Rightarrow> (echo_log (EL_Received recvBuffer) c1, w2)))
      | _ \<Rightarrow> (echo_log (EL_Error ''Not connected to server.'') c, w))"

section \<open>An exchange\<close>

lemma EchoClient_Connect_ready:
  assumes "EchoClient_Connect startup env port c0 = (True, c)"
  shows "\<exists>s. ec_tcpClientSocket c = Some s \<and> tcp_socketHandle s = env_socket env \<and> tcp_IsConnected s
    \<and> ec_packetStream c = Some \<lparr>ps_maxFrameSize = maxFrameSize\<rparr> \<and> ec_wsaSession c = Some \<lparr>ws_isInitialized = True\<rparr>"
  using assms
  by (auto simp: EchoClient_Connect_def tcp_Connect_def tcp_Close_def tcp_IsConnected_def WsaSession_Create_def
      WsaSession_Initialize_def Let_def split: sum.splits if_splits)

text \<open>After a successful \<open>Connect\<close>, a message of at most one frame sent to a peer that returns the bytes
  it gets is logged as sent and then as received, byte for byte, whatever fragmentation \<open>send\<close> and \<open>recv\<close>
  choose, and nothing is left on the wire; the connection objects do not change, and \<open>Disconnect\<close> then
  shuts the socket down once and ends the Winsock session.\<close>

theorem echo_exchange:
  assumes "EchoClient_Connect startup env port EchoClient_new = (True, c)"
    and "send_contract send wire" and "send_progress send" and "recv_contract recv wire"
    and "length p \<le> maxFrameSize" and "wire w = []"
    and "EchoClient_Send send recv p (c, w) = (c', w')" and "EchoClient_Disconnect c' = (r, d)"
  shows "ec_log c' = ec_log c @ [EL_Sent p, EL_Received p] \<and> wire w' = []
    \<and> r \<and> ec_os d = ec_os c @ [OsShutdown (env_socket env), OsCloseSocket (env_socket env), OsWSACleanup]
    \<and> ec_tcpClientSocket d = None"
proof -
  obtain s where s: "ec_tcpClientSocket c = Some s" "tcp_IsConnected s"
      "ec_packetStream c = Some \<lparr>ps_maxFrameSize = maxFrameSize\<rparr>" "ec_wsaSession c = Some \<lparr>ws_isInitialized = True\<rparr>"
      "tcp_socketHandle s = env_socket env"
    using EchoClient_Connect_ready [OF assms(1)] by auto
  obtain w1 where w1: "SendFrame send s p w = (Inr (), w1)" "wire w1 = encode_frame p"
    using SendFrame_wire [OF assms(2,3) s(2), of p w] assms(6) by auto
  obtain w2 where w2: "RecvFrame recv s \<lparr>ps_maxFrameSize = maxFrameSize\<rparr> [] w1 = (Inr (length p), p, w2)" "wire w2 = []"
    using RecvFrame_frame [OF assms(4) s(2), of "\<lparr>ps_maxFrameSize = maxFrameSize\<rparr>" p w1 "[]" "[]"] w1(2) assms(5)
    by (auto simp: maxFrameSize_def)
  have c': "c' = echo_log (EL_Received p) (echo_log (EL_Sent p) c)" "w' = w2"
    using assms(7) by (simp_all add: EchoClient_Send_def s w1 w2 Let_def)
  show ?thesis
    using assms(8) s w2(2) c' by (auto simp: EchoClient_Disconnect_def tcp_Close_def tcp_IsConnected_def WsaSession_Cleanup_def)
qed

lemma echo_exchange_witness:
  "\<exists>c c' w'. EchoClient_Connect 0 \<lparr>env_socket = 5, env_pton = 1, env_connect = 0\<rparr> 8080 EchoClient_new = (True, c)
    \<and> EchoClient_Send byte_send byte_recv [1, 2, 3] (c, []) = (c', w')
    \<and> ec_log c' = ec_log c @ [EL_Sent [1, 2, 3], EL_Received [1, 2, 3]]"
proof -
  let ?env = "\<lparr>env_socket = 5, env_pton = 1, env_connect = 0\<rparr>"
  obtain c where c: "EchoClient_Connect 0 ?env 8080 EchoClient_new = (True, c)"
    by (simp add: EchoClient_Connect_def EchoClient_Disconnect_def EchoClient_new_def tcp_Connect_def tcp_Close_def
        WsaSession_Create_def WsaSession_Initialize_def IsValidPort_def InvalidSocket_def SocketError_def Let_def)
  obtain c' w' where s: "EchoClient_Send byte_send byte_recv [1, 2, 3] (c, []) = (c', w')" by fastforce
  obtain r d where d: "EchoClient_Disconnect c' = (r, d)" by fastforce
  show ?thesis
    using echo_exchange [OF c byte_transport _ _ s d] c s by (auto simp: maxFrameSize_def)
qed

end
