(* ===== verification/Logging.thy ===== *)
theory Logging
  imports ChatClient
begin

text \<open>
  The logger (lib/inc/logger, lib/src/logger/TextLogger.cpp) and the chat client's
  \<open>PromptAwareTextLogger\<close>.

  \<open>ILogger\<close> is the record of its five virtual functions over the state of the
  output \<open>'l\<close>.  The interface \<open>line_logger\<close> says what a text logger promises: a
  call adds exactly its line to what is shown.  \<open>TextLogger\<close> keeps it on the
  standard output, \<open>PromptAwareTextLogger\<close> on a terminal whose last line is the
  prompt.
\<close>

section \<open>Formatting\<close>

text \<open>\<open>std::vformat\<close> for the forms the sources use: replacement fields \<open>{}\<close> in order
  and doubled braces; arguments are given by their text and may be left over.
  \<open>None\<close> is a \<open>format_error\<close>.\<close>

fun vformat :: "string \<Rightarrow> string list \<Rightarrow> string option" where
  "vformat [] args = Some []"
| "vformat [c] args = (if c = CHR ''{'' \<or> c = CHR ''}'' then None else Some [c])"
| "vformat (c # d # rest) args =
     (if c = CHR ''{'' then
        (if d = CHR ''{'' then map_option (Cons (CHR ''{'')) (vformat rest args)
         else if d = CHR ''}'' then
           (case args of [] \<Rightarrow> None | a # as \<Rightarrow> map_option (append a) (vformat rest as))
         else None)
      else if c = CHR ''}'' then
        (if d = CHR ''}'' then map_option (Cons (CHR ''}'')) (vformat rest args) else None)
      else map_option (Cons c) (vformat (d # rest) args))"

section \<open>ILogger and Logger\<close>

record 'l ILogger =
  il_Info :: "string \<Rightarrow> 'l \<Rightarrow> 'l"
  il_Debug :: "string \<Rightarrow> 'l \<Rightarrow> 'l"
  il_Warn :: "string \<Rightarrow> 'l \<Rightarrow> 'l"
  il_Error :: "string \<Rightarrow> 'l \<Rightarrow> 'l"
  il_Exception :: "string \<Rightarrow> string \<Rightarrow> 'l \<Rightarrow> 'l"

record 'l Logger =
  lg_impl :: "'l ILogger"

definition Logger_Default :: "'l ILogger \<Rightarrow> 'l Logger" where
  "Logger_Default impl = \<lparr>lg_impl = impl\<rparr>"

definition Logger_Info :: "'l Logger \<Rightarrow> string \<Rightarrow> 'l \<Rightarrow> 'l" where
  "Logger_Info lg msg = il_Info (lg_impl lg) msg"

definition Logger_Debug :: "'l Logger \<Rightarrow> string \<Rightarrow> 'l \<Rightarrow> 'l" where
  "Logger_Debug lg msg = il_Debug (lg_impl lg) msg"

definition Logger_Warn :: "'l Logger \<Rightarrow> string \<Rightarrow> 'l \<Rightarrow> 'l" where
  "Logger_Warn lg msg = il_Warn (lg_impl lg) msg"

definition Logger_Error :: "'l Logger \<Rightarrow> string \<Rightarrow> 'l \<Rightarrow> 'l" where
  "Logger_Error lg msg = il_Error (lg_impl lg) msg"

definition Logger_Exception :: "'l Logger \<Rightarrow> string \<Rightarrow> string \<Rightarrow> 'l \<Rightarrow> 'l" where
  "Logger_Exception lg msg what = il_Exception (lg_impl lg) msg what"

text \<open>The overloads with a format string.\<close>

definition Logger_InfoFormat :: "'l Logger \<Rightarrow> string \<Rightarrow> string list \<Rightarrow> 'l \<Rightarrow> 'l option" where
  "Logger_InfoFormat lg fmt args l = map_option (\<lambda>msg. il_Info (lg_impl lg) msg l) (vformat fmt args)"

definition Logger_DebugFormat :: "'l Logger \<Rightarrow> string \<Rightarrow> string list \<Rightarrow> 'l \<Rightarrow> 'l option" where
  "Logger_DebugFormat lg fmt args l = map_option (\<lambda>msg. il_Debug (lg_impl lg) msg l) (vformat fmt args)"

definition Logger_WarnFormat :: "'l Logger \<Rightarrow> string \<Rightarrow> string list \<Rightarrow> 'l \<Rightarrow> 'l option" where
  "Logger_WarnFormat lg fmt args l = map_option (\<lambda>msg. il_Warn (lg_impl lg) msg l) (vformat fmt args)"

definition Logger_ErrorFormat :: "'l Logger \<Rightarrow> string \<Rightarrow> string list \<Rightarrow> 'l \<Rightarrow> 'l option" where
  "Logger_ErrorFormat lg fmt args l = map_option (\<lambda>msg. il_Error (lg_impl lg) msg l) (vformat fmt args)"

section \<open>TextLogger and PromptAwareTextLogger\<close>

text \<open>The insertions one call makes into the standard output.\<close>

definition text_writes :: "string \<Rightarrow> string \<Rightarrow> string list" where
  "text_writes tag msg = [''['' @ tag @ ''] '', msg, [CHR 0x0A]]"

definition TextLogger :: "string ILogger" where
  "TextLogger =
     \<lparr>il_Info = (\<lambda>msg out. out @ concat (text_writes ''INFO'' msg)),
      il_Debug = (\<lambda>msg out. out @ concat (text_writes ''DEBUG'' msg)),
      il_Warn = (\<lambda>msg out. out @ concat (text_writes ''WARN'' msg)),
      il_Error = (\<lambda>msg out. out @ concat (text_writes ''ERROR'' msg)),
      il_Exception = (\<lambda>msg what out. out @ concat ([''[EXCEPTION] '', msg, '': '', what, [CHR 0x0A]]))\<rparr>"

definition PromptAwareTextLogger :: "ConsoleState ILogger" where
  "PromptAwareTextLogger =
     \<lparr>il_Info = Console_Log ''INFO'', il_Debug = Console_Log ''DEBUG'', il_Warn = Console_Log ''WARN'',
      il_Error = Console_Log ''ERROR'',
      il_Exception = (\<lambda>msg what. Console_Log ''EXCEPTION'' (the (vformat ''{}: {}'' [msg, what])))\<rparr>"

section \<open>Formatting is faithful to its arguments\<close>

text \<open>A text with its braces doubled.\<close>

definition brace_escape :: "string \<Rightarrow> string" where
  "brace_escape s = concat (map (\<lambda>c. if c = CHR ''{'' \<or> c = CHR ''}'' then [c, c] else [c]) s)"

lemma vformat_plain: "c \<noteq> CHR ''{'' \<Longrightarrow> c \<noteq> CHR ''}'' \<Longrightarrow> vformat (c # r) args = map_option (Cons c) (vformat r args)"
  by (cases r) simp_all

lemma vformat_escaped: "vformat (brace_escape s @ r) args = map_option (append s) (vformat r args)"
proof (induction s)
  case Nil
  then show ?case by (cases "vformat r args") (simp_all add: brace_escape_def)
next
  case (Cons c s)
  then show ?case
    by (cases "vformat r args") (auto simp: brace_escape_def vformat_plain)
qed

text \<open>A format string of literal pieces, each followed by a field, and a last piece.\<close>

fun format_text :: "string list \<Rightarrow> string \<Rightarrow> string" where
  "format_text [] final = brace_escape final"
| "format_text (p # ps) final = brace_escape p @ ''{}'' @ format_text ps final"

fun filled_text :: "string list \<Rightarrow> string \<Rightarrow> string list \<Rightarrow> string option" where
  "filled_text [] final args = Some final"
| "filled_text (p # ps) final [] = None"
| "filled_text (p # ps) final (a # args) = map_option (\<lambda>t. p @ a @ t) (filled_text ps final args)"

lemma vformat_fields: "vformat (format_text ps final) args = filled_text ps final args"
proof (induction ps arbitrary: args)
  case Nil
  then show ?case using vformat_escaped [of final "[]" args] by simp
next
  case (Cons p ps)
  then show ?case
    by (cases args) (simp_all add: vformat_escaped option.map_comp comp_def)
qed

section \<open>One call, one line\<close>

datatype LogCall =
    Call_Info string | Call_Debug string | Call_Warn string | Call_Error string
  | Call_Exception string string

fun run_log_call :: "'l Logger \<Rightarrow> LogCall \<Rightarrow> 'l \<Rightarrow> 'l" where
  "run_log_call lg (Call_Info m) = Logger_Info lg m"
| "run_log_call lg (Call_Debug m) = Logger_Debug lg m"
| "run_log_call lg (Call_Warn m) = Logger_Warn lg m"
| "run_log_call lg (Call_Error m) = Logger_Error lg m"
| "run_log_call lg (Call_Exception m what) = Logger_Exception lg m what"

fun call_text :: "LogCall \<Rightarrow> string" where
  "call_text (Call_Info m) = ''[INFO] '' @ m"
| "call_text (Call_Debug m) = ''[DEBUG] '' @ m"
| "call_text (Call_Warn m) = ''[WARN] '' @ m"
| "call_text (Call_Error m) = ''[ERROR] '' @ m"
| "call_text (Call_Exception m what) = ''[EXCEPTION] '' @ m @ '': '' @ what"

definition call_line :: "LogCall \<Rightarrow> string" where
  "call_line c = call_text c @ [CHR 0x0A]"

text \<open>What a text logger promises to the rest of the program.  \<open>shown\<close> is the finished
  part of the output and \<open>ok\<close> the state in which the promise holds.\<close>

locale line_logger =
  fixes impl :: "'l ILogger" and shown :: "'l \<Rightarrow> string" and ok :: "'l \<Rightarrow> bool"
  assumes one_line: "ok l \<Longrightarrow> ok (run_log_call (Logger_Default impl) c l)
    \<and> shown (run_log_call (Logger_Default impl) c l) = shown l @ call_line c"
begin

lemma calls_shown:
  "ok l \<Longrightarrow> ok (fold (run_log_call (Logger_Default impl)) calls l)
    \<and> shown (fold (run_log_call (Logger_Default impl)) calls l) = shown l @ concat (map call_line calls)"
  by (induction calls arbitrary: l) (simp_all add: one_line)

text \<open>Calls of two threads that are executed one at a time, in any order that keeps the
  order of each thread.\<close>

lemma threads_shown:
  assumes "ok l" and "calls \<in> shuffles xs ys"
  shows "\<exists>lines \<in> shuffles (map call_line xs) (map call_line ys).
    shown (fold (run_log_call (Logger_Default impl)) calls l) = shown l @ concat lines"
proof -
  have "map call_line calls \<in> shuffles (map call_line xs) (map call_line ys)"
    using assms(2) by (induction xs ys arbitrary: calls rule: shuffles.induct) auto
  then show ?thesis using calls_shown [OF assms(1)] by blast
qed

end

lemmas logger_call_defs = Logger_Info_def Logger_Debug_def Logger_Warn_def Logger_Error_def
  Logger_Exception_def Logger_Default_def

interpretation text_logger: line_logger TextLogger id "\<lambda>_. True"
proof
  show "True \<and> id (run_log_call (Logger_Default TextLogger) c l) = id l @ call_line c" for c l
    by (cases c) (simp_all add: TextLogger_def text_writes_def call_line_def logger_call_defs)
qed

section \<open>The terminal\<close>

text \<open>What a terminal shows: the text up to the last end of line, and the current line.
  Erasing clears the current line.\<close>

fun show_char :: "char \<Rightarrow> string \<times> string \<Rightarrow> string \<times> string" where
  "show_char c (finished, cur) = (if c = CHR 0x0A then (finished @ cur @ [c], []) else (finished, cur @ [c]))"

fun show_out :: "ConsoleOut \<Rightarrow> string \<times> string \<Rightarrow> string \<times> string" where
  "show_out (Out_Text t) = fold show_char t"
| "show_out Out_ClearLine = (\<lambda>(finished, cur). (finished, []))"

definition screen :: "ConsoleState \<Rightarrow> string \<times> string" where
  "screen con = fold show_out (con_out con) ([], [])"

lemma show_text: "CHR 0x0A \<notin> set t \<Longrightarrow> fold show_char t (d, cur) = (d, cur @ t)"
  by (induction t arbitrary: cur) auto

lemma show_line: "fold show_char (t @ [CHR 0x0A]) (d, cur) = (d @ cur @ t @ [CHR 0x0A], [])"
  by (induction t arbitrary: d cur) auto

text \<open>The state of the console in which a log call finds its line: the current line is
  the prompt, or empty.\<close>

definition prompt_ok :: "ConsoleState \<Rightarrow> bool" where
  "prompt_ok con \<longleftrightarrow> con_terminal con \<and> CHR 0x0A \<notin> set (con_prompt con)
     \<and> snd (screen con) = (if con_promptVisible con then ''[INFO] '' @ con_prompt con else [])"

lemma Console_Log_screen:
  assumes "prompt_ok con"
  shows "prompt_ok (Console_Log level msg con)
    \<and> fst (screen (Console_Log level msg con)) = fst (screen con) @ ''['' @ level @ ''] '' @ msg @ [CHR 0x0A]"
proof -
  obtain d cur where sc: "screen con = (d, cur)" by fastforce
  have line: "fold show_char (CHR ''['' # level @ CHR '']'' # CHR '' '' # msg @ [CHR 0x0A]) (d, [])
      = (d @ ''['' @ level @ ''] '' @ msg @ [CHR 0x0A], [])" for d
    using show_line [of "''['' @ level @ ''] '' @ msg" d "[]"] by simp
  have pr: "fold show_char (''[INFO] '' @ con_prompt con) (e, []) = (e, ''[INFO] '' @ con_prompt con)" for e
    using show_text [of "''[INFO] '' @ con_prompt con" e "[]"] assms by (simp add: prompt_ok_def)
  show ?thesis
    using assms sc line pr
    by (cases "con_promptVisible con")
       (auto simp: prompt_ok_def Console_Log_def ClearPromptLineUnlocked_def PrintPromptUnlocked_def screen_def Let_def)
qed

interpretation prompt_logger: line_logger PromptAwareTextLogger "\<lambda>con. fst (screen con)" prompt_ok
proof
  show "prompt_ok (run_log_call (Logger_Default PromptAwareTextLogger) c l)
    \<and> fst (screen (run_log_call (Logger_Default PromptAwareTextLogger) c l)) = fst (screen l) @ call_line c"
    if "prompt_ok l" for c l
    using Console_Log_screen [OF that]
    by (cases c) (simp_all add: PromptAwareTextLogger_def call_line_def logger_call_defs)
qed

text \<open>C37: log calls of two threads of the chat client while a prompt is shown.  In
  whatever order the lock of the console serialises them, the finished text grows by
  whole lines, one for each call and in the order of each thread, and the line being
  edited is the prompt again.\<close>

theorem log_calls_keep_prompt:
  assumes "con_terminal con" and "snd (screen con) = []" and "CHR 0x0A \<notin> set prompt"
    and "calls \<in> shuffles xs ys"
    and "con' = fold (run_log_call (Logger_Default PromptAwareTextLogger)) calls (ShowPrompt prompt con)"
  shows "\<exists>lines \<in> shuffles (map call_line xs) (map call_line ys). screen con' =
    (fst (screen con) @ concat lines, ''[INFO] '' @ prompt)"
proof -
  let ?s = "ShowPrompt prompt con"
  obtain d where sc: "screen con = (d, [])" using assms(2) by (metis prod.collapse)
  have "screen ?s = (d, ''[INFO] '' @ prompt)"
    using show_text [of "''[INFO] '' @ prompt" d "[]"] assms(3) sc
    by (simp add: screen_def ShowPrompt_def PrintPromptUnlocked_def)
  then have ok: "prompt_ok ?s" and d: "fst (screen ?s) = fst (screen con)"
    using assms(1,3) sc by (simp_all add: prompt_ok_def ShowPrompt_def PrintPromptUnlocked_def)
  have prompt: "con_prompt (run_log_call (Logger_Default PromptAwareTextLogger) c l) = con_prompt l
      \<and> con_promptVisible (run_log_call (Logger_Default PromptAwareTextLogger) c l) = con_promptVisible l" for c l
    by (cases c) (simp_all add: PromptAwareTextLogger_def logger_call_defs Console_Log_def ClearPromptLineUnlocked_def
        PrintPromptUnlocked_def Let_def)
  have "con_prompt (fold (run_log_call (Logger_Default PromptAwareTextLogger)) cs l) = con_prompt l
      \<and> con_promptVisible (fold (run_log_call (Logger_Default PromptAwareTextLogger)) cs l) = con_promptVisible l" for cs l
    by (induction cs arbitrary: l) (simp_all add: prompt)
  then have "con_prompt con' = prompt" "con_promptVisible con'"
    using assms(5) by (simp_all add: ShowPrompt_def PrintPromptUnlocked_def)
  moreover have "prompt_ok con'" using prompt_logger.calls_shown [OF ok] assms(5) by simp
  ultimately have "snd (screen con') = ''[INFO] '' @ prompt" by (simp add: prompt_ok_def)
  then show ?thesis
    using prompt_logger.threads_shown [OF ok assms(4)] d assms(5) by (metis prod.collapse)
qed

lemma log_calls_keep_prompt_witness:
  "\<exists>lines \<in> shuffles (map call_line [Call_Info ''a'']) (map call_line [Call_Warn ''b'']).
    screen (fold (run_log_call (Logger_Default PromptAwareTextLogger)) [Call_Warn ''b'', Call_Info ''a'']
      (ShowPrompt ''> '' (ConsoleState_new True))) = (concat lines, ''[INFO] > '')"
  using log_calls_keep_prompt [of "ConsoleState_new True" "''> ''" "[Call_Warn ''b'', Call_Info ''a'']"
      "[Call_Info ''a'']" "[Call_Warn ''b'']", OF _ _ _ _ refl]
  by (simp add: ConsoleState_new_def screen_def)

text \<open>\<open>TextLogger\<close> takes no lock: the insertions of two threads may alternate, and then
  the output is not made of the lines of the calls.\<close>

lemma text_logger_tears:
  "\<exists>writes \<in> shuffles (text_writes ''INFO'' ''a'') (text_writes ''WARN'' ''b'').
    concat writes \<noteq> concat (text_writes ''INFO'' ''a'' @ text_writes ''WARN'' ''b'')
    \<and> concat writes \<noteq> concat (text_writes ''WARN'' ''b'' @ text_writes ''INFO'' ''a'')"
  by (intro bexI [of _ "[''[INFO] '', ''[WARN] '', ''a'', ''b'', [CHR 0x0A], [CHR 0x0A]]"])
     (simp_all add: text_writes_def)

end
