(* ===== verification/ServerProgram.thy ===== *)
theory ServerProgram
  imports MetricsWiring ServerWriter Sockets EchoPrograms Logging
begin

text \<open>
  The two server programs as whole runs: \<open>main\<close> of the chat server
  (exec/chat/chat-server/chat-server/main.cpp) and of the echo server
  (exec/echo/echo-server/main.cpp).

  A run is a function of what the program finds outside: the configuration file,
  the environment variables, the answers of Winsock and of the calls of
  \<open>Start\<close>, and what the worker threads and the logic thread do while \<open>main\<close> waits
  for the console or leaves its scope.  Leaving the scope destroys the local
  objects, the last one declared first.  \<open>Crash\<close> is an uncaught exception or a null
  pointer, \<open>Hang\<close> a join that never returns.
\<close>

section \<open>Runs\<close>

datatype crash = UncaughtConfigError | ConfigOverflow | NullListener | PoolLengthError

datatype 's outcome = Exit int 's | Crash crash | Hang

text \<open>Local objects are listed in the order of their declarations.\<close>

fun leave_scope :: "('l \<Rightarrow> 's \<Rightarrow> 's option) \<Rightarrow> 'l list \<Rightarrow> 's \<Rightarrow> 's option" where
  "leave_scope destroy [] s = Some s"
| "leave_scope destroy (l # ls) s = Option.bind (leave_scope destroy ls s) (destroy l)"

definition return_from :: "int \<Rightarrow> 's option \<Rightarrow> 's outcome" where
  "return_from code left = (case left of None \<Rightarrow> Hang | Some s \<Rightarrow> Exit code s)"

text \<open>What a run does that others can see, in order.\<close>

datatype ProgramEvent =
    Ev_Winsock SockCall
  | Ev_Start "ENetworkError + unit"
  | Ev_Stop

section \<open>The metrics object\<close>

text \<open>\<open>main\<close> chooses the implementation behind \<open>IServerMetrics\<close> at run time.\<close>

type_synonym IServerMetrics = "AtomicServerMetrics + unit"

definition make_metrics :: "ServerMetricsConfig \<Rightarrow> IServerMetrics" where
  "make_metrics config = (if mcfg_enabled config then Inl AtomicServerMetrics_new else Inr ())"

definition metrics_call :: "IServerMetrics metrics_impl" where
  "metrics_call e m = (case m of Inl a \<Rightarrow> Inl (atomic_metric e a) | Inr n \<Rightarrow> Inr (null_metric e n))"

definition metrics_snapshot :: "IServerMetrics snapshot_fn" where
  "metrics_snapshot now m =
     (case m of Inl a \<Rightarrow> (case TakeSnapshot now a of (snap, a') \<Rightarrow> (snap, Inl a'))
      | Inr n \<Rightarrow> (case null_TakeSnapshot now n of (snap, n') \<Rightarrow> (snap, Inr n')))"

text \<open>The threads of the server call the object while the writer waits: \<open>calls t\<close> are
  the calls made before the snapshot taken at \<open>t\<close>.\<close>

definition live_snapshot :: "(ticks \<Rightarrow> ServerMetric list) \<Rightarrow> IServerMetrics snapshot_fn" where
  "live_snapshot calls now m = metrics_snapshot now (fold metrics_call (calls now) m)"

section \<open>The chat server\<close>

record ServerProgramEnv =
  pe_file :: "string option"
  pe_getenv :: "string \<Rightarrow> string option"
  pe_debug :: bool
  pe_sys :: SockSys
  pe_start :: StartEnv
  pe_pool :: HybridObjectPool
  pe_lastOwner :: "addr \<Rightarrow> bool"

text \<open>The configuration reads a variable that is not set as empty.\<close>

definition variables :: "'a ServerProgramEnv_scheme \<Rightarrow> environment" where
  "variables pe v = (case pe_getenv pe v of None \<Rightarrow> [] | Some x \<Rightarrow> x)"

text \<open>\<open>pc_wait\<close> and \<open>pc_closing\<close> are what the threads of the server do to its state while
  \<open>main\<close> waits for Enter, and after the listening socket is gone until \<open>Stop\<close>.\<close>

record ChatProgramEnv = ServerProgramEnv +
  pc_chat :: ChatEnv
  pc_ns :: "nat \<Rightarrow> int"
  pc_thread :: nat
  pc_wait :: "server \<Rightarrow> server"
  pc_closing :: "server \<Rightarrow> server"
  pc_calls :: "ticks \<Rightarrow> ServerMetric list"
  pc_writerStart :: WriterStartEnv
  pc_rounds :: "nat \<Rightarrow> WriterRound"
  pc_writerStop :: WriterStopEnv

record 'd ChatProgram =
  mn_server :: Server
  mn_writer :: "('d, IServerMetrics) ServerMetricsWriter"
  mn_events :: "ProgramEvent list"
  mn_out :: string
  mn_err :: string

definition server_manifest :: "bool \<Rightarrow> NetworkCfg \<Rightarrow> RunManifest" where
  "server_manifest debug c =
     \<lparr>man_runId = [], man_scenarioName = [], man_serverName = ''chat-server'', man_gitCommit = [], man_gitBranch = [],
      man_buildType = (if debug then ''Debug'' else ''Release''), man_machineInfo = [], man_targetHost = [],
      man_outputRoot = ''artifacts/load-tests'', man_startedAt = None, man_finishedAt = None,
      man_targetPort = of_int (nc_port c), man_plannedClients = 0, man_messageSizeBytes = 0, man_sendIntervalMs = 0,
      man_durationSec = 0\<rparr>"

text \<open>The lambdas of \<open>MakeMetricsCallbacksBundle\<close> around the writer.\<close>

definition on_started :: "'d Fp \<Rightarrow> ChatProgramEnv \<Rightarrow> 'd ChatProgram \<Rightarrow> 'd ChatProgram" where
  "on_started fp pe m =
     (case Writer_Start fp (live_snapshot (pc_calls pe)) (pc_writerStart pe) (mn_writer m) of
        (True, w) \<Rightarrow> m\<lparr>mn_writer := w\<rparr>
      | (False, w) \<Rightarrow> m\<lparr>mn_writer := w,
            mn_err := mn_err m @ ''Failed to start server metrics writer: '' @ Writer_LastError w @ [CHR 0x0A]\<rparr>)"

definition on_logic_thread_started :: "nat \<Rightarrow> 'd ChatProgram \<Rightarrow> 'd ChatProgram" where
  "on_logic_thread_started threadId m = m\<lparr>mn_writer := Writer_SetLogicThreadId (of_nat threadId) (mn_writer m)\<rparr>"

definition stop_writer :: "'d Fp \<Rightarrow> ChatProgramEnv \<Rightarrow> 'd ChatProgram \<Rightarrow> 'd ChatProgram option" where
  "stop_writer fp pe m =
     map_option (\<lambda>w. m\<lparr>mn_writer := w\<rparr>)
       (Writer_Stop fp (live_snapshot (pc_calls pe)) (pc_rounds pe) (pc_writerStop pe) (mn_writer m))"

text \<open>\<open>Server::Start\<close> with a pointer that may be null: \<open>ServerLifeCycle::Start\<close> asks the
  socket for its handle once the multiplexer is running, and reserves the client pool
  once the acceptor is ready.\<close>

definition start_with :: "ChatProgramEnv \<Rightarrow> WindowsAsyncSocket option \<Rightarrow> Server \<Rightarrow> crash + ((ENetworkError + unit) \<times> Server)" where
  "start_with pe listenSocket v =
     (case listenSocket of
        Some s \<Rightarrow>
          if Start_throws (pe_start pe) (pe_pool pe) (GetSocketHandle s) (sv_config v) (scb_lifecycle (sv_callbacks v))
          then Inl PoolLengthError
          else Inr (Server_Start (pc_chat pe) (pc_ns pe) (pe_start pe) (pe_pool pe) (pc_thread pe) (GetSocketHandle s) v)
      | None \<Rightarrow>
          if has_err (fst (Multiplexer_Initialize (st_iocp (pe_start pe))
               (worker_count (pe_start pe) (sv_config v))
               (fresh_multiplexer (lcb_iocp (scb_lifecycle (sv_callbacks v))))))
          then Inr (Server_Start (pc_chat pe) (pc_ns pe) (pe_start pe) (pe_pool pe) (pc_thread pe) InvalidSocket v)
          else Inl NullListener)"

text \<open>The locals of \<open>main\<close> whose destructors do something.\<close>

datatype ChatDeferFn = Fn_StopServer

datatype ChatLocal =
    Local_metricsWriter
  | Local_server
  | Local_defer "ChatDeferFn Defer"
  | Local_listenSocket "WindowsAsyncSocket option"

definition destroy_listener ::
  "SockSys \<Rightarrow> WindowsAsyncSocket option \<Rightarrow> ProgramEvent list \<Rightarrow> ProgramEvent list" where
  "destroy_listener sys listenSocket events =
     (case listenSocket of None \<Rightarrow> events
      | Some s \<Rightarrow>
          let calls = [c. Ev_Winsock c \<leftarrow> events]
          in events @ map Ev_Winsock (drop (length calls) (snd (run_state (was_Cleanup sys s) calls))))"

text \<open>\<open>Server::Stop\<close> together with the writer, which \<open>onStopping\<close> stops.\<close>

definition stop_server :: "'d Fp \<Rightarrow> ChatProgramEnv \<Rightarrow> 'd ChatProgram \<Rightarrow> 'd ChatProgram option" where
  "stop_server fp pe m =
     (let v = Server_Stop (pc_chat pe) (pc_ns pe) (pe_lastOwner pe) (mn_server m);
          m1 = m\<lparr>mn_server := v, mn_events := mn_events m @ [Ev_Stop]\<rparr>
      in if scb_onStopping (sv_callbacks v) then stop_writer fp pe m1 else Some m1)"

fun destroy_local :: "'d Fp \<Rightarrow> ChatProgramEnv \<Rightarrow> ChatLocal \<Rightarrow> 'd ChatProgram \<Rightarrow> 'd ChatProgram option" where
  "destroy_local fp pe (Local_listenSocket ls) m =
     (let v = mn_server m in
      Some (m\<lparr>mn_events := destroy_listener (pe_sys pe) ls (mn_events m),
              mn_server := v\<lparr>sv_lifecycle := pc_closing pe (sv_lifecycle v)\<rparr>\<rparr>))"
| "destroy_local fp pe (Local_defer d) m =
     fold (\<lambda>Fn_StopServer r. Option.bind r (stop_server fp pe)) (fst (Defer_destroy d)) (Some m)"
| "destroy_local fp pe Local_server m =
     (if sv_hasStopped (mn_server m) then Some m else stop_server fp pe m)"
| "destroy_local fp pe Local_metricsWriter m =
     map_option (\<lambda>w. m\<lparr>mn_writer := w\<rparr>)
       (Writer_destroy fp (live_snapshot (pc_calls pe)) (pc_rounds pe) (pc_writerStop pe) (mn_writer m))"

definition chat_main :: "'d Fp \<Rightarrow> (string \<Rightarrow> string) \<Rightarrow> ChatProgramEnv \<Rightarrow> 'd ChatProgram outcome" where
  "chat_main fp files pe =
     (case NetworkCfg_FromFile (variables pe) (pe_file pe) of
        Inl _ \<Rightarrow> Crash UncaughtConfigError
      | Inr None \<Rightarrow> Crash ConfigOverflow
      | Inr (Some c) \<Rightarrow>
          let metricsConfig = Server_FromEnvironment (pe_getenv pe);
              metricsWriter = ServerMetricsWriter_new fp (make_metrics metricsConfig) metricsConfig
                (server_manifest (pe_debug pe) c) files;
              s = main_server (pc_chat pe) (Some metrics_call) (of_int (nc_maxCapacity c)) c
          in case run_state (MakeDefaultListener (pe_sys pe) TCP c) [] of
               (listenSocket, calls) \<Rightarrow>
                 let locals = [Local_metricsWriter, Local_server, Local_defer (Defer_new Fn_StopServer),
                               Local_listenSocket listenSocket];
                     m = \<lparr>mn_server = s, mn_writer = metricsWriter, mn_events = map Ev_Winsock calls, mn_out = [], mn_err = []\<rparr>
                 in case start_with pe listenSocket s of
                      Inl e \<Rightarrow> Crash e
                    | Inr (Inl e, v) \<Rightarrow>
                        return_from (-1) (leave_scope (destroy_local fp pe) locals
                          (m\<lparr>mn_server := v, mn_events := mn_events m @ [Ev_Start (Inl e)],
                             mn_out := Logger_Error (Logger_Default TextLogger) ''Failed to start server.'' (mn_out m)\<rparr>))
                    | Inr (Inr _, v) \<Rightarrow>
                        let m1 = on_logic_thread_started (pc_thread pe) (on_started fp pe
                                   (m\<lparr>mn_server := v, mn_events := mn_events m @ [Ev_Start (Inr ())]\<rparr>));
                            m2 = m1\<lparr>mn_out := Logger_Info (Logger_Default TextLogger)
                                    ''Press Enter to stop the server...'' (mn_out m1),
                                  mn_server := v\<lparr>sv_lifecycle := pc_wait pe (sv_lifecycle v)\<rparr>\<rparr>
                        in return_from 0 (leave_scope (destroy_local fp pe) locals m2))"

section \<open>The echo server\<close>

record EchoProgramEnv = ServerProgramEnv +
  pw_wait :: "unit ServerLifeCycle \<Rightarrow> unit ServerLifeCycle"

record EchoProgram =
  en_server :: EchoServer
  en_events :: "ProgramEvent list"
  en_out :: string

datatype EchoLocal = Local_echoListener "WindowsAsyncSocket option" | Local_echoServer

text \<open>\<open>Stop\<close> does something only while there is a lifecycle.\<close>

definition stop_echo :: "EchoProgram \<Rightarrow> EchoProgram" where
  "stop_echo m =
     (if eo_lifecycle (en_server m) = None then m
      else m\<lparr>en_server := fst (EchoServer_Stop (en_server m)), en_events := en_events m @ [Ev_Stop]\<rparr>)"

fun destroy_echo_local :: "EchoProgramEnv \<Rightarrow> EchoLocal \<Rightarrow> EchoProgram \<Rightarrow> EchoProgram option" where
  "destroy_echo_local pe Local_echoServer m = Some (stop_echo m)"
| "destroy_echo_local pe (Local_echoListener ls) m =
     Some (m\<lparr>en_events := destroy_listener (pe_sys pe) ls (en_events m)\<rparr>)"

definition echo_start_with ::
  "EchoProgramEnv \<Rightarrow> WindowsAsyncSocket option \<Rightarrow> EchoServer \<Rightarrow> crash + ((ENetworkError + unit) \<times> EchoServer)" where
  "echo_start_with pe listenSocket v =
     (case listenSocket of
        Some s \<Rightarrow>
          if Start_throws (pe_start pe) (pe_pool pe) (GetSocketHandle s) (eo_config v) (sl_callbacks (idle_server ()))
          then Inl PoolLengthError
          else Inr (EchoServer_Start (pe_start pe) (pe_pool pe) (GetSocketHandle s) v)
      | None \<Rightarrow>
          if has_err (fst (Multiplexer_Initialize (st_iocp (pe_start pe))
               (worker_count (pe_start pe) (eo_config v))
               (fresh_multiplexer (lcb_iocp (sl_callbacks (idle_server ()))))))
          then Inr (EchoServer_Start (pe_start pe) (pe_pool pe) InvalidSocket v)
          else Inl NullListener)"

definition echo_main :: "EchoProgramEnv \<Rightarrow> EchoProgram outcome" where
  "echo_main pe =
     (case NetworkCfg_FromFile (variables pe) (pe_file pe) of
        Inl _ \<Rightarrow> Crash UncaughtConfigError
      | Inr None \<Rightarrow> Crash ConfigOverflow
      | Inr (Some c) \<Rightarrow>
          case run_state (MakeDefaultListener (pe_sys pe) TCP c) [] of
            (listenSocket, calls) \<Rightarrow>
              let es = EchoServer_new c;
                  locals = [Local_echoListener listenSocket, Local_echoServer];
                  m = \<lparr>en_server = es, en_events = map Ev_Winsock calls, en_out = []\<rparr>
              in case echo_start_with pe listenSocket es of
                   Inl e \<Rightarrow> Crash e
                 | Inr (Inl e, v) \<Rightarrow>
                     return_from (-1) (leave_scope (destroy_echo_local pe) locals
                       (m\<lparr>en_server := v, en_events := en_events m @ [Ev_Start (Inl e)],
                          en_out := Logger_Error (Logger_Default TextLogger) ''Failed to start server.'' (en_out m)\<rparr>))
                 | Inr (Inr _, v) \<Rightarrow>
                     let m1 = m\<lparr>en_server := v\<lparr>eo_lifecycle := map_option (pw_wait pe) (eo_lifecycle v)\<rparr>,
                                en_events := en_events m @ [Ev_Start (Inr ())],
                                en_out := Logger_Info (Logger_Default TextLogger)
                                  ''Press Enter to stop the server...'' (en_out m)\<rparr>
                     in return_from 0 (leave_scope (destroy_echo_local pe) locals (stop_echo m1)))"

section \<open>The threads leave the flags of the game loop alone\<close>

definition app_flags :: "GameLoop \<Rightarrow> bool \<times> bool" where
  "app_flags g = (gl_hasStopped g, gl_logicThread g)"

lemma OnAcceptComplete_state:
  assumes "OnAcceptComplete t ok env cb x (a, s) = (r, a', s', outs)"
  shows "s' = s \<or> (\<exists>f h. cb = Some f \<and> s' = f h s)"
  using assms by (auto simp: OnAcceptComplete_def Let_def split: option.splits if_splits prod.splits)

lemma OnCompletion_app:
  assumes acc: "\<And>i s. g (sl_app (rv_OnAccept rv i s)) = g (sl_app s)"
    and rcv: "\<And>i d s. g (sl_app (rv_OnRecv rv i d s)) = g (sl_app s)"
    and sent: "\<And>i n s. g (sl_app (rv_OnSend rv i n s)) = g (sl_app s)"
    and dis: "\<And>i s. g (sl_app (rv_OnDisconnect rv i s)) = g (sl_app s)"
  shows "g (sl_app (OnCompletion (Some rv) cenv ev s)) = g (sl_app s)"
proof -
  have post: "sl_app s' = sl_app u" if "post_recv r e i u = (res, s')" for r e i res s' and u :: "'a ServerLifeCycle"
    using client_op_app(2) [of r e i u] that by simp
  have close: "sl_app (CloseClient c u) = sl_app u" for c and u :: "'a ServerLifeCycle"
    by (simp add: CloseClient_def split: option.splits)
  have setup_app: "g (sl_app (SetupClient (Some rv) env h u)) = g (sl_app u)" for env h u
    by (auto simp: setup_defs Let_def acc split: option.splits sum.splits prod.splits dest!: post)
  have recv: "g (sl_app (HandleRecv (Some rv) env ev u)) = g (sl_app u)" for env u
    by (auto simp: HandleRecv_def Let_def rcv dis close split: option.splits sum.splits prod.splits dest!: post)
  show ?thesis
  proof (cases "ev_ioType ev")
    case Accept
    then show ?thesis
      by (auto simp: OnCompletion_def setup_app split: option.splits prod.splits dest!: OnAcceptComplete_state)
  qed (auto simp: OnCompletion_def recv HandleSend_def sent Let_def split: option.splits)
qed

lemma GameLoop_Tick_flags: "app_flags (sl_app (GameLoop_Tick env ns s)) = app_flags (sl_app s)"
  by (simp add: GameLoop_Tick_def app_flags_def with_app_def split: prod.splits)

lemma server_step_flags:
  assumes "server_step env ns s s'"
  shows "app_flags (sl_app s') = app_flags (sl_app s)"
  using assms
proof cases
  case (completion ev cenv)
  have "app_flags (sl_app (GameLoop_Receive env ns i d u)) = app_flags (sl_app u)" for i d u
    by (auto simp: GameLoop_Receive_def app_flags_def on_app_def split: prod.splits)
  then show ?thesis
    unfolding completion
    by (intro OnCompletion_app)
       (simp_all add: chat_receiver_def Server_OnAccept_def GameLoop_Connect_def Server_OnRecv_def Server_OnSend_def
         Server_OnDisconnect_def GameLoop_Disconnect_def app_flags_def on_app_def)
next
  case (round t0 t1)
  have log: "app_flags (sl_app (log_event e u)) = app_flags (sl_app u)" for e u
    by (simp add: log_event_def on_app_def app_flags_def)
  show ?thesis unfolding round by (simp add: update_round_def Let_def log GameLoop_Tick_flags)
qed

lemma server_steps_flags: "(server_step env ns)\<^sup>*\<^sup>* s s' \<Longrightarrow> app_flags (sl_app s') = app_flags (sl_app s)"
  by (induction rule: rtranclp_induct) (auto dest: server_step_flags)

section \<open>The pieces of a run\<close>

lemma Writer_Start_fresh:
  assumes "Writer_Start fp takeSnapshot env w = (ok, w')" and "\<not> sw_running w" and "\<not> sw_worker w"
  shows "(sw_running w' \<longrightarrow> sw_worker w') \<and> sw_config w' = sw_config w \<and> (ok \<and> mcfg_enabled (sw_config w) \<longrightarrow> sw_worker w')"
  using assms
  by (auto simp: Writer_Start_def Let_def InitializeArtifacts_def WriteManifest_def CaptureAndWriteSnapshot_def write_file_def
      split: option.splits bool.splits prod.splits if_splits)

lemma Start_app:
  assumes "Start se pool h cfg s = (res, s')"
  shows "sl_app s' = sl_app s"
  using assms by (auto simp: Start_def Let_def split: sum.splits prod.splits option.splits)

lemma update_begin_flags: "app_flags (sl_app (update_begin t s)) = app_flags (sl_app s)"
  by (simp add: update_begin_def log_event_def on_app_def app_flags_def)

lemma Server_Start_fields:
  assumes "Server_Start env ns se pool t h v = (res, v')"
  shows "sv_hasLifecycle v' \<and> sv_hasGameLoop v' = sv_hasGameLoop v \<and> sv_callbacks v' = sv_callbacks v
    \<and> sv_events v' = sv_events v @ (if \<not> has_err res \<and> scb_onStarted (sv_callbacks v) then [OnStarted] else [])
    \<and> gl_hasStopped (sl_app (sv_lifecycle v')) = gl_hasStopped (sl_app (sv_lifecycle v))"
proof -
  let ?fresh = "Lifecycle_UseCallbacks (scb_lifecycle (sv_callbacks v)) (idle_server (sl_app (sv_lifecycle v)))"
  obtain r s where st: "Start se pool h (sv_config v) ?fresh = (r, s)" by fastforce
  have app: "sl_app s = sl_app (sv_lifecycle v)"
    using Start_app [OF st] by (simp add: Lifecycle_UseCallbacks_def idle_server_def)
  have "gl_hasStopped (sl_app (GameLoop_Start env ns t s)) = gl_hasStopped (sl_app s)"
    using update_begin_flags [of t] GameLoop_Tick_flags [of env ns s]
    by (auto simp: GameLoop_Start_def LogicThread_Exec_def LogicThread_Exit_def update_end_def on_app_def app_flags_def)
  then show ?thesis using assms st app by (auto simp: Server_Start_def Let_def split: sum.splits)
qed

text \<open>A server that has been stopped: nothing of it runs or is held.\<close>

definition stopped_server :: "Server \<Rightarrow> bool" where
  "stopped_server v \<longleftrightarrow> \<not> sv_hasLifecycle v \<and> \<not> sv_hasGameLoop v \<and> sv_hasStopped v
     \<and> sl_clientPool (sv_lifecycle v) = [] \<and> \<not> gl_logicThread (sl_app (sv_lifecycle v))"

lemma Server_Stop_stopped:
  assumes "sv_hasLifecycle v" and "sv_hasGameLoop v" and "\<not> gl_hasStopped (sl_app (sv_lifecycle v))"
  shows "stopped_server (Server_Stop env ns last_owner v)
    \<and> sv_events (Server_Stop env ns last_owner v) = sv_events v @ (if scb_onStopping (sv_callbacks v) then [OnStopping] else [])
    \<and> sv_callbacks (Server_Stop env ns last_owner v) = sv_callbacks v"
proof -
  have "\<not> gl_logicThread (sl_app (GameLoop_Stop env ns u))" if "\<not> gl_hasStopped (sl_app u)" for u
    using that by (simp add: GameLoop_Stop_def LogicThread_Exit_def on_app_def)
  moreover have "sl_app (Stop_release last_owner (sv_lifecycle v)) = sl_app (sv_lifecycle v)" by (rule Stop_release_app)
  ultimately show ?thesis using assms by (simp add: stopped_server_def Server_Stop_eq Let_def)
qed

lemma stop_writer_outcome:
  assumes "wrd_stop (pc_rounds pe n)" and "sw_running (mn_writer m) \<longrightarrow> sw_worker (mn_writer m)"
  obtains w where "stop_writer fp pe m = Some (m\<lparr>mn_writer := w\<rparr>)" and "\<not> sw_running w" and "\<not> sw_worker w"
    and "mcfg_enabled (sw_config (mn_writer m)) \<and> sw_worker (mn_writer m) \<longrightarrow> man_finishedAt (sw_manifest w) \<noteq> None"
  using Writer_Stop_outcome [where rounds = "pc_rounds pe" and n = n and w = "mn_writer m" and fp = fp
      and takeSnapshot = "live_snapshot (pc_calls pe)" and env = "pc_writerStop pe"] assms that
  by (auto simp: stop_writer_def)

lemma destroy_stopped_writer: "\<not> sw_running w \<Longrightarrow> \<not> sw_worker w \<Longrightarrow> Writer_destroy fp takeSnapshot rounds env w = Some w"
  by (simp add: Writer_destroy_def Writer_Stop_def)

lemma winsock_calls: "concat (map (\<lambda>x. case x of Ev_Winsock c \<Rightarrow> [c] | _ \<Rightarrow> []) (map Ev_Winsock calls)) = calls"
  by (induction calls) simp_all

lemma destroy_listener_open:
  assumes "was_socketHandle ls \<noteq> InvalidSocket" and "was_wsaStarted ls"
  shows "destroy_listener sys (Some ls) (map Ev_Winsock calls @ [Ev_Start res])
    = map Ev_Winsock calls @ [Ev_Start res, Ev_Winsock (CallClose (was_socketHandle ls)), Ev_Winsock CallCleanup]"
  using was_Cleanup_open [OF assms] winsock_calls [of calls] by (simp add: destroy_listener_def)

text \<open>Leaving the scope of the chat server's \<open>main\<close>.\<close>

lemma leave_chat_scope:
  assumes "was_socketHandle ls \<noteq> InvalidSocket" and "was_wsaStarted ls"
    and "mn_events m = map Ev_Winsock calls @ [Ev_Start res]"
    and "wrd_stop (pc_rounds pe n)" and "sw_running (mn_writer m) \<longrightarrow> sw_worker (mn_writer m)"
    and "sv_hasLifecycle (mn_server m)" and "sv_hasGameLoop (mn_server m)" and "scb_onStopping (sv_callbacks (mn_server m))"
    and "\<not> gl_hasStopped (sl_app (pc_closing pe (sv_lifecycle (mn_server m))))"
  obtains m' where "leave_scope (destroy_local fp pe) [Local_metricsWriter, Local_server,
      Local_defer (Defer_new Fn_StopServer), Local_listenSocket (Some ls)] m = Some m'"
    and "mn_events m' = mn_events m @ [Ev_Winsock (CallClose (was_socketHandle ls)), Ev_Winsock CallCleanup, Ev_Stop]"
    and "stopped_server (mn_server m')" and "sv_events (mn_server m') = sv_events (mn_server m) @ [OnStopping]"
    and "\<not> sw_running (mn_writer m')" and "\<not> sw_worker (mn_writer m')" and "mn_err m' = mn_err m" and "mn_out m' = mn_out m"
    and "mcfg_enabled (sw_config (mn_writer m)) \<and> sw_worker (mn_writer m) \<longrightarrow> man_finishedAt (sw_manifest (mn_writer m')) \<noteq> None"
proof -
  define v where "v = (mn_server m)\<lparr>sv_lifecycle := pc_closing pe (sv_lifecycle (mn_server m))\<rparr>"
  define m1 where "m1 = m\<lparr>mn_events := destroy_listener (pe_sys pe) (Some ls) (mn_events m), mn_server := v\<rparr>"
  define v2 where "v2 = Server_Stop (pc_chat pe) (pc_ns pe) (pe_lastOwner pe) v"
  define m2 where "m2 = m1\<lparr>mn_server := v2, mn_events := mn_events m1 @ [Ev_Stop]\<rparr>"
  have v2: "stopped_server v2" "sv_events v2 = sv_events (mn_server m) @ [OnStopping]" "scb_onStopping (sv_callbacks v2)"
    using Server_Stop_stopped [of v "pc_chat pe" "pc_ns pe" "pe_lastOwner pe"] assms(6-9) by (simp_all add: v_def v2_def)
  have w: "mn_writer m2 = mn_writer m" by (simp add: m2_def m1_def)
  obtain w' where w': "stop_writer fp pe m2 = Some (m2\<lparr>mn_writer := w'\<rparr>)" "\<not> sw_running w'" "\<not> sw_worker w'"
      "mcfg_enabled (sw_config (mn_writer m)) \<and> sw_worker (mn_writer m) \<longrightarrow> man_finishedAt (sw_manifest w') \<noteq> None"
    using stop_writer_outcome [OF assms(4), of m2 fp] assms(5) unfolding w by blast
  have "stop_server fp pe m1 = Some (m2\<lparr>mn_writer := w'\<rparr>)"
    using v2(3) w'(1) by (simp add: stop_server_def Let_def m1_def m2_def v2_def)
  then have "leave_scope (destroy_local fp pe) [Local_metricsWriter, Local_server, Local_defer (Defer_new Fn_StopServer),
      Local_listenSocket (Some ls)] m = Some (m2\<lparr>mn_writer := w'\<rparr>)"
    using v2(1) destroy_stopped_writer [OF w'(2,3)]
    by (simp add: Let_def m1_def v_def Defer_new_def Defer_destroy_def stopped_server_def m2_def)
  then show ?thesis
    using that v2 w' destroy_listener_open [OF assms(1,2), of "pe_sys pe" calls res] assms(3)
    by (simp add: m2_def m1_def)
qed

section \<open>Properties of the programs\<close>

definition program_server :: "ChatProgramEnv \<Rightarrow> NetworkCfg \<Rightarrow> Server" where
  "program_server pe c = main_server (pc_chat pe) (Some metrics_call) (of_int (nc_maxCapacity c)) c"

lemma program_server_fields:
  "sv_hasGameLoop (program_server pe c)" "sv_events (program_server pe c) = []" "sv_config (program_server pe c) = c"
  "scb_onStarted (sv_callbacks (program_server pe c))" "scb_onStopping (sv_callbacks (program_server pe c))"
  "\<not> gl_hasStopped (sl_app (sv_lifecycle (program_server pe c)))"
  by (simp_all add: program_server_def main_server_def Server_UseCallbacks_def MakeMetricsCallbacksBundle_def
      GameLoop_UseCallbacks_def GameLoop_new_def idle_server_def Let_def)

lemma new_writer_idle:
  "\<not> sw_running (ServerMetricsWriter_new fp metrics config manifest files)"
  "\<not> sw_worker (ServerMetricsWriter_new fp metrics config manifest files)"
  "sw_config (ServerMetricsWriter_new fp metrics config manifest files) = config"
  by (simp_all add: ServerMetricsWriter_new_def)

lemma on_started_outcome:
  assumes "\<not> sw_running (mn_writer m)" and "\<not> sw_worker (mn_writer m)"
  obtains w err where "on_started fp pe m = m\<lparr>mn_writer := w, mn_err := mn_err m @ err\<rparr>"
    and "sw_running w \<longrightarrow> sw_worker w" and "sw_config w = sw_config (mn_writer m)"
    and "err = [] \<and> mcfg_enabled (sw_config (mn_writer m)) \<longrightarrow> sw_worker w"
proof -
  obtain ok w where st: "Writer_Start fp (live_snapshot (pc_calls pe)) (pc_writerStart pe) (mn_writer m) = (ok, w)"
    by fastforce
  note w = Writer_Start_fresh [OF st assms]
  show ?thesis
  proof (cases ok)
    case True
    then show ?thesis using that [where w = w and err = "[]"] w st by (simp add: on_started_def)
  next
    case False
    then show ?thesis
      using that [where w = w and err = "''Failed to start server metrics writer: '' @ Writer_LastError w @ [CHR 0x0A]"] w st
      by (simp add: on_started_def)
  qed
qed

text \<open>The state right after \<open>Start\<close>, and the two ways on from there.\<close>

definition after_start ::
  "'d Fp \<Rightarrow> (string \<Rightarrow> string) \<Rightarrow> ChatProgramEnv \<Rightarrow> NetworkCfg \<Rightarrow> SockCall list \<Rightarrow> ENetworkError + unit \<Rightarrow> Server \<Rightarrow> 'd ChatProgram" where
  "after_start fp files pe c calls res v =
     \<lparr>mn_server = v,
      mn_writer = ServerMetricsWriter_new fp (make_metrics (Server_FromEnvironment (pe_getenv pe)))
        (Server_FromEnvironment (pe_getenv pe)) (server_manifest (pe_debug pe) c) files,
      mn_events = map Ev_Winsock calls @ [Ev_Start res], mn_out = [], mn_err = []\<rparr>"

definition refused :: "'d ChatProgram \<Rightarrow> 'd ChatProgram" where
  "refused m = m\<lparr>mn_out := Logger_Error (Logger_Default TextLogger) ''Failed to start server.'' (mn_out m)\<rparr>"

definition waited :: "'d Fp \<Rightarrow> ChatProgramEnv \<Rightarrow> 'd ChatProgram \<Rightarrow> 'd ChatProgram" where
  "waited fp pe m =
     (let m1 = on_logic_thread_started (pc_thread pe) (on_started fp pe m)
      in m1\<lparr>mn_out := Logger_Info (Logger_Default TextLogger) ''Press Enter to stop the server...'' (mn_out m1),
            mn_server := (mn_server m)\<lparr>sv_lifecycle := pc_wait pe (sv_lifecycle (mn_server m))\<rparr>\<rparr>)"

abbreviation chat_locals :: "WindowsAsyncSocket option \<Rightarrow> ChatLocal list" where
  "chat_locals ls \<equiv> [Local_metricsWriter, Local_server, Local_defer (Defer_new Fn_StopServer), Local_listenSocket ls]"

lemma chat_main_unfold:
  assumes "NetworkCfg_FromFile (variables pe) (pe_file pe) = Inr (Some c)"
    and "run_state (MakeDefaultListener (pe_sys pe) TCP c) [] = (Some ls, calls)"
    and "Server_Start (pc_chat pe) (pc_ns pe) (pe_start pe) (pe_pool pe) (pc_thread pe) (GetSocketHandle ls)
      (program_server pe c) = (res, v)"
    and "0 \<le> nc_maxClients c"
  shows "chat_main fp files pe =
    (if has_err res then return_from (-1) (leave_scope (destroy_local fp pe) (chat_locals (Some ls))
        (refused (after_start fp files pe c calls res v)))
     else return_from 0 (leave_scope (destroy_local fp pe) (chat_locals (Some ls))
        (waited fp pe (after_start fp files pe c calls res v))))"
proof -
  have "start_with pe (Some ls) (program_server pe c) = Inr (res, v)"
    using assms(3,4) by (simp add: start_with_def Start_throws_def program_server_fields)
  then show ?thesis
    by (cases res) (simp_all del: leave_scope.simps add: chat_main_def assms(1,2) Let_def program_server_def [symmetric] after_start_def
        refused_def waited_def on_started_def on_logic_thread_started_def split: prod.splits bool.splits)
qed

text \<open>Both ways satisfy what leaving the scope asks for.\<close>

lemma way_on:
  assumes "sv_hasLifecycle v" and "sv_hasGameLoop v" and "scb_onStopping (sv_callbacks v)"
    and "\<not> gl_hasStopped (sl_app (sv_lifecycle v))"
    and "\<And>s. (server_step (pc_chat pe) (pc_ns pe))\<^sup>*\<^sup>* s (pc_wait pe s)"
    and "m = (if has_err res then refused else waited fp pe) (after_start fp files pe c calls res v)"
  shows "mn_events m = map Ev_Winsock calls @ [Ev_Start res] \<and> sv_events (mn_server m) = sv_events v
    \<and> sv_hasLifecycle (mn_server m) \<and> sv_hasGameLoop (mn_server m) \<and> scb_onStopping (sv_callbacks (mn_server m))
    \<and> \<not> gl_hasStopped (sl_app (sv_lifecycle (mn_server m)))
    \<and> (sw_running (mn_writer m) \<longrightarrow> sw_worker (mn_writer m))
    \<and> sw_config (mn_writer m) = Server_FromEnvironment (pe_getenv pe)
    \<and> (\<not> has_err res \<and> mn_err m = [] \<and> mcfg_enabled (Server_FromEnvironment (pe_getenv pe)) \<longrightarrow> sw_worker (mn_writer m))"
proof -
  let ?m0 = "after_start fp files pe c calls res v"
  have m0: "\<not> sw_running (mn_writer ?m0)" "\<not> sw_worker (mn_writer ?m0)" "mn_err ?m0 = []" "mn_server ?m0 = v"
      "sw_config (mn_writer ?m0) = Server_FromEnvironment (pe_getenv pe)"
      "mn_events ?m0 = map Ev_Winsock calls @ [Ev_Start res]"
    by (simp_all add: after_start_def new_writer_idle)
  have wait: "\<not> gl_hasStopped (sl_app (pc_wait pe (sv_lifecycle v)))"
    using server_steps_flags [OF assms(5), of "sv_lifecycle v"] assms(4) by (simp add: app_flags_def)
  obtain w err where "on_started fp pe ?m0 = ?m0\<lparr>mn_writer := w, mn_err := mn_err ?m0 @ err\<rparr>" "sw_running w \<longrightarrow> sw_worker w"
      "sw_config w = sw_config (mn_writer ?m0)" "err = [] \<and> mcfg_enabled (sw_config (mn_writer ?m0)) \<longrightarrow> sw_worker w"
    using on_started_outcome [OF m0(1,2), of fp pe] by metis
  then show ?thesis
    using assms(1-4,6) m0 wait
    by (auto simp: refused_def waited_def on_logic_thread_started_def Writer_SetLogicThreadId_def Let_def)
qed


text \<open>The echo server declares its listening socket before the server and calls
  \<open>Stop\<close> itself: there the server is stopped before the socket is closed and Winsock
  ended.\<close>

lemma echo_main_returns:
  assumes "NetworkCfg_FromFile (variables pe) (pe_file pe) = Inr (Some c)"
    and "run_state (MakeDefaultListener (pe_sys pe) TCP c) [] = (Some ls, calls)"
    and "EchoServer_Start (pe_start pe) (pe_pool pe) (GetSocketHandle ls) (EchoServer_new c) = (res, v)"
    and "0 \<le> nc_maxClients c"
  shows "\<exists>m. echo_main pe = Exit (if has_err res then -1 else 0) m
    \<and> en_events m = map Ev_Winsock calls @ [Ev_Start res, Ev_Stop, Ev_Winsock (CallClose (GetSocketHandle ls)), Ev_Winsock CallCleanup]
    \<and> eo_lifecycle (en_server m) = None"
proof -
  have opened: "was_socketHandle ls \<noteq> InvalidSocket" "was_wsaStarted ls" using MakeDefaultListener_open [OF assms(2)] by simp_all
  have config: "eo_config (EchoServer_new c) = c" by (simp add: EchoServer_new_def)
  obtain s where v: "eo_lifecycle v = Some s" using assms(3) by (auto simp: EchoServer_Start_def split: prod.splits)
  have stop: "stop_echo m = m\<lparr>en_server := (en_server m)\<lparr>eo_lifecycle := None\<rparr>, en_events := en_events m @ [Ev_Stop]\<rparr>"
    if "eo_lifecycle (en_server m) = Some u" for m u using that by (simp add: stop_echo_def EchoServer_Stop_def)
  have idle: "stop_echo m = m" if "eo_lifecycle (en_server m) = None" for m using that by (simp add: stop_echo_def)
  have listener: "destroy_listener sys (Some ls) (map Ev_Winsock calls @ [Ev_Start r, Ev_Stop])
      = map Ev_Winsock calls @ [Ev_Start r, Ev_Stop, Ev_Winsock (CallClose (GetSocketHandle ls)), Ev_Winsock CallCleanup]" for sys r
    using was_Cleanup_open [OF opened] winsock_calls [of calls] by (simp add: destroy_listener_def GetSocketHandle_def)
  show ?thesis
    using v assms(4) config
    by (cases res) (auto simp: echo_main_def assms(1,2,3) echo_start_with_def Start_throws_def Let_def return_from_def stop
        idle listener)
qed

lemma base_fields:
  "pe_file (ServerProgramEnv.extend e z) = pe_file e" "pe_sys (ServerProgramEnv.extend e z) = pe_sys e"
  "pe_start (ServerProgramEnv.extend e z) = pe_start e" "variables (ServerProgramEnv.extend e z) = variables e"
  by (simp_all add: variables_def [abs_def] ServerProgramEnv.defs)

text \<open>C34: when the configured port cannot be bound, for example because it is in use,
  both servers end by using a null pointer instead of reporting the failure:
  \<open>MakeDefaultListener\<close> returns null, and \<open>ServerLifeCycle::Start\<close> asks the null socket
  for its handle.\<close>

theorem port_in_use_crashes:
  fixes e :: ServerProgramEnv
  assumes "NetworkCfg_FromFile (variables e) (pe_file e) = Inr (Some c)"
    and "sy_ret (pe_sys e) 0 = 0" and "sy_socket (pe_sys e) 1 \<noteq> InvalidSocket"
    and "IsValidPort (of_int (nc_port c))" and "sy_ret (pe_sys e) 4 \<noteq> 0"
    and "st_iocp (pe_start e) \<noteq> None"
  shows "chat_main fp files (ServerProgramEnv.extend e x) = Crash NullListener
    \<and> echo_main (ServerProgramEnv.extend e y) = Crash NullListener"
proof -
  have "fst (run_state (MakeDefaultListener (pe_sys e) TCP c) []) = None"
    using assms(2-5)
    by (simp add: MakeDefaultListener_def was_Initialize_def was_new_def was_CreateSocket_def give_up_def was_Cleanup_def
        SetReuseAddr_def SetSendBufferSize_def was_Bind_def numeral_eq_Suc)
  then obtain calls where "run_state (MakeDefaultListener (pe_sys e) TCP c) [] = (None, calls)"
    by (metis prod.collapse)
  then show ?thesis
    using assms(1,6)
    by (auto simp: chat_main_def echo_main_def base_fields start_with_def echo_start_with_def Multiplexer_Initialize_def Let_def)
qed

text \<open>A configured \<open>max_clients\<close> below zero is not refused either: both servers end with
  the exception of \<open>reserve\<close>, after the completion port and the acceptor were set up.\<close>

lemma negative_max_clients_crashes:
  fixes e :: ServerProgramEnv
  assumes "NetworkCfg_FromFile (variables e) (pe_file e) = Inr (Some c)"
    and "run_state (MakeDefaultListener (pe_sys e) TCP c) [] = (Some ls, calls)"
    and "st_iocp (pe_start e) = Some p" and "st_listenPort (pe_start e) = Some p"
    and "st_ioctl1 (pe_start e) \<noteq> SocketError" and "st_ioctl2 (pe_start e) \<noteq> SocketError"
    and "nc_maxClients c < 0"
  shows "chat_main fp files (ServerProgramEnv.extend e x) = Crash PoolLengthError
    \<and> echo_main (ServerProgramEnv.extend e y) = Crash PoolLengthError"
proof -
  have "Start_throws (pe_start e) pool h c cbs" for pool h cbs
    using assms(3-7)
    by (simp add: Start_throws_def Multiplexer_Initialize_def Acceptor_Initialize_def LoadAcceptExFunctions_def GetHandle_def Let_def)
  moreover have "sv_config (main_server ce mi cap c) = c" for ce and mi :: "IServerMetrics metrics_impl option" and cap
    by (simp add: main_server_def Server_UseCallbacks_def MakeMetricsCallbacksBundle_def GameLoop_UseCallbacks_def Let_def)
  ultimately show ?thesis
    using assms(1,2)
    by (simp add: chat_main_def echo_main_def base_fields start_with_def echo_start_with_def EchoServer_new_def Let_def)
qed

definition demo_base :: "(nat \<Rightarrow> int) \<Rightarrow> ServerProgramEnv" where
  "demo_base ret = \<lparr>pe_file = Some [], pe_getenv = (\<lambda>_. None), pe_debug = True,
     pe_sys = \<lparr>sy_ret = ret, sy_socket = (\<lambda>_. 21), sy_lastError = (\<lambda>_. WSAEINVAL)\<rparr>,
     pe_start = \<lparr>st_concurrency = 4, st_iocp = Some 1, st_listenPort = Some 1, st_ioctl1 = 0, st_ioctl2 = 0, st_accepts = []\<rparr>,
     pe_pool = HybridObjectPool_init, pe_lastOwner = (\<lambda>_. True)\<rparr>"

lemma demo_base_config: "NetworkCfg_FromFile (variables (demo_base ret)) (pe_file (demo_base ret)) = Inr (Some WithDefaults)"
proof -
  have "Parse [] = []" by (simp add: Parse_def parse_lines.simps)
  then show ?thesis
    by (simp add: NetworkCfg_FromFile_def Config_FromFile_def FromCfg_def Config_Int_def lookup_with_def FindInt_def
        demo_base_def WithDefaults_def variables_def Let_def)
qed

lemma port_in_use_crashes_witness:
  "\<forall>x y. chat_main demo_fp (\<lambda>_. []) (ServerProgramEnv.extend (demo_base (\<lambda>k. if k = 4 then -1 else 0)) x) = Crash NullListener
    \<and> echo_main (ServerProgramEnv.extend (demo_base (\<lambda>k. if k = 4 then -1 else 0)) y) = Crash NullListener"
  by (intro allI port_in_use_crashes [OF demo_base_config])
     (simp_all add: demo_base_def WithDefaults_def IsValidPort_def InvalidSocket_def)

definition demo_program :: ChatProgramEnv where
  "demo_program = ServerProgramEnv.extend (demo_base (\<lambda>_. 0)) (ChatProgramEnv.fields demo_env (\<lambda>_. 0) 3 id id (\<lambda>_. [])
     \<lparr>ws_now = 5, ws_processId = 7, ws_createError = None, ws_manifest = \<lparr>fe_open = True, fe_good = True\<rparr>,
      ws_capture = demo_capture, ws_threadError = None\<rparr>
     demo_rounds
     \<lparr>wz_now = 9, wz_capture = demo_capture, wz_manifest = \<lparr>fe_open = True, fe_good = True\<rparr>, wz_summaryOpen = True\<rparr>)"

lemma demo_program_fields:
  "variables demo_program = variables (demo_base (\<lambda>_. 0))" "pe_file demo_program = pe_file (demo_base (\<lambda>_. 0))"
  "pe_sys demo_program = demo_sys" "pc_rounds demo_program = demo_rounds" "pc_wait demo_program = id" "pc_closing demo_program = id"
  by (simp_all add: demo_program_def ServerProgramEnv.defs ChatProgramEnv.defs variables_def [abs_def] demo_base_def demo_sys_def)


end
