(* ===== verification/ClientWriter.thy ===== *)
theory ClientWriter
  imports ServerWriter ClientMetrics
begin

text \<open>
  The client's metrics writer, \<open>ClientMetricsWriter\<close> (lib/src/metrics/client).  It has
  the same thread loop as the server's and its own records, sampling, JSON line
  and summary.  Clocks, files and process counters are arguments, as in
  ServerWriter; \<open>previous\<close> is the pointer that may be null.
\<close>

section \<open>Records\<close>

record 'd ClientSnapshotRecord =
  kr_capturedAt :: ticks
  kr_connectSuccessTotal :: uint64
  kr_connectFailureTotal :: uint64
  kr_disconnectTotal :: uint64
  kr_sendPacketsTotal :: uint64
  kr_recvPacketsTotal :: uint64
  kr_sendBytesTotal :: uint64
  kr_recvBytesTotal :: uint64
  kr_sendFailTotal :: uint64
  kr_responseTimeoutTotal :: uint64
  kr_packetValidationTotal :: uint64
  kr_packetValidationFailureTotal :: uint64
  kr_disconnectTimeoutTotal :: uint64
  kr_disconnectServerCloseTotal :: uint64
  kr_disconnectRecvFailTotal :: uint64
  kr_disconnectLocalCloseTotal :: uint64
  kr_connected :: int64
  kr_pendingRequestCount :: uint32
  kr_connectLatencyMsAvg :: 'd
  kr_connectLatencyMsMax :: 'd
  kr_requestRttMsAvg :: 'd
  kr_requestRttMsMax :: 'd
  kr_lastConnectLatencyMs :: 'd
  kr_currentSessionUptimeMs :: uint64
  kr_lastSessionUptimeMs :: uint64
  kr_maxSessionUptimeMs :: uint64
  kr_timeSinceLastRecvMs :: uint64
  kr_lastDisconnectReason :: ClientDisconnectReason
  kr_processCpuPercent :: 'd
  kr_threadCount :: uint32

definition ClientSnapshotRecord_zero :: "'d Fp \<Rightarrow> 'd ClientSnapshotRecord" where
  "ClientSnapshotRecord_zero fp =
     \<lparr>kr_capturedAt = 0, kr_connectSuccessTotal = 0, kr_connectFailureTotal = 0, kr_disconnectTotal = 0,
      kr_sendPacketsTotal = 0, kr_recvPacketsTotal = 0, kr_sendBytesTotal = 0, kr_recvBytesTotal = 0,
      kr_sendFailTotal = 0, kr_responseTimeoutTotal = 0, kr_packetValidationTotal = 0,
      kr_packetValidationFailureTotal = 0, kr_disconnectTimeoutTotal = 0, kr_disconnectServerCloseTotal = 0,
      kr_disconnectRecvFailTotal = 0, kr_disconnectLocalCloseTotal = 0, kr_connected = 0, kr_pendingRequestCount = 0,
      kr_connectLatencyMsAvg = fp_zero fp, kr_connectLatencyMsMax = fp_zero fp, kr_requestRttMsAvg = fp_zero fp,
      kr_requestRttMsMax = fp_zero fp, kr_lastConnectLatencyMs = fp_zero fp, kr_currentSessionUptimeMs = 0,
      kr_lastSessionUptimeMs = 0, kr_maxSessionUptimeMs = 0, kr_timeSinceLastRecvMs = 0,
      kr_lastDisconnectReason = CDR_None, kr_processCpuPercent = fp_zero fp, kr_threadCount = 0\<rparr>"

definition make_client_record :: "'d Fp \<Rightarrow> 'd ClientMetricsSnapshot \<Rightarrow> 'd \<times> uint32 \<Rightarrow> 'd ClientSnapshotRecord" where
  "make_client_record fp snapshot runtime =
     (case runtime of (cpuPercent, threadCount) \<Rightarrow>
      \<lparr>kr_capturedAt = cs_capturedAt snapshot, kr_connectSuccessTotal = cs_connectSuccessTotal snapshot,
       kr_connectFailureTotal = cs_connectFailureTotal snapshot, kr_disconnectTotal = cs_disconnectTotal snapshot,
       kr_sendPacketsTotal = cs_sendPacketsTotal snapshot, kr_recvPacketsTotal = cs_recvPacketsTotal snapshot,
       kr_sendBytesTotal = cs_sendBytesTotal snapshot, kr_recvBytesTotal = cs_recvBytesTotal snapshot,
       kr_sendFailTotal = cs_sendFailTotal snapshot, kr_responseTimeoutTotal = cs_responseTimeoutTotal snapshot,
       kr_packetValidationTotal = cs_packetValidationTotal snapshot,
       kr_packetValidationFailureTotal = cs_packetValidationFailureTotal snapshot,
       kr_disconnectTimeoutTotal = cs_disconnectTimeoutTotal snapshot,
       kr_disconnectServerCloseTotal = cs_disconnectServerCloseTotal snapshot,
       kr_disconnectRecvFailTotal = cs_disconnectRecvFailTotal snapshot,
       kr_disconnectLocalCloseTotal = cs_disconnectLocalCloseTotal snapshot, kr_connected = cs_connected snapshot,
       kr_pendingRequestCount = cs_pendingRequestCount snapshot,
       kr_connectLatencyMsAvg = TimingAverageMs fp (cs_connectLatency snapshot),
       kr_connectLatencyMsMax = TimingMaxMs fp (cs_connectLatency snapshot),
       kr_requestRttMsAvg = TimingAverageMs fp (cs_requestRtt snapshot),
       kr_requestRttMsMax = TimingMaxMs fp (cs_requestRtt snapshot),
       kr_lastConnectLatencyMs = cs_lastConnectLatencyMs snapshot,
       kr_currentSessionUptimeMs = cs_currentSessionUptimeMs snapshot,
       kr_lastSessionUptimeMs = cs_lastSessionUptimeMs snapshot,
       kr_maxSessionUptimeMs = cs_maxSessionUptimeMs snapshot,
       kr_timeSinceLastRecvMs = cs_timeSinceLastRecvMs snapshot,
       kr_lastDisconnectReason = cs_lastDisconnectReason snapshot, kr_processCpuPercent = cpuPercent,
       kr_threadCount = threadCount\<rparr>)"

record 'd ClientSummaryStats =
  ks_snapshots :: uint64
  ks_avgConnectLatencyMsSum :: 'd
  ks_avgRequestRttMsSum :: 'd
  ks_sendPacketsPerSecSum :: 'd
  ks_recvPacketsPerSecSum :: 'd
  ks_sendBytesPerSecSum :: 'd
  ks_recvBytesPerSecSum :: 'd
  ks_processCpuPercentSum :: 'd
  ks_maxConnectLatencyMs :: 'd
  ks_maxRequestRttMs :: 'd
  ks_maxSendPacketsPerSec :: 'd
  ks_maxRecvPacketsPerSec :: 'd
  ks_maxSendBytesPerSec :: 'd
  ks_maxRecvBytesPerSec :: 'd
  ks_maxProcessCpuPercent :: 'd
  ks_maxSessionUptimeMs :: uint64
  ks_maxTimeSinceLastRecvMs :: uint64
  ks_maxPendingRequestCount :: uint32
  ks_maxThreadCount :: uint32
  ks_connectSuccessTotal :: uint64
  ks_connectFailureTotal :: uint64
  ks_disconnectTotal :: uint64
  ks_sendFailTotal :: uint64
  ks_responseTimeoutTotal :: uint64
  ks_packetValidationFailureTotal :: uint64
  ks_disconnectTimeoutTotal :: uint64
  ks_disconnectServerCloseTotal :: uint64
  ks_disconnectRecvFailTotal :: uint64
  ks_disconnectLocalCloseTotal :: uint64
  ks_lastDisconnectReason :: ClientDisconnectReason

definition ClientSummaryStats_zero :: "'d Fp \<Rightarrow> 'd ClientSummaryStats" where
  "ClientSummaryStats_zero fp =
     \<lparr>ks_snapshots = 0, ks_avgConnectLatencyMsSum = fp_zero fp, ks_avgRequestRttMsSum = fp_zero fp,
      ks_sendPacketsPerSecSum = fp_zero fp, ks_recvPacketsPerSecSum = fp_zero fp, ks_sendBytesPerSecSum = fp_zero fp,
      ks_recvBytesPerSecSum = fp_zero fp, ks_processCpuPercentSum = fp_zero fp, ks_maxConnectLatencyMs = fp_zero fp,
      ks_maxRequestRttMs = fp_zero fp, ks_maxSendPacketsPerSec = fp_zero fp, ks_maxRecvPacketsPerSec = fp_zero fp,
      ks_maxSendBytesPerSec = fp_zero fp, ks_maxRecvBytesPerSec = fp_zero fp, ks_maxProcessCpuPercent = fp_zero fp,
      ks_maxSessionUptimeMs = 0, ks_maxTimeSinceLastRecvMs = 0, ks_maxPendingRequestCount = 0, ks_maxThreadCount = 0,
      ks_connectSuccessTotal = 0, ks_connectFailureTotal = 0, ks_disconnectTotal = 0, ks_sendFailTotal = 0,
      ks_responseTimeoutTotal = 0, ks_packetValidationFailureTotal = 0, ks_disconnectTimeoutTotal = 0,
      ks_disconnectServerCloseTotal = 0, ks_disconnectRecvFailTotal = 0, ks_disconnectLocalCloseTotal = 0,
      ks_lastDisconnectReason = CDR_None\<rparr>"

section \<open>The JSON line\<close>

definition Client_ToPerSecond :: "'d Fp \<Rightarrow> uint64 \<Rightarrow> int \<Rightarrow> 'd" where
  "Client_ToPerSecond fp delta elapsed =
     (let seconds = fp_seconds fp elapsed in
      if fp_le fp seconds (fp_zero fp) then fp_zero fp else fp_div fp (fp_of_uint64 fp delta) seconds)"

text \<open>Rates are 0 without a previous record; the clock is the system clock, in ticks of
  100 ns.\<close>

definition client_rate :: "'d Fp \<Rightarrow> 'd ClientSnapshotRecord \<Rightarrow> 'd ClientSnapshotRecord option \<Rightarrow> ('d ClientSnapshotRecord \<Rightarrow> uint64) \<Rightarrow> 'd" where
  "client_rate fp rec previous field =
     (case previous of None \<Rightarrow> fp_zero fp
      | Some p \<Rightarrow> Client_ToPerSecond fp (if field rec \<ge> field p then field rec - field p else 0)
                   ((int (kr_capturedAt rec) - int (kr_capturedAt p)) * 100))"

definition Client_BuildSnapshotJson :: "'d Fp \<Rightarrow> 'd ClientSnapshotRecord \<Rightarrow> 'd ClientSnapshotRecord option \<Rightarrow> string" where
  "Client_BuildSnapshotJson fp rec previous =
     (let rate = client_rate fp rec previous in ''{''
     @ quoted ''ts'' @ '':'' @ quoted (JsonEscape (FormatUtcTime (kr_capturedAt rec))) @ '',''
     @ quoted ''connect_success_total'' @ '':'' @ render_nat (unat (kr_connectSuccessTotal rec)) @ '',''
     @ quoted ''connect_failure_total'' @ '':'' @ render_nat (unat (kr_connectFailureTotal rec)) @ '',''
     @ quoted ''disconnect_total'' @ '':'' @ render_nat (unat (kr_disconnectTotal rec)) @ '',''
     @ quoted ''send_packets_total'' @ '':'' @ render_nat (unat (kr_sendPacketsTotal rec)) @ '',''
     @ quoted ''send_packets_per_sec'' @ '':'' @ FormatNumber fp (rate kr_sendPacketsTotal) @ '',''
     @ quoted ''recv_packets_total'' @ '':'' @ render_nat (unat (kr_recvPacketsTotal rec)) @ '',''
     @ quoted ''recv_packets_per_sec'' @ '':'' @ FormatNumber fp (rate kr_recvPacketsTotal) @ '',''
     @ quoted ''send_bytes_total'' @ '':'' @ render_nat (unat (kr_sendBytesTotal rec)) @ '',''
     @ quoted ''send_bytes_per_sec'' @ '':'' @ FormatNumber fp (rate kr_sendBytesTotal) @ '',''
     @ quoted ''recv_bytes_total'' @ '':'' @ render_nat (unat (kr_recvBytesTotal rec)) @ '',''
     @ quoted ''recv_bytes_per_sec'' @ '':'' @ FormatNumber fp (rate kr_recvBytesTotal) @ '',''
     @ quoted ''send_fail_total'' @ '':'' @ render_nat (unat (kr_sendFailTotal rec)) @ '',''
     @ quoted ''response_timeout_total'' @ '':'' @ render_nat (unat (kr_responseTimeoutTotal rec)) @ '',''
     @ quoted ''packet_validation_total'' @ '':'' @ render_nat (unat (kr_packetValidationTotal rec)) @ '',''
     @ quoted ''packet_validation_failure_total'' @ '':'' @ render_nat (unat (kr_packetValidationFailureTotal rec)) @ '',''
     @ quoted ''disconnect_timeout_total'' @ '':'' @ render_nat (unat (kr_disconnectTimeoutTotal rec)) @ '',''
     @ quoted ''disconnect_server_close_total'' @ '':'' @ render_nat (unat (kr_disconnectServerCloseTotal rec)) @ '',''
     @ quoted ''disconnect_recv_fail_total'' @ '':'' @ render_nat (unat (kr_disconnectRecvFailTotal rec)) @ '',''
     @ quoted ''disconnect_local_close_total'' @ '':'' @ render_nat (unat (kr_disconnectLocalCloseTotal rec)) @ '',''
     @ quoted ''connected'' @ '':'' @ render_int (sint (kr_connected rec)) @ '',''
     @ quoted ''pending_request_count'' @ '':'' @ render_nat (unat (kr_pendingRequestCount rec)) @ '',''
     @ quoted ''connect_latency_ms_last'' @ '':'' @ FormatNumber fp (kr_lastConnectLatencyMs rec) @ '',''
     @ quoted ''connect_latency_ms_avg'' @ '':'' @ FormatNumber fp (kr_connectLatencyMsAvg rec) @ '',''
     @ quoted ''connect_latency_ms_max'' @ '':'' @ FormatNumber fp (kr_connectLatencyMsMax rec) @ '',''
     @ quoted ''request_rtt_ms_avg'' @ '':'' @ FormatNumber fp (kr_requestRttMsAvg rec) @ '',''
     @ quoted ''request_rtt_ms_max'' @ '':'' @ FormatNumber fp (kr_requestRttMsMax rec) @ '',''
     @ quoted ''current_session_uptime_ms'' @ '':'' @ render_nat (unat (kr_currentSessionUptimeMs rec)) @ '',''
     @ quoted ''last_session_uptime_ms'' @ '':'' @ render_nat (unat (kr_lastSessionUptimeMs rec)) @ '',''
     @ quoted ''max_session_uptime_ms'' @ '':'' @ render_nat (unat (kr_maxSessionUptimeMs rec)) @ '',''
     @ quoted ''time_since_last_recv_ms'' @ '':'' @ render_nat (unat (kr_timeSinceLastRecvMs rec)) @ '',''
     @ quoted ''last_disconnect_reason'' @ '':'' @ quoted (JsonEscape (ToString (kr_lastDisconnectReason rec))) @ '',''
     @ quoted ''process_cpu_percent'' @ '':'' @ FormatNumber fp (kr_processCpuPercent rec) @ '',''
     @ quoted ''thread_count'' @ '':'' @ render_nat (unat (kr_threadCount rec)) @ ''}'')"

section \<open>The summary\<close>

definition ObserveSummary :: "'d Fp \<Rightarrow> 'd ClientSnapshotRecord \<Rightarrow> 'd ClientSnapshotRecord option \<Rightarrow> 'd ClientSummaryStats \<Rightarrow> 'd ClientSummaryStats" where
  "ObserveSummary fp rec previous st =
     (let rate = client_rate fp rec previous in
      \<lparr>ks_snapshots = ks_snapshots st + 1,
       ks_avgConnectLatencyMsSum = fp_add fp (ks_avgConnectLatencyMsSum st) (kr_connectLatencyMsAvg rec),
       ks_avgRequestRttMsSum = fp_add fp (ks_avgRequestRttMsSum st) (kr_requestRttMsAvg rec),
       ks_sendPacketsPerSecSum = fp_add fp (ks_sendPacketsPerSecSum st) (rate kr_sendPacketsTotal),
       ks_recvPacketsPerSecSum = fp_add fp (ks_recvPacketsPerSecSum st) (rate kr_recvPacketsTotal),
       ks_sendBytesPerSecSum = fp_add fp (ks_sendBytesPerSecSum st) (rate kr_sendBytesTotal),
       ks_recvBytesPerSecSum = fp_add fp (ks_recvBytesPerSecSum st) (rate kr_recvBytesTotal),
       ks_processCpuPercentSum = fp_add fp (ks_processCpuPercentSum st) (kr_processCpuPercent rec),
       ks_maxConnectLatencyMs = fp_max fp (ks_maxConnectLatencyMs st) (kr_connectLatencyMsMax rec),
       ks_maxRequestRttMs = fp_max fp (ks_maxRequestRttMs st) (kr_requestRttMsMax rec),
       ks_maxSendPacketsPerSec = fp_max fp (ks_maxSendPacketsPerSec st) (rate kr_sendPacketsTotal),
       ks_maxRecvPacketsPerSec = fp_max fp (ks_maxRecvPacketsPerSec st) (rate kr_recvPacketsTotal),
       ks_maxSendBytesPerSec = fp_max fp (ks_maxSendBytesPerSec st) (rate kr_sendBytesTotal),
       ks_maxRecvBytesPerSec = fp_max fp (ks_maxRecvBytesPerSec st) (rate kr_recvBytesTotal),
       ks_maxProcessCpuPercent = fp_max fp (ks_maxProcessCpuPercent st) (kr_processCpuPercent rec),
       ks_maxSessionUptimeMs = max (ks_maxSessionUptimeMs st) (kr_maxSessionUptimeMs rec),
       ks_maxTimeSinceLastRecvMs = max (ks_maxTimeSinceLastRecvMs st) (kr_timeSinceLastRecvMs rec),
       ks_maxPendingRequestCount = max (ks_maxPendingRequestCount st) (kr_pendingRequestCount rec),
       ks_maxThreadCount = max (ks_maxThreadCount st) (kr_threadCount rec),
       ks_connectSuccessTotal = kr_connectSuccessTotal rec, ks_connectFailureTotal = kr_connectFailureTotal rec,
       ks_disconnectTotal = kr_disconnectTotal rec, ks_sendFailTotal = kr_sendFailTotal rec,
       ks_responseTimeoutTotal = kr_responseTimeoutTotal rec,
       ks_packetValidationFailureTotal = kr_packetValidationFailureTotal rec,
       ks_disconnectTimeoutTotal = kr_disconnectTimeoutTotal rec,
       ks_disconnectServerCloseTotal = kr_disconnectServerCloseTotal rec,
       ks_disconnectRecvFailTotal = kr_disconnectRecvFailTotal rec,
       ks_disconnectLocalCloseTotal = kr_disconnectLocalCloseTotal rec,
       ks_lastDisconnectReason = kr_lastDisconnectReason rec\<rparr>)"

definition client_bottleneck :: "'d Fp \<Rightarrow> 'd ClientSummaryStats \<Rightarrow> string" where
  "client_bottleneck fp st =
     (if ks_responseTimeoutTotal st > 0 \<or> ks_maxTimeSinceLastRecvMs st \<ge> 3000 then ''Response / Network''
      else if ks_packetValidationFailureTotal st > 0 then ''Protocol''
      else if fp_le fp (fp_literal fp ''80.0'') (ks_maxProcessCpuPercent st) then ''Runtime / CPU''
      else ''none observed'')"

definition BuildSummaryMarkdown :: "'d Fp \<Rightarrow> RunManifest \<Rightarrow> string \<Rightarrow> 'd ClientSummaryStats \<Rightarrow> string" where
  "BuildSummaryMarkdown fp manifest outputDirectory st =
     (let snapshotCount = (if ks_snapshots st = 0 then fp_literal fp ''1.0'' else fp_of_uint64 fp (ks_snapshots st));
          avg = (\<lambda>s. fp_div fp s snapshotCount);
          nl = [CHR 0x0A]
      in ''Client Metrics Summary'' @ nl @ nl
     @ bullet ''run_id'' (if man_runId manifest = [] then ''run'' else man_runId manifest)
     @ bullet ''client_name'' (if man_serverName manifest = [] then ''client'' else man_serverName manifest)
     @ bullet ''output_dir'' outputDirectory
     @ bullet ''started_at'' (optional_time (man_startedAt manifest))
     @ bullet ''finished_at'' (optional_time (man_finishedAt manifest)) @ nl
     @ ''Core Results'' @ nl
     @ bullet ''connect success total'' (render_nat (unat (ks_connectSuccessTotal st)))
     @ bullet ''connect failure total'' (render_nat (unat (ks_connectFailureTotal st)))
     @ bullet ''avg connect latency ms'' (FormatNumber fp (avg (ks_avgConnectLatencyMsSum st)))
     @ bullet ''max connect latency ms'' (FormatNumber fp (ks_maxConnectLatencyMs st))
     @ bullet ''avg request RTT ms'' (FormatNumber fp (avg (ks_avgRequestRttMsSum st)))
     @ bullet ''max request RTT ms'' (FormatNumber fp (ks_maxRequestRttMs st))
     @ bullet ''avg send packets/sec'' (FormatNumber fp (avg (ks_sendPacketsPerSecSum st)))
     @ bullet ''max send packets/sec'' (FormatNumber fp (ks_maxSendPacketsPerSec st))
     @ bullet ''avg recv packets/sec'' (FormatNumber fp (avg (ks_recvPacketsPerSecSum st)))
     @ bullet ''max recv packets/sec'' (FormatNumber fp (ks_maxRecvPacketsPerSec st))
     @ bullet ''avg send bytes/sec'' (FormatNumber fp (avg (ks_sendBytesPerSecSum st)))
     @ bullet ''max send bytes/sec'' (FormatNumber fp (ks_maxSendBytesPerSec st))
     @ bullet ''avg recv bytes/sec'' (FormatNumber fp (avg (ks_recvBytesPerSecSum st)))
     @ bullet ''max recv bytes/sec'' (FormatNumber fp (ks_maxRecvBytesPerSec st))
     @ bullet ''max session uptime ms'' (render_nat (unat (ks_maxSessionUptimeMs st)))
     @ bullet ''max time since last recv ms'' (render_nat (unat (ks_maxTimeSinceLastRecvMs st)))
     @ bullet ''max pending request count'' (render_nat (unat (ks_maxPendingRequestCount st)))
     @ bullet ''send fail total'' (render_nat (unat (ks_sendFailTotal st)))
     @ bullet ''response timeout total'' (render_nat (unat (ks_responseTimeoutTotal st)))
     @ bullet ''packet validation failure total'' (render_nat (unat (ks_packetValidationFailureTotal st)))
     @ bullet ''disconnect total'' (render_nat (unat (ks_disconnectTotal st)))
     @ bullet ''disconnect reasons'' ((''timeout='' @ render_nat (unat (ks_disconnectTimeoutTotal st)) @ '', server close='' @ render_nat (unat (ks_disconnectServerCloseTotal st))
       @ '', recv fail='' @ render_nat (unat (ks_disconnectRecvFailTotal st)) @ '', local close='' @ render_nat (unat (ks_disconnectLocalCloseTotal st))))
     @ bullet ''last disconnect reason'' (ToString (ks_lastDisconnectReason st))
     @ bullet ''avg process CPU percent'' (FormatNumber fp (avg (ks_processCpuPercentSum st)))
     @ bullet ''max process CPU percent'' (FormatNumber fp (ks_maxProcessCpuPercent st))
     @ bullet ''max thread count'' (render_nat (unat (ks_maxThreadCount st)))
     @ bullet ''bottleneck guess'' (client_bottleneck fp st))"

section \<open>The writer\<close>

record ('d, 'm) ClientMetricsWriter =
  kw_metrics :: 'm
  kw_config :: ClientMetricsConfig
  kw_manifest :: RunManifest
  kw_outputDirectory :: string
  kw_manifestPath :: string
  kw_snapshotPath :: string
  kw_summaryPath :: string
  kw_worker :: bool
  kw_running :: bool
  kw_lastError :: string
  kw_previousRecord :: "'d ClientSnapshotRecord"
  kw_hasPreviousRecord :: bool
  kw_summary :: "'d ClientSummaryStats"
  kw_lastRuntimeSampleAt :: int
  kw_lastProcessKernel100ns :: uint64
  kw_lastProcessUser100ns :: uint64
  kw_hasRuntimeBaseline :: bool
  kw_files :: "string \<Rightarrow> string"

text \<open>A configuration that is the default one is read from the environment; an interval
  that is not positive is replaced.\<close>

definition ClientMetricsWriter_new ::
  "'d Fp \<Rightarrow> (string \<Rightarrow> string option) \<Rightarrow> 'm \<Rightarrow> ClientMetricsConfig \<Rightarrow> RunManifest \<Rightarrow> (string \<Rightarrow> string)
    \<Rightarrow> ('d, 'm) ClientMetricsWriter" where
  "ClientMetricsWriter_new fp env metrics config manifest files =
     (let c0 = ClientMetricsConfig_default;
          c1 = (if mcfg_enabled config = mcfg_enabled c0 \<and> mcfg_outputRoot config = mcfg_outputRoot c0 \<and> mcfg_runId config = []
                   \<and> mcfg_snapshotInterval config = mcfg_snapshotInterval c0
                   \<and> mcfg_responseTimeout config = mcfg_responseTimeout c0
                then Client_FromEnvironment env else config);
          c2 = (if mcfg_snapshotInterval c1 \<le> 0 then c1\<lparr>mcfg_snapshotInterval := 1000\<rparr> else c1)
      in \<lparr>kw_metrics = metrics, kw_config = c2, kw_manifest = manifest, kw_outputDirectory = [], kw_manifestPath = [],
          kw_snapshotPath = [], kw_summaryPath = [], kw_worker = False, kw_running = False, kw_lastError = [],
          kw_previousRecord = ClientSnapshotRecord_zero fp, kw_hasPreviousRecord = False,
          kw_summary = ClientSummaryStats_zero fp, kw_lastRuntimeSampleAt = 0, kw_lastProcessKernel100ns = 0,
          kw_lastProcessUser100ns = 0, kw_hasRuntimeBaseline = False, kw_files = files\<rparr>)"

definition SampleRuntime :: "'d Fp \<Rightarrow> SampleEnv \<Rightarrow> ('d, 'm) ClientMetricsWriter \<Rightarrow> ('d \<times> uint32) \<times> ('d, 'm) ClientMetricsWriter" where
  "SampleRuntime fp env w =
     (case en_processTimes env of
        None \<Rightarrow> ((fp_zero fp, 0), w\<lparr>kw_hasRuntimeBaseline := False, kw_lastRuntimeSampleAt := en_now env,
                    kw_lastProcessKernel100ns := 0, kw_lastProcessUser100ns := 0\<rparr>)
      | Some (processKernel, processUser) \<Rightarrow>
          let w1 = w\<lparr>kw_hasRuntimeBaseline := True, kw_lastRuntimeSampleAt := en_now env,
                     kw_lastProcessKernel100ns := processKernel, kw_lastProcessUser100ns := processUser\<rparr>
          in if \<not> kw_hasRuntimeBaseline w then ((fp_zero fp, en_threadCount env), w1)
             else let elapsedSeconds = fp_seconds fp (en_now env - kw_lastRuntimeSampleAt w);
                      cpu = (if fp_less fp (fp_zero fp) elapsedSeconds then
                               let processDelta = (processKernel - kw_lastProcessKernel100ns w) + (processUser - kw_lastProcessUser100ns w)
                               in fp_mul fp (fp_div fp (fp_div fp (cpu_seconds fp processDelta) elapsedSeconds)
                                    (fp_of_uint64 fp (ucast (en_processorCount env)))) (fp_literal fp ''100.0'')
                             else fp_zero fp)
                  in ((cpu, en_threadCount env), w1))"

definition Client_InitializeArtifacts ::
  "string option \<Rightarrow> ('d, 'm) ClientMetricsWriter \<Rightarrow> bool \<times> ('d, 'm) ClientMetricsWriter" where
  "Client_InitializeArtifacts createError w =
     (let dir = OutputDirectory (kw_manifest w);
          w1 = w\<lparr>kw_outputDirectory := dir, kw_manifestPath := path_div dir ''manifest.json'',
                 kw_snapshotPath := path_div dir ''client-metrics.jsonl'', kw_summaryPath := path_div dir ''summary.md''\<rparr>
      in case createError of
           Some msg \<Rightarrow> (False, w1\<lparr>kw_lastError := ''failed to create client metrics output directory: '' @ msg\<rparr>)
         | None \<Rightarrow> (True, w1))"

definition Client_WriteManifest :: "FileEnv \<Rightarrow> ('d, 'm) ClientMetricsWriter \<Rightarrow> bool \<times> ('d, 'm) ClientMetricsWriter" where
  "Client_WriteManifest fe w =
     (if \<not> fe_open fe then (False, w\<lparr>kw_lastError := ''failed to open manifest file''\<rparr>)
      else if \<not> fe_good fe then (False, w\<lparr>kw_lastError := ''failed to write manifest file''\<rparr>)
      else (True, w\<lparr>kw_files := (kw_files w)(kw_manifestPath w := ToJson (kw_manifest w))\<rparr>))"

type_synonym ('d, 'm) client_snapshot_fn = "uint64 \<Rightarrow> ticks \<Rightarrow> 'm \<Rightarrow> 'd ClientMetricsSnapshot \<times> 'm"

text \<open>The first record of a run is only the baseline of the rates, unless it is also the
  last one.\<close>

definition Client_CaptureAndWriteSnapshot ::
  "'d Fp \<Rightarrow> ('d, 'm) client_snapshot_fn \<Rightarrow> bool \<Rightarrow> CaptureEnv \<Rightarrow> ('d, 'm) ClientMetricsWriter \<Rightarrow> bool \<times> ('d, 'm) ClientMetricsWriter" where
  "Client_CaptureAndWriteSnapshot fp takeSnapshot finalSnapshot env w =
     (case takeSnapshot (of_int (ca_steady env)) (ca_now env) (kw_metrics w) of (snapshot, m) \<Rightarrow>
      case SampleRuntime fp (ca_sample env) (w\<lparr>kw_metrics := m\<rparr>) of (runtime, w1) \<Rightarrow>
      let rec = make_client_record fp snapshot runtime;
          first = (\<not> kw_hasPreviousRecord w1);
          w2 = (if first then w1\<lparr>kw_previousRecord := rec, kw_hasPreviousRecord := True\<rparr> else w1)
      in if first \<and> \<not> finalSnapshot then (True, w2)
         else if \<not> fe_open (ca_file env) then (False, w2\<lparr>kw_lastError := ''failed to open client metrics snapshot file''\<rparr>)
         else let previous = (if kw_hasPreviousRecord w2 then Some (kw_previousRecord w2) else None)
              in if \<not> fe_good (ca_file env) then (False, w2\<lparr>kw_lastError := ''failed to write client metrics snapshot''\<rparr>)
                 else (True, w2\<lparr>kw_files := (kw_files w2)(kw_snapshotPath w2 :=
                          kw_files w2 (kw_snapshotPath w2) @ Client_BuildSnapshotJson fp rec previous @ [CHR 0x0A]),
                        kw_summary := ObserveSummary fp rec previous (kw_summary w2),
                        kw_previousRecord := rec, kw_hasPreviousRecord := True\<rparr>))"

definition ClientWriter_Start ::
  "'d Fp \<Rightarrow> ('d, 'm) client_snapshot_fn \<Rightarrow> WriterStartEnv \<Rightarrow> ('d, 'm) ClientMetricsWriter \<Rightarrow> bool \<times> ('d, 'm) ClientMetricsWriter" where
  "ClientWriter_Start fp takeSnapshot env w0 =
     (let w = w0\<lparr>kw_lastError := []\<rparr> in
      if kw_running w then (True, w)
      else
        let cfg = kw_config w;
            w1 = w\<lparr>kw_previousRecord := ClientSnapshotRecord_zero fp, kw_hasPreviousRecord := False,
                   kw_summary := ClientSummaryStats_zero fp, kw_lastRuntimeSampleAt := 0, kw_lastProcessKernel100ns := 0,
                   kw_lastProcessUser100ns := 0, kw_hasRuntimeBaseline := False,
                   kw_manifest := (kw_manifest w)\<lparr>man_startedAt := None, man_finishedAt := None\<rparr>,
                   kw_outputDirectory := [], kw_manifestPath := [], kw_snapshotPath := [], kw_summaryPath := []\<rparr>;
            runId = Client_ResolveRunId (ws_now env) (ws_processId env) cfg
        in if \<not> mcfg_enabled cfg then
             (True, w1\<lparr>kw_outputDirectory := Client_ResolveOutputDirectory (ws_now env) (ws_processId env) cfg,
                       kw_manifest := (kw_manifest w1)\<lparr>man_outputRoot := mcfg_outputRoot cfg, man_runId := runId\<rparr>\<rparr>)
           else
             let m = (kw_manifest w1)\<lparr>man_outputRoot := mcfg_outputRoot cfg, man_runId := runId\<rparr>;
                 m1 = (if man_serverName m = [] then m\<lparr>man_serverName := ''client''\<rparr> else m);
                 w2 = w1\<lparr>kw_manifest := m1\<lparr>man_startedAt := Some (ws_now env)\<rparr>\<rparr>
             in case Client_InitializeArtifacts (ws_createError env) w2 of
                  (False, w3) \<Rightarrow> (False, w3)
                | (True, w3) \<Rightarrow>
                  (case Client_WriteManifest (ws_manifest env) w3 of
                     (False, w4) \<Rightarrow> (False, w4)
                   | (True, w4) \<Rightarrow>
                     (case Client_CaptureAndWriteSnapshot fp takeSnapshot False (ws_capture env) w4 of
                        (False, w5) \<Rightarrow> (False, w5)
                      | (True, w5) \<Rightarrow>
                        (case ws_threadError env of
                           None \<Rightarrow> (True, w5\<lparr>kw_running := True, kw_worker := True\<rparr>)
                         | Some (Some what) \<Rightarrow>
                             (False, w5\<lparr>kw_running := False, kw_lastError := ''failed to start client metrics writer thread: '' @ what\<rparr>)
                         | Some None \<Rightarrow>
                             (False, w5\<lparr>kw_running := False, kw_lastError := ''failed to start client metrics writer thread''\<rparr>)))))"

definition Client_ThreadMain ::
  "'d Fp \<Rightarrow> ('d, 'm) client_snapshot_fn \<Rightarrow> (nat \<Rightarrow> WriterRound) \<Rightarrow> ('d, 'm) ClientMetricsWriter \<Rightarrow> ('d, 'm) ClientMetricsWriter option" where
  "Client_ThreadMain fp takeSnapshot rounds w =
     map_option (\<lambda>w'. w'\<lparr>kw_running := False\<rparr>) (thread_loop (Client_CaptureAndWriteSnapshot fp takeSnapshot False) rounds 0 w)"

definition client_finish_run ::
  "'d Fp \<Rightarrow> ('d, 'm) client_snapshot_fn \<Rightarrow> WriterStopEnv \<Rightarrow> ('d, 'm) ClientMetricsWriter \<Rightarrow> ('d, 'm) ClientMetricsWriter" where
  "client_finish_run fp takeSnapshot env w =
     (let w1 = (if man_finishedAt (kw_manifest w) = None
                then w\<lparr>kw_manifest := (kw_manifest w)\<lparr>man_finishedAt := Some (wz_now env)\<rparr>\<rparr> else w);
          w2 = snd (Client_CaptureAndWriteSnapshot fp takeSnapshot True (wz_capture env) w1);
          w3 = snd (Client_WriteManifest (wz_manifest env) w2)
      in if wz_summaryOpen env
         then w3\<lparr>kw_files := (kw_files w3)(kw_summaryPath w3 :=
                BuildSummaryMarkdown fp (kw_manifest w3) (kw_outputDirectory w3) (kw_summary w3))\<rparr>
         else w3)"

definition ClientWriter_Stop ::
  "'d Fp \<Rightarrow> ('d, 'm) client_snapshot_fn \<Rightarrow> (nat \<Rightarrow> WriterRound) \<Rightarrow> WriterStopEnv \<Rightarrow> ('d, 'm) ClientMetricsWriter
    \<Rightarrow> ('d, 'm) ClientMetricsWriter option" where
  "ClientWriter_Stop fp takeSnapshot rounds env w =
     (if \<not> kw_running w \<and> \<not> kw_worker w then Some w
      else case (if kw_worker w then Client_ThreadMain fp takeSnapshot rounds w else Some w) of
             None \<Rightarrow> None
           | Some w1 \<Rightarrow>
               let w2 = w1\<lparr>kw_running := False, kw_worker := False\<rparr>
               in Some (if mcfg_enabled (kw_config w2) then client_finish_run fp takeSnapshot env w2 else w2))"

definition ClientWriter_destroy ::
  "'d Fp \<Rightarrow> ('d, 'm) client_snapshot_fn \<Rightarrow> (nat \<Rightarrow> WriterRound) \<Rightarrow> WriterStopEnv \<Rightarrow> ('d, 'm) ClientMetricsWriter
    \<Rightarrow> ('d, 'm) ClientMetricsWriter option" where
  "ClientWriter_destroy fp takeSnapshot rounds env w = ClientWriter_Stop fp takeSnapshot rounds env w"

definition ClientWriter_IsRunning :: "('d, 'm) ClientMetricsWriter \<Rightarrow> bool" where
  "ClientWriter_IsRunning w = kw_running w"

definition ClientWriter_OutputDirectory :: "('d, 'm) ClientMetricsWriter \<Rightarrow> string" where
  "ClientWriter_OutputDirectory w = kw_outputDirectory w"

definition ClientWriter_LastError :: "('d, 'm) ClientMetricsWriter \<Rightarrow> string" where
  "ClientWriter_LastError w = kw_lastError w"

section \<open>The lines of the snapshot file are JSON objects\<close>

definition client_fields :: "'d Fp \<Rightarrow> 'd ClientSnapshotRecord \<Rightarrow> 'd ClientSnapshotRecord option \<Rightarrow> (string \<times> json_scalar) list" where
  "client_fields fp rec previous =
     (let rate = client_rate fp rec previous in
     [(''ts'', JString (FormatUtcTime (kr_capturedAt rec))),
      (''connect_success_total'', JNumber (render_nat (unat (kr_connectSuccessTotal rec)))),
      (''connect_failure_total'', JNumber (render_nat (unat (kr_connectFailureTotal rec)))),
      (''disconnect_total'', JNumber (render_nat (unat (kr_disconnectTotal rec)))),
      (''send_packets_total'', JNumber (render_nat (unat (kr_sendPacketsTotal rec)))),
      (''send_packets_per_sec'', JNumber (FormatNumber fp (rate kr_sendPacketsTotal))),
      (''recv_packets_total'', JNumber (render_nat (unat (kr_recvPacketsTotal rec)))),
      (''recv_packets_per_sec'', JNumber (FormatNumber fp (rate kr_recvPacketsTotal))),
      (''send_bytes_total'', JNumber (render_nat (unat (kr_sendBytesTotal rec)))),
      (''send_bytes_per_sec'', JNumber (FormatNumber fp (rate kr_sendBytesTotal))),
      (''recv_bytes_total'', JNumber (render_nat (unat (kr_recvBytesTotal rec)))),
      (''recv_bytes_per_sec'', JNumber (FormatNumber fp (rate kr_recvBytesTotal))),
      (''send_fail_total'', JNumber (render_nat (unat (kr_sendFailTotal rec)))),
      (''response_timeout_total'', JNumber (render_nat (unat (kr_responseTimeoutTotal rec)))),
      (''packet_validation_total'', JNumber (render_nat (unat (kr_packetValidationTotal rec)))),
      (''packet_validation_failure_total'', JNumber (render_nat (unat (kr_packetValidationFailureTotal rec)))),
      (''disconnect_timeout_total'', JNumber (render_nat (unat (kr_disconnectTimeoutTotal rec)))),
      (''disconnect_server_close_total'', JNumber (render_nat (unat (kr_disconnectServerCloseTotal rec)))),
      (''disconnect_recv_fail_total'', JNumber (render_nat (unat (kr_disconnectRecvFailTotal rec)))),
      (''disconnect_local_close_total'', JNumber (render_nat (unat (kr_disconnectLocalCloseTotal rec)))),
      (''connected'', JNumber (render_int (sint (kr_connected rec)))),
      (''pending_request_count'', JNumber (render_nat (unat (kr_pendingRequestCount rec)))),
      (''connect_latency_ms_last'', JNumber (FormatNumber fp (kr_lastConnectLatencyMs rec))),
      (''connect_latency_ms_avg'', JNumber (FormatNumber fp (kr_connectLatencyMsAvg rec))),
      (''connect_latency_ms_max'', JNumber (FormatNumber fp (kr_connectLatencyMsMax rec))),
      (''request_rtt_ms_avg'', JNumber (FormatNumber fp (kr_requestRttMsAvg rec))),
      (''request_rtt_ms_max'', JNumber (FormatNumber fp (kr_requestRttMsMax rec))),
      (''current_session_uptime_ms'', JNumber (render_nat (unat (kr_currentSessionUptimeMs rec)))),
      (''last_session_uptime_ms'', JNumber (render_nat (unat (kr_lastSessionUptimeMs rec)))),
      (''max_session_uptime_ms'', JNumber (render_nat (unat (kr_maxSessionUptimeMs rec)))),
      (''time_since_last_recv_ms'', JNumber (render_nat (unat (kr_timeSinceLastRecvMs rec)))),
      (''last_disconnect_reason'', JString (ToString (kr_lastDisconnectReason rec))),
      (''process_cpu_percent'', JNumber (FormatNumber fp (kr_processCpuPercent rec))),
      (''thread_count'', JNumber (render_nat (unat (kr_threadCount rec))))])"

lemma client_fields_wf:
  assumes "prints_fixed fp"
  shows "wf_fields (client_fields fp rec previous)" "client_fields fp rec previous \<noteq> []"
proof -
  have n: "wf_scalar (JNumber (FormatNumber fp d))" for d by (rule FormatNumber_wf [OF assms])
  show "wf_fields (client_fields fp rec previous)"
    by (simp add: client_fields_def Let_def n plain_key_def JsonEscape_def json_escape_char_def del: wf_scalar.simps(2))
  show "client_fields fp rec previous \<noteq> []" by (simp add: client_fields_def Let_def)
qed

lemma client_line:
  assumes "prints_fixed fp"
  shows "json_object (Client_BuildSnapshotJson fp rec previous) = Some (client_fields fp rec previous)"
proof -
  have shape: "Client_BuildSnapshotJson fp rec previous = CHR ''{'' # members_text [] [] (client_fields fp rec previous) @ [] @ CHR ''}'' # []"
    by (simp add: Client_BuildSnapshotJson_def client_fields_def Let_def)
  show ?thesis
    unfolding shape by (rule json_object_read [OF _ _ _ _ client_fields_wf [OF assms]]) (simp_all add: all_ws_def)
qed

text \<open>No newline inside a line.\<close>

lemma json_escape_no_newline: "CHR 0x0A \<notin> set (JsonEscape s)"
proof -
  have "''0123456789abcdef'' ! k \<in> set ''0123456789abcdef''" if "k < 16" for k
    using that by (intro nth_mem) simp
  then have hex: "''0123456789abcdef'' ! k \<noteq> CHR 0x0A" if "k < 16" for k using that by fastforce
  have "CHR 0x0A \<notin> set (json_escape_char c)" for c
    using hex [of "of_char c div 16"] hex [of "of_char c mod 16"]
    by (simp add: json_escape_char_def Let_def less_mult_imp_div_less)
  then show ?thesis by (auto simp: JsonEscape_def)
qed

lemma members_no_newline: "wf_fields fs \<Longrightarrow> CHR 0x0A \<notin> set (members_text [] [] fs)"
proof (induction fs)
  case (Cons f fs)
  obtain k v where f: "f = (k, v)" by fastforce
  have wf: "plain_key k" "wf_scalar v" using Cons.prems f by simp_all
  have "\<not> number_char (CHR 0x0A)" by (simp add: number_char_def IsDigit_def)
  then have "CHR 0x0A \<notin> set (json_text v)"
    using wf(2) json_escape_no_newline by (cases v) (auto simp: quoted_def list_all_iff)
  moreover have "CHR 0x0A \<notin> set k" using wf(1) json_escape_no_newline unfolding plain_key_def by metis
  ultimately show ?case using Cons f by (cases fs) (auto simp: quoted_def)
qed simp

text \<open>The snapshot file of a run is a sequence of lines, each a JSON object, one for each
  record that went into the summary.\<close>

definition is_line :: "string \<Rightarrow> bool" where
  "is_line l \<longleftrightarrow> CHR 0x0A \<notin> set l \<and> json_object l \<noteq> None"

definition lines_ok :: "('d, 'm) ClientMetricsWriter \<Rightarrow> bool" where
  "lines_ok w \<longleftrightarrow> (\<exists>ls. kw_files w (kw_snapshotPath w) = concat (map (\<lambda>l. l @ [CHR 0x0A]) ls)
     \<and> list_all is_line ls \<and> ks_snapshots (kw_summary w) = of_nat (length ls))"

lemma client_line_is_line:
  assumes "prints_fixed fp"
  shows "is_line (Client_BuildSnapshotJson fp rec previous)"
proof -
  have "Client_BuildSnapshotJson fp rec previous = CHR ''{'' # members_text [] [] (client_fields fp rec previous) @ ''}''"
    by (simp add: Client_BuildSnapshotJson_def client_fields_def Let_def)
  then have "CHR 0x0A \<notin> set (Client_BuildSnapshotJson fp rec previous)"
    using members_no_newline [OF client_fields_wf(1) [OF assms]] by simp
  then show ?thesis using client_line [OF assms] by (simp add: is_line_def)
qed

lemma ObserveSummary_count: "ks_snapshots (ObserveSummary fp rec previous st) = ks_snapshots st + 1"
  by (simp add: ObserveSummary_def Let_def)

lemma SampleRuntime_other:
  assumes "SampleRuntime fp env w = (x, w')"
  shows "kw_files w' = kw_files w" "kw_snapshotPath w' = kw_snapshotPath w" "kw_summary w' = kw_summary w"
    "kw_config w' = kw_config w" "kw_manifestPath w' = kw_manifestPath w" "kw_summaryPath w' = kw_summaryPath w"
    "kw_worker w' = kw_worker w" "kw_running w' = kw_running w" "kw_manifest w' = kw_manifest w"
  using assms by (auto simp: SampleRuntime_def Let_def split: option.splits if_splits)

lemma capture_other:
  fixes w :: "('d, 'm) ClientMetricsWriter"
  shows "kw_snapshotPath (snd (Client_CaptureAndWriteSnapshot fp ts fin env w)) = kw_snapshotPath w"
    "kw_manifestPath (snd (Client_CaptureAndWriteSnapshot fp ts fin env w)) = kw_manifestPath w"
    "kw_summaryPath (snd (Client_CaptureAndWriteSnapshot fp ts fin env w)) = kw_summaryPath w"
    "kw_config (snd (Client_CaptureAndWriteSnapshot fp ts fin env w)) = kw_config w"
    "kw_manifest (snd (Client_CaptureAndWriteSnapshot fp ts fin env w)) = kw_manifest w"
    "kw_running (snd (Client_CaptureAndWriteSnapshot fp ts fin env w)) = kw_running w"
    "kw_worker (snd (Client_CaptureAndWriteSnapshot fp ts fin env w)) = kw_worker w"
  by (auto simp: Client_CaptureAndWriteSnapshot_def Let_def SampleRuntime_other split: prod.splits)

lemma capture_lines:
  assumes "prints_fixed fp" and "lines_ok w"
  shows "lines_ok (snd (Client_CaptureAndWriteSnapshot fp ts fin env w))"
proof -
  obtain snap m where t: "ts (of_int (ca_steady env)) (ca_now env) (kw_metrics w) = (snap, m)" by fastforce
  obtain x w1 where r: "SampleRuntime fp (ca_sample env) (w\<lparr>kw_metrics := m\<rparr>) = (x, w1)" by fastforce
  note o = SampleRuntime_other [OF r]
  obtain ls where ls: "kw_files w (kw_snapshotPath w) = concat (map (\<lambda>l. l @ [CHR 0x0A]) ls)" "list_all is_line ls"
      "ks_snapshots (kw_summary w) = of_nat (length ls)"
    using assms(2) unfolding lines_ok_def by blast
  have app: "lines_ok v" if "kw_snapshotPath v = kw_snapshotPath w" "ks_snapshots (kw_summary v) = ks_snapshots (kw_summary w) + 1"
      "kw_files v (kw_snapshotPath w) = kw_files w (kw_snapshotPath w) @ l @ [CHR 0x0A]" "is_line l" for v :: "('a, 'b) ClientMetricsWriter" and l
    unfolding lines_ok_def using that ls by (intro exI [of _ "ls @ [l]"]) simp
  have same: "lines_ok v" if "kw_snapshotPath v = kw_snapshotPath w" "kw_summary v = kw_summary w" "kw_files v = kw_files w"
    for v :: "('a, 'b) ClientMetricsWriter"
    using assms(2) that unfolding lines_ok_def by simp
  define rc where "rc = make_client_record fp snap x"
  define w2 where "w2 = (if \<not> kw_hasPreviousRecord w1 then w1\<lparr>kw_previousRecord := rc, kw_hasPreviousRecord := True\<rparr> else w1)"
  define line where "line = Client_BuildSnapshotJson fp rc (Some (kw_previousRecord w2))"
  define written where "written = w2\<lparr>kw_files := (kw_files w2)(kw_snapshotPath w2 := kw_files w2 (kw_snapshotPath w2) @ line @ [CHR 0x0A]),
      kw_summary := ObserveSummary fp rc (Some (kw_previousRecord w2)) (kw_summary w2),
      kw_previousRecord := rc, kw_hasPreviousRecord := True\<rparr>"
  have w2: "kw_files w2 = kw_files w" "kw_snapshotPath w2 = kw_snapshotPath w" "kw_summary w2 = kw_summary w" "kw_hasPreviousRecord w2"
    by (simp_all add: w2_def o)
  have "Client_CaptureAndWriteSnapshot fp ts fin env w =
      (if \<not> kw_hasPreviousRecord w1 \<and> \<not> fin then (True, w2)
       else if \<not> fe_open (ca_file env) then (False, w2\<lparr>kw_lastError := ''failed to open client metrics snapshot file''\<rparr>)
       else if \<not> fe_good (ca_file env) then (False, w2\<lparr>kw_lastError := ''failed to write client metrics snapshot''\<rparr>)
       else (True, written))"
    unfolding Client_CaptureAndWriteSnapshot_def t r prod.case Let_def rc_def [symmetric] w2_def [symmetric]
    by (simp only: w2(4) if_True line_def [symmetric] written_def [symmetric])
  moreover have "lines_ok written"
    by (rule app [of _ line]) (simp_all add: written_def w2 ObserveSummary_count line_def client_line_is_line [OF assms(1)])
  moreover have "lines_ok w2" "lines_ok (w2\<lparr>kw_lastError := e\<rparr>)" for e by (simp_all add: same w2)
  ultimately show ?thesis by simp
qed

definition paths_ok :: "('d, 'm) ClientMetricsWriter \<Rightarrow> bool" where
  "paths_ok w \<longleftrightarrow> kw_snapshotPath w \<noteq> kw_manifestPath w \<and> kw_snapshotPath w \<noteq> kw_summaryPath w"

lemma lines_ok_update [simp]:
  "lines_ok (w\<lparr>kw_running := b\<rparr>) = lines_ok w" "lines_ok (w\<lparr>kw_worker := b\<rparr>) = lines_ok w"
  "lines_ok (w\<lparr>kw_manifest := m\<rparr>) = lines_ok w"
  by (simp_all add: lines_ok_def)

lemma capture_paths: "paths_ok (snd (Client_CaptureAndWriteSnapshot fp ts fin env w)) = paths_ok w"
  by (simp add: paths_ok_def capture_other)

lemma Client_WriteManifest_lines:
  "paths_ok w \<Longrightarrow> lines_ok (snd (Client_WriteManifest fe w)) = lines_ok w"
  "kw_snapshotPath (snd (Client_WriteManifest fe w)) = kw_snapshotPath w"
  "paths_ok (snd (Client_WriteManifest fe w)) = paths_ok w" "kw_config (snd (Client_WriteManifest fe w)) = kw_config w"
  "kw_running (snd (Client_WriteManifest fe w)) = kw_running w" "kw_worker (snd (Client_WriteManifest fe w)) = kw_worker w"
  by (simp_all add: Client_WriteManifest_def lines_ok_def paths_ok_def)

lemma path_div_inject [simp]: "path_div root a = path_div root b \<longleftrightarrow> a = b"
  by (simp add: path_div_def)

lemma ClientWriter_Start_lines:
  fixes w :: "('d, 'm) ClientMetricsWriter"
  assumes "prints_fixed fp" and "ClientWriter_Start fp ts env w = (True, w1)" and "\<not> kw_running w"
    and "mcfg_enabled (kw_config w)" and "kw_files w (kw_snapshotPath w1) = []"
  shows "lines_ok w1 \<and> paths_ok w1 \<and> kw_worker w1 \<and> mcfg_enabled (kw_config w1)"
proof -
  obtain v w3 w4 w5 where v: "kw_files v = kw_files w" "kw_config v = kw_config w" "kw_summary v = ClientSummaryStats_zero fp"
    and c: "Client_InitializeArtifacts (ws_createError env) v = (True, w3)" "Client_WriteManifest (ws_manifest env) w3 = (True, w4)"
      "Client_CaptureAndWriteSnapshot fp ts False (ws_capture env) w4 = (True, w5)" "w1 = w5\<lparr>kw_running := True, kw_worker := True\<rparr>"
    using assms(2-4) by (simp add: ClientWriter_Start_def Let_def split: prod.splits bool.splits option.splits)
      (rule that [rotated 3], assumption, assumption, assumption, rule sym, assumption, simp_all)
  have w3: "paths_ok w3" "kw_files w3 = kw_files w" "kw_summary w3 = ClientSummaryStats_zero fp" "kw_config w3 = kw_config w"
    using c(1) v by (auto simp: Client_InitializeArtifacts_def Let_def paths_ok_def split: option.splits)
  have e: "w4 = snd (Client_WriteManifest (ws_manifest env) w3)"
    "w5 = snd (Client_CaptureAndWriteSnapshot fp ts False (ws_capture env) w4)" using c(2,3) by simp_all
  have "kw_snapshotPath w3 = kw_snapshotPath w1"
    using c(4) e by (simp add: Client_WriteManifest_lines capture_other)
  then have "lines_ok w3"
    using w3 assms(5) unfolding lines_ok_def by (intro exI [of _ "[]"]) (simp add: ClientSummaryStats_zero_def)
  then have w4: "lines_ok w4" "paths_ok w4" "kw_config w4 = kw_config w"
    using w3 by (simp_all add: e(1) Client_WriteManifest_lines)
  then have "lines_ok w5" "paths_ok w5" "kw_config w5 = kw_config w"
    by (simp_all add: e(2) capture_lines [OF assms(1)] capture_paths capture_other)
  then show ?thesis using c(4) assms(4) by (simp add: paths_ok_def)
qed

lemma client_finish_run_lines:
  assumes "prints_fixed fp" and "lines_ok w" and "paths_ok w"
  shows "lines_ok (client_finish_run fp ts env w)" "kw_snapshotPath (client_finish_run fp ts env w) = kw_snapshotPath w"
    "kw_running (client_finish_run fp ts env w) = kw_running w" "kw_worker (client_finish_run fp ts env w) = kw_worker w"
proof -
  define w1 where "w1 = (if man_finishedAt (kw_manifest w) = None
    then w\<lparr>kw_manifest := (kw_manifest w)\<lparr>man_finishedAt := Some (wz_now env)\<rparr>\<rparr> else w)"
  define w2 where "w2 = snd (Client_CaptureAndWriteSnapshot fp ts True (wz_capture env) w1)"
  define w3 where "w3 = snd (Client_WriteManifest (wz_manifest env) w2)"
  have 1: "lines_ok w1" "paths_ok w1" "kw_snapshotPath w1 = kw_snapshotPath w" "kw_running w1 = kw_running w" "kw_worker w1 = kw_worker w"
    using assms(2,3) by (simp_all add: w1_def paths_ok_def)
  have 2: "lines_ok w2" "paths_ok w2" "kw_snapshotPath w2 = kw_snapshotPath w" "kw_running w2 = kw_running w" "kw_worker w2 = kw_worker w"
    using capture_lines [OF assms(1) 1(1)] 1 by (simp_all add: w2_def capture_paths capture_other)
  have 3: "lines_ok w3" "paths_ok w3" "kw_snapshotPath w3 = kw_snapshotPath w" "kw_running w3 = kw_running w" "kw_worker w3 = kw_worker w"
    using 2 by (simp_all add: w3_def Client_WriteManifest_lines)
  have fin: "client_finish_run fp ts env w = (if wz_summaryOpen env
      then w3\<lparr>kw_files := (kw_files w3)(kw_summaryPath w3 := BuildSummaryMarkdown fp (kw_manifest w3) (kw_outputDirectory w3) (kw_summary w3))\<rparr>
      else w3)"
    unfolding client_finish_run_def Let_def w1_def [symmetric] w2_def [symmetric] w3_def [symmetric] by (rule refl)
  show "lines_ok (client_finish_run fp ts env w)" "kw_snapshotPath (client_finish_run fp ts env w) = kw_snapshotPath w"
    "kw_running (client_finish_run fp ts env w) = kw_running w" "kw_worker (client_finish_run fp ts env w) = kw_worker w"
    using 3 by (simp_all add: fin lines_ok_def paths_ok_def)
qed


text \<open>A run of two rounds.\<close>

definition demo_client_writer :: "(unit, AtomicClientMetrics) ClientMetricsWriter" where
  "demo_client_writer = ClientMetricsWriter_new demo_fp (\<lambda>_. None) AtomicClientMetrics_new
     (ClientMetricsConfig_default\<lparr>mcfg_runId := ''r1''\<rparr>) demo_manifest (\<lambda>_. [])"

definition demo_start :: WriterStartEnv where
  "demo_start = \<lparr>ws_now = 0, ws_processId = 1, ws_createError = None, ws_manifest = \<lparr>fe_open = True, fe_good = True\<rparr>,
     ws_capture = demo_capture, ws_threadError = None\<rparr>"

lemma demo_client_started:
  "fst (ClientWriter_Start demo_fp (Client_TakeSnapshot demo_fp) demo_start demo_client_writer)"
  "\<not> kw_running demo_client_writer" "mcfg_enabled (kw_config demo_client_writer)" "kw_files demo_client_writer path = []"
  by (simp_all add: demo_client_writer_def ClientMetricsWriter_new_def ClientMetricsConfig_default_def ClientWriter_Start_def
      demo_start_def Client_InitializeArtifacts_def Client_WriteManifest_def Client_CaptureAndWriteSnapshot_def demo_capture_def
      SampleRuntime_def Let_def split: prod.splits)


end
