(* ===== verification/ClientProgram.thy ===== *)
theory ClientProgram
  imports ServerProgram ClientWriter
begin

text \<open>
  The two client programs as whole runs: \<open>main\<close> of the chat client
  (exec/chat/chat-client/main.cpp) and of the echo client
  (exec/echo/echo-client/main.cpp).

  While the chat client waits for a line of the console its receive thread runs: the
  loop of \<open>ChatCli::Run\<close> is given here with those turns, and without them it is
  \<open>run_lines\<close>.  The end of the connection is a run of \<open>thread_step\<close> in which
  \<open>Disconnect\<close> returns.
\<close>

section \<open>The command line with the receive thread\<close>

record 'w CliRun =
  cp_run :: "'w ClientRun"
  cp_nickname :: string
  cp_joined :: bool

definition cli_of :: "'w CliRun \<Rightarrow> 'w ChatCli" where
  "cli_of p = \<lparr>cli_client = cr_client (cp_run p), cli_world = cr_world (cp_run p),
     cli_nickname = cp_nickname p, cli_joined = cp_joined p\<rparr>"

definition put_cli :: "'w ChatCli \<Rightarrow> 'w CliRun \<Rightarrow> 'w CliRun" where
  "put_cli cli p = p\<lparr>cp_run := (cp_run p)\<lparr>cr_client := cli_client cli, cr_world := cli_world cli\<rparr>,
     cp_nickname := cli_nickname cli, cp_joined := cli_joined cli\<rparr>"

abbreviation on_cli :: "('w ChatCli \<Rightarrow> 'w ChatCli) \<Rightarrow> 'w CliRun \<Rightarrow> 'w CliRun" where
  "on_cli f p \<equiv> put_cli (f (cli_of p)) p"

text \<open>\<open>turns k\<close> is what the receive thread does during the k-th wait for a line.\<close>

fun cli_lines ::
  "PacketApi \<Rightarrow> 'w send_fn \<Rightarrow> (nat \<Rightarrow> 'w ClientRun \<Rightarrow> 'w ClientRun) \<Rightarrow> nat \<Rightarrow> (uint64 \<times> string) list \<Rightarrow> 'w CliRun \<Rightarrow> 'w CliRun" where
  "cli_lines api send turns k [] p =
     (let p1 = on_cli PrintPrompt p
      in on_cli (on_console HidePrompt) (p1\<lparr>cp_run := turns k (cp_run p1)\<rparr>))"
| "cli_lines api send turns k ((nowNs, line) # rest) p =
     (let p1 = on_cli PrintPrompt p;
          p2 = on_cli (on_console HidePrompt) (p1\<lparr>cp_run := turns k (cp_run p1)\<rparr>)
      in if line = [] then cli_lines api send turns (Suc k) rest p2
         else case (if hd line = CHR ''/'' then HandleCommand api send nowNs line (cli_of p2)
                    else HandleChat api send nowNs line (cli_of p2)) of
                (Act_Quit, cli) \<Rightarrow> put_cli cli p2
              | (Act_Continue, cli) \<Rightarrow> cli_lines api send turns (Suc k) rest (put_cli cli p2))"

lemma cli_of_put [simp]: "cli_of (put_cli cli p) = cli"
  by (simp add: cli_of_def put_cli_def)

lemma put_put [simp]: "put_cli a (put_cli b p) = put_cli a p"
  by (simp add: put_cli_def)

text \<open>With a receive thread that does nothing the loop is that of \<open>Cli_Run\<close>.\<close>

lemma cli_lines_alone: "cli_lines api send (\<lambda>_. id) k input p = put_cli (run_lines api send input (cli_of p)) p"
proof (induction input arbitrary: k p)
  case Nil
  then show ?case by (simp add: Let_def)
next
  case (Cons x input)
  obtain nowNs line where x: "x = (nowNs, line)" by fastforce
  show ?case using Cons.IH by (auto simp: x Let_def split: prod.splits Action.splits)
qed

section \<open>The chat client\<close>

type_synonym IClientMetrics = "AtomicClientMetrics + unit"

definition make_client_metrics :: "ClientMetricsConfig \<Rightarrow> IClientMetrics" where
  "make_client_metrics config = (if mcfg_enabled config then Inl AtomicClientMetrics_new else Inr ())"

definition client_metrics_call :: "uint64 \<times> ClientMetric \<Rightarrow> IClientMetrics \<Rightarrow> IClientMetrics" where
  "client_metrics_call c m =
     (case m of Inl a \<Rightarrow> Inl (client_metric (fst c) (snd c) a) | Inr n \<Rightarrow> Inr (noop_client_metric (fst c) (snd c) n))"

definition live_client_snapshot ::
  "'d Fp \<Rightarrow> (ticks \<Rightarrow> (uint64 \<times> ClientMetric) list) \<Rightarrow> ('d, IClientMetrics) client_snapshot_fn" where
  "live_client_snapshot fp calls nowNs now m =
     (case fold client_metrics_call (calls now) m of
        Inl a \<Rightarrow> (case Client_TakeSnapshot fp nowNs now a of (snap, a') \<Rightarrow> (snap, Inl a'))
      | Inr n \<Rightarrow> (case noop_TakeSnapshot fp nowNs now n of (snap, n') \<Rightarrow> (snap, Inr n')))"

text \<open>What the program finds outside.  \<open>kc_disconnect\<close> is the call of \<open>Disconnect\<close> together
  with the turns of the receive thread meanwhile; \<open>None\<close> when its join never returns.\<close>

record 'w ClientProgramEnv =
  kc_getenv :: "string \<Rightarrow> string option"
  kc_debug :: bool
  kc_terminal :: bool
  kc_api :: PacketApi
  kc_send :: "'w send_fn"
  kc_recv :: "'w recv_fn"
  kc_names :: EnumNames
  kc_connect :: ClientConnectEnv
  kc_nickname :: "string option"
  kc_input :: "(uint64 \<times> string) list"
  kc_turns :: "nat \<Rightarrow> 'w ClientRun \<Rightarrow> 'w ClientRun"
  kc_disconnect :: "'w ClientRun \<Rightarrow> 'w ClientRun option"
  kc_now :: uint64
  kc_calls :: "ticks \<Rightarrow> (uint64 \<times> ClientMetric) list"
  kc_writerStart :: WriterStartEnv
  kc_rounds :: "nat \<Rightarrow> WriterRound"
  kc_writerStop :: WriterStopEnv

datatype ClientEvent = Ev_WriterStarted bool | Ev_Connect bool | Ev_Disconnect | Ev_WriterStopped

record ('d, 'w) ClientProgram =
  kp_cli :: "'w CliRun"
  kp_writer :: "('d, IClientMetrics) ClientMetricsWriter"
  kp_events :: "ClientEvent list"

definition client_manifest :: "bool \<Rightarrow> string \<Rightarrow> 16 word \<Rightarrow> RunManifest" where
  "client_manifest debug ipAddress port =
     \<lparr>man_runId = [], man_scenarioName = [], man_serverName = ''chat-client'', man_gitCommit = [], man_gitBranch = [],
      man_buildType = (if debug then ''Debug'' else ''Release''), man_machineInfo = [], man_targetHost = ipAddress,
      man_outputRoot = ''artifacts/load-tests'', man_startedAt = None, man_finishedAt = None,
      man_targetPort = port, man_plannedClients = 0, man_messageSizeBytes = 0, man_sendIntervalMs = 0,
      man_durationSec = 0\<rparr>"

abbreviation on_program_client :: "(ChatClient \<Rightarrow> ChatClient) \<Rightarrow> ('d, 'w) ClientProgram \<Rightarrow> ('d, 'w) ClientProgram" where
  "on_program_client f m \<equiv> m\<lparr>kp_cli := (kp_cli m)\<lparr>cp_run := (cp_run (kp_cli m))\<lparr>cr_client := f (cr_client (cp_run (kp_cli m)))\<rparr>\<rparr>\<rparr>"

text \<open>The locals whose destructors do something, and what the two guards call.\<close>

datatype ClientDeferFn = Fn_StopWriter | Fn_Disconnect

datatype ClientLocal =
    Local_clientWriter
  | Local_clientDefer "ClientDeferFn Defer"
  | Local_client

definition stop_client_writer ::
  "'d Fp \<Rightarrow> 'w ClientProgramEnv \<Rightarrow> ('d, 'w) ClientProgram \<Rightarrow> ('d, 'w) ClientProgram option" where
  "stop_client_writer fp pe m =
     map_option (\<lambda>w. m\<lparr>kp_writer := w\<rparr>)
       (ClientWriter_Stop fp (live_client_snapshot fp (kc_calls pe)) (kc_rounds pe) (kc_writerStop pe) (kp_writer m))"

fun run_client_defer ::
  "'d Fp \<Rightarrow> 'w ClientProgramEnv \<Rightarrow> ClientDeferFn \<Rightarrow> ('d, 'w) ClientProgram \<Rightarrow> ('d, 'w) ClientProgram option" where
  "run_client_defer fp pe Fn_StopWriter m =
     map_option (\<lambda>m'. m'\<lparr>kp_events := kp_events m' @ [Ev_WriterStopped]\<rparr>) (stop_client_writer fp pe m)"
| "run_client_defer fp pe Fn_Disconnect m =
     map_option (\<lambda>r. m\<lparr>kp_cli := (kp_cli m)\<lparr>cp_run := r\<rparr>, kp_events := kp_events m @ [Ev_Disconnect]\<rparr>)
       (kc_disconnect pe (cp_run (kp_cli m)))"

fun destroy_client_local ::
  "'d Fp \<Rightarrow> 'w ClientProgramEnv \<Rightarrow> ClientLocal \<Rightarrow> ('d, 'w) ClientProgram \<Rightarrow> ('d, 'w) ClientProgram option" where
  "destroy_client_local fp pe Local_client m = Some (on_program_client (ChatClient_destroy (kc_now pe)) m)"
| "destroy_client_local fp pe (Local_clientDefer d) m =
     fold (\<lambda>f r. Option.bind r (run_client_defer fp pe f)) (fst (Defer_destroy d)) (Some m)"
| "destroy_client_local fp pe Local_clientWriter m = stop_client_writer fp pe m"

text \<open>\<open>main\<close> up to the construction of the client: whether the metrics writer started, the
  writer and the client.\<close>

definition client_begin ::
  "'d Fp \<Rightarrow> (string \<Rightarrow> string) \<Rightarrow> 'w ClientProgramEnv \<Rightarrow> bool \<times> ('d, IClientMetrics) ClientMetricsWriter \<times> ChatClient" where
  "client_begin fp files pe =
     (let con = Console_Log ''INFO'' ''Chat Client starting...'' (ConsoleState_new (kc_terminal pe));
          metricsConfig = Client_FromEnvironment (kc_getenv pe);
          metricsWriter = ClientMetricsWriter_new fp (kc_getenv pe) (make_client_metrics metricsConfig) metricsConfig
            (client_manifest (kc_debug pe) ''127.0.0.1'' 8080) files
      in case ClientWriter_Start fp (live_client_snapshot fp (kc_calls pe)) (kc_writerStart pe) metricsWriter of
           (ok, w) \<Rightarrow>
             (ok, w, ChatClient_new True (mcfg_responseTimeout metricsConfig)
                (if ok then con
                 else Console_Log ''ERROR'' (''Failed to start client metrics writer: '' @ ClientWriter_LastError w) con)))"

text \<open>The session at the command line, from the start of the receive loop.\<close>

definition client_session :: "'w \<Rightarrow> 'w ClientProgramEnv \<Rightarrow> ChatClient \<Rightarrow> 'w CliRun" where
  "client_session world pe c =
     (let p0 = \<lparr>cp_run = kc_turns pe 0 (StartRecvLoop c world), cp_nickname = [], cp_joined = False\<rparr>;
          p1 = on_cli (PromptNickname (kc_nickname pe)) p0
      in cli_lines (kc_api pe) (kc_send pe) (kc_turns pe) 1 (kc_input pe) (on_cli PrintHelp p1))"

text \<open>Without a connection there is no receive thread; the client is then kept in a
  record with an ended one.\<close>

definition client_main :: "'d Fp \<Rightarrow> (string \<Rightarrow> string) \<Rightarrow> 'w \<Rightarrow> 'w ClientProgramEnv \<Rightarrow> ('d, 'w) ClientProgram outcome" where
  "client_main fp files world pe =
     (case client_begin fp files pe of (ok, w, c0) \<Rightarrow>
      case ChatClient_Connect (kc_connect pe) ''127.0.0.1'' 8080 c0 of
        (False, c) \<Rightarrow>
          let r = \<lparr>cr_client = log_line ''ERROR'' ''Failed to connect to server.'' c, cr_world = world,
                   cr_stop = False, cr_main = Main_Idle, cr_recv = Recv_Exited\<rparr>
          in return_from (-1) (leave_scope (destroy_client_local fp pe)
               [Local_clientWriter, Local_clientDefer (Defer_new Fn_StopWriter), Local_client]
               \<lparr>kp_cli = \<lparr>cp_run = r, cp_nickname = [], cp_joined = False\<rparr>, kp_writer = w,
                kp_events = [Ev_WriterStarted ok, Ev_Connect False]\<rparr>)
      | (True, c) \<Rightarrow>
          return_from 0 (leave_scope (destroy_client_local fp pe)
            [Local_clientWriter, Local_clientDefer (Defer_new Fn_StopWriter), Local_client,
             Local_clientDefer (Defer_new Fn_Disconnect)]
            \<lparr>kp_cli = client_session world pe c, kp_writer = w, kp_events = [Ev_WriterStarted ok, Ev_Connect True]\<rparr>))"

section \<open>The command line leaves the connection alone\<close>

definition same_connection :: "ChatClient \<Rightarrow> ChatClient \<Rightarrow> bool" where
  "same_connection c d \<longleftrightarrow> cc_hasMetrics d = cc_hasMetrics c \<and> disconnects d = disconnects c
     \<and> cc_isConnected d = cc_isConnected c \<and> cc_recvThread d = cc_recvThread c
     \<and> cc_tcpClientSocket d = cc_tcpClientSocket c \<and> cc_packetStream d = cc_packetStream c
     \<and> cc_wsaSession d = cc_wsaSession c \<and> cc_os d = cc_os c"

lemma same_connection_refl [simp]: "same_connection c c"
  by (simp add: same_connection_def)

lemma same_connection_trans: "same_connection c d \<Longrightarrow> same_connection d e \<Longrightarrow> same_connection c e"
  by (simp add: same_connection_def)

lemma same_connection_log [simp]:
  "same_connection c (log_line level msg d) = same_connection c d"
  "same_connection c (d\<lparr>cc_console := con\<rparr>) = same_connection c d"
  "same_connection c (d\<lparr>cc_nextSequence := n\<rparr>) = same_connection c d"
  "(\<forall>reason. call \<noteq> CM_Disconnected reason) \<Longrightarrow> same_connection c (report nowNs call d) = same_connection c d"
  by (simp_all add: same_connection_def disconnects_def log_line_def report_def)

lemma same_connection_send [simp]:
  "same_connection c (fst (ChatClient_Send api send nowNs pkt tr (d, w))) = same_connection c d"
  by (auto simp: ChatClient_Send_def Let_def split: option.splits sum.splits prod.splits)

lemma same_connection_senders [simp]:
  "same_connection c (fst (sendJoinRoom api send nowNs name (d, w))) = same_connection c d"
  "same_connection c (fst (sendLeave api send nowNs (d, w))) = same_connection c d"
  "same_connection c (fst (sendMessage api send nowNs name msg (d, w))) = same_connection c d"
  by (simp_all add: sendJoinRoom_def sendLeave_def sendMessage_def NextSequence_def)

lemma same_connection_cli [simp]:
  "same_connection c (cli_client (PrintHelp cli)) = same_connection c (cli_client cli)"
  "same_connection c (cli_client (PrintPrompt cli)) = same_connection c (cli_client cli)"
  "same_connection c (cli_client (PromptNickname input cli)) = same_connection c (cli_client cli)"
  "same_connection c (cli_client (snd (HandleCommand api send nowNs line cli))) = same_connection c (cli_client cli)"
  "same_connection c (cli_client (snd (HandleChat api send nowNs line cli))) = same_connection c (cli_client cli)"
  by (simp_all add: PrintHelp_def PrintPrompt_def PromptNickname_def Let_def HandleCommand_def HandleChat_def
      split: Command.splits)

text \<open>The state of a connection while \<open>main\<close> is not ending it.\<close>

definition run_ok :: "SocketHandle \<Rightarrow> 'w ClientRun \<Rightarrow> bool" where
  "run_ok h r \<longleftrightarrow> cr_main r = Main_Idle \<and> reports_inv r \<and> release_inv h r"

lemma same_connection_inv:
  assumes "same_connection (cr_client r) c"
  shows "reports_inv (r\<lparr>cr_client := c, cr_world := w\<rparr>) = reports_inv r"
    "release_inv h (r\<lparr>cr_client := c, cr_world := w\<rparr>) = release_inv h r"
  using assms by (simp_all add: same_connection_def reports_inv_def release_inv_def Let_def)

lemma put_cli_ok:
  "run_ok h (cp_run p) \<Longrightarrow> same_connection (cr_client (cp_run p)) (cli_client cli) \<Longrightarrow> run_ok h (cp_run (put_cli cli p))"
  by (simp add: run_ok_def put_cli_def same_connection_inv)

lemma on_cli_ok:
  assumes "run_ok h (cp_run p)" and "same_connection (cr_client (cp_run p)) (cli_client (f (cli_of p)))"
  shows "run_ok h (cp_run (on_cli f p))"
  using assms by (rule put_cli_ok)

lemma thread_steps_inv:
  assumes "(thread_step api recv cb)\<^sup>*\<^sup>* r r'" and "only_console cb" and "h \<noteq> InvalidSocket" and "reports_inv r" and "release_inv h r"
  shows "reports_inv r' \<and> release_inv h r'"
  using assms by (induction rule: rtranclp_induct) (auto dest: reports_inv_step release_inv_step)

text \<open>What is assumed of the turns: they are steps of the two threads in which \<open>main\<close>
  does not begin to disconnect.\<close>

definition receive_turns :: "PacketApi \<Rightarrow> 'w recv_fn \<Rightarrow> EnumNames \<Rightarrow> (nat \<Rightarrow> 'w ClientRun \<Rightarrow> 'w ClientRun) \<Rightarrow> bool" where
  "receive_turns api recv names turns \<longleftrightarrow> (\<forall>k r. cr_main r = Main_Idle \<longrightarrow>
     (thread_step api recv (onPacketReceived names))\<^sup>*\<^sup>* r (turns k r) \<and> cr_main (turns k r) = Main_Idle)"

lemma turn_ok:
  assumes "receive_turns api recv names turns" and "h \<noteq> InvalidSocket" and "run_ok h r"
  shows "run_ok h (turns k r)"
proof -
  have "(thread_step api recv (onPacketReceived names))\<^sup>*\<^sup>* r (turns k r)" "cr_main (turns k r) = Main_Idle"
    using assms(1,3) by (auto simp: receive_turns_def run_ok_def)
  then show ?thesis
    using thread_steps_inv [OF _ onPacketReceived_only_console assms(2)] assms(3) unfolding run_ok_def by blast
qed

lemma wait_ok:
  assumes "receive_turns api recv names turns" and "h \<noteq> InvalidSocket" and "run_ok h (cp_run p)"
    and "p1 = on_cli PrintPrompt p"
  shows "run_ok h (cp_run (on_cli (on_console HidePrompt) (p1\<lparr>cp_run := turns k (cp_run p1)\<rparr>)))"
proof -
  have "run_ok h (cp_run p1)" using assms(3) unfolding assms(4) by (intro on_cli_ok) (simp_all add: cli_of_def)
  then have "run_ok h (cp_run (p1\<lparr>cp_run := turns k (cp_run p1)\<rparr>))" using turn_ok [OF assms(1,2)] by simp
  then show ?thesis by (intro on_cli_ok) (simp_all add: cli_of_def)
qed

lemma cli_lines_ok:
  assumes "receive_turns api recv names turns" and "h \<noteq> InvalidSocket" and "run_ok h (cp_run p)"
  shows "run_ok h (cp_run (cli_lines api send turns k input p))"
  using assms(3)
proof (induction input arbitrary: k p)
  case Nil
  then show ?case using wait_ok [OF assms(1,2) _ refl] by (simp add: Let_def)
next
  case (Cons x input)
  obtain nowNs line where x: "x = (nowNs, line)" by fastforce
  define p1 where "p1 = on_cli PrintPrompt p"
  define p2 where "p2 = on_cli (on_console HidePrompt) (p1\<lparr>cp_run := turns k (cp_run p1)\<rparr>)"
  have p2: "run_ok h (cp_run p2)" unfolding p2_def by (rule wait_ok [OF assms(1,2) Cons.prems p1_def])
  obtain act cli where h: "(if hd line = CHR ''/'' then HandleCommand api send nowNs line (cli_of p2)
      else HandleChat api send nowNs line (cli_of p2)) = (act, cli)" by fastforce
  have "same_connection (cr_client (cp_run p2)) (cli_client (snd (if hd line = CHR ''/''
      then HandleCommand api send nowNs line (cli_of p2) else HandleChat api send nowNs line (cli_of p2))))"
    by (simp add: cli_of_def)
  then have "same_connection (cr_client (cp_run p2)) (cli_client cli)" by (simp only: h snd_conv)
  then have "run_ok h (cp_run (put_cli cli p2))" by (rule put_cli_ok [OF p2])
  moreover have "cli_lines api send turns k (x # input) p =
      (if line = [] then cli_lines api send turns (Suc k) input p2
       else case act of Act_Quit \<Rightarrow> put_cli cli p2 | Act_Continue \<Rightarrow> cli_lines api send turns (Suc k) input (put_cli cli p2))"
    unfolding x cli_lines.simps Let_def p1_def [symmetric] p2_def [symmetric] h by (cases act) simp_all
  ultimately show ?case using Cons.IH p2 by (cases act) auto
qed

section \<open>Stopping the writer\<close>

lemma ClientWriter_Start_fresh:
  assumes "ClientWriter_Start fp ts env w = (ok, w')" and "\<not> kw_running w" and "\<not> kw_worker w"
  shows "(kw_running w' \<longrightarrow> kw_worker w') \<and> kw_config w' = kw_config w \<and> (ok \<and> mcfg_enabled (kw_config w) \<longrightarrow> kw_worker w')"
proof -
  have init: "kw_config w2 = kw_config u \<and> kw_running w2 = kw_running u \<and> kw_worker w2 = kw_worker u"
    if "Client_InitializeArtifacts e u = (b, w2)" for e u b w2
    using that by (auto simp: Client_InitializeArtifacts_def Let_def split: option.splits)
  have man: "kw_config w2 = kw_config u \<and> kw_running w2 = kw_running u \<and> kw_worker w2 = kw_worker u"
    if "Client_WriteManifest e u = (b, w2)" for e u b w2
    using that by (auto simp: Client_WriteManifest_def split: if_splits)
  have cap: "kw_config w2 = kw_config u \<and> kw_running w2 = kw_running u \<and> kw_worker w2 = kw_worker u"
    if "Client_CaptureAndWriteSnapshot fp ts fin e u = (b, w2)" for e u b w2 fin
    using capture_other(4,6,7) [of fp ts fin e u] that by simp
  show ?thesis
    using assms
    by (auto simp: ClientWriter_Start_def Let_def split: option.splits bool.splits prod.splits if_splits
        dest!: init man cap)
qed

lemma ClientWriter_Stop_outcome:
  assumes "wrd_stop (rounds n)" and "kw_running w \<longrightarrow> kw_worker w"
  shows "\<exists>w'. ClientWriter_Stop fp ts rounds env w = Some w' \<and> \<not> kw_running w' \<and> \<not> kw_worker w'
    \<and> (mcfg_enabled (kw_config w) \<and> kw_worker w \<longrightarrow> man_finishedAt (kw_manifest w') \<noteq> None)"
proof (cases "kw_worker w")
  case True
  let ?cap = "Client_CaptureAndWriteSnapshot fp ts False"
  obtain m where m: "thread_loop ?cap rounds 0 w = Some (capture_rounds ?cap rounds 0 m w)"
    using thread_loop_returns [of rounds 0 n ?cap w] assms(1) by auto
  have man: "kw_manifest (snd (Client_WriteManifest e u)) = kw_manifest u" "kw_running (snd (Client_WriteManifest e u)) = kw_running u"
      "kw_worker (snd (Client_WriteManifest e u)) = kw_worker u" for e u
    by (simp_all add: Client_WriteManifest_def)
  have fin: "kw_running (client_finish_run fp ts env u) = kw_running u" "kw_worker (client_finish_run fp ts env u) = kw_worker u"
      "man_finishedAt (kw_manifest (client_finish_run fp ts env u)) \<noteq> None" for u
    by (auto simp: client_finish_run_def Let_def man capture_other)
  have "kw_config (capture_rounds ?cap rounds 0 m w) = kw_config w"
    by (rule capture_rounds_keeps) (rule capture_other)
  then show ?thesis
    using True m fin by (auto simp: ClientWriter_Stop_def Client_ThreadMain_def Let_def)
next
  case False
  then show ?thesis using assms(2) by (simp add: ClientWriter_Stop_def)
qed

lemma stop_client_writer_outcome:
  assumes "wrd_stop (kc_rounds pe n)" and "kw_running (kp_writer m) \<longrightarrow> kw_worker (kp_writer m)"
  obtains w where "stop_client_writer fp pe m = Some (m\<lparr>kp_writer := w\<rparr>)" and "\<not> kw_running w" and "\<not> kw_worker w"
    and "mcfg_enabled (kw_config (kp_writer m)) \<and> kw_worker (kp_writer m) \<longrightarrow> man_finishedAt (kw_manifest w) \<noteq> None"
  using ClientWriter_Stop_outcome [where rounds = "kc_rounds pe" and n = n and w = "kp_writer m" and fp = fp
      and ts = "live_client_snapshot fp (kc_calls pe)" and env = "kc_writerStop pe"] assms that
  by (auto simp: stop_client_writer_def)

lemma stop_client_writer_again:
  "\<not> kw_running (kp_writer m) \<Longrightarrow> \<not> kw_worker (kp_writer m) \<Longrightarrow> stop_client_writer fp pe m = Some m"
  by (simp add: stop_client_writer_def ClientWriter_Stop_def)

section \<open>The run of the chat client\<close>

text \<open>The writer that \<open>main\<close> starts.  The configuration of the writer is enabled exactly when
  the one \<open>main\<close> reads is: when that one is the default, the writer reads the same
  environment again.\<close>

lemma client_begin_fields:
  assumes "client_begin fp files pe = (ok, w, c0)"
  shows "(kw_running w \<longrightarrow> kw_worker w) \<and> mcfg_enabled (kw_config w) = mcfg_enabled (Client_FromEnvironment (kc_getenv pe))
    \<and> (ok \<and> mcfg_enabled (kw_config w) \<longrightarrow> kw_worker w)
    \<and> (\<exists>tmo con. c0 = ChatClient_new True tmo con)"
proof -
  let ?cfg = "Client_FromEnvironment (kc_getenv pe)"
  let ?w0 = "ClientMetricsWriter_new fp (kc_getenv pe) (make_client_metrics ?cfg) ?cfg
    (client_manifest (kc_debug pe) ''127.0.0.1'' 8080) files"
  have w0: "\<not> kw_running ?w0" "\<not> kw_worker ?w0" "mcfg_enabled (kw_config ?w0) = mcfg_enabled ?cfg"
    by (simp_all add: ClientMetricsWriter_new_def Let_def)
  have "ClientWriter_Start fp (live_client_snapshot fp (kc_calls pe)) (kc_writerStart pe) ?w0 = (ok, w)"
    using assms by (auto simp: client_begin_def Let_def split: prod.splits)
  from ClientWriter_Start_fresh [OF this w0(1,2)] w0(3) assms show ?thesis
    by (auto simp: client_begin_def Let_def split: prod.splits)
qed

lemma client_session_ok:
  assumes "ChatClient_Connect (kc_connect pe) ip port (ChatClient_new True tmo con) = (True, c)"
    and "receive_turns (kc_api pe) (kc_recv pe) (kc_names pe) (kc_turns pe)" and "h = env_socket (ce_net (kc_connect pe))"
  shows "h \<noteq> InvalidSocket \<and> run_ok h (cp_run (client_session world pe c))"
proof -
  have h: "h \<noteq> InvalidSocket" "run_ok h (StartRecvLoop c world)"
    using connected_inv [OF assms(1), of world] assms(3) by (simp_all add: run_ok_def StartRecvLoop_def)
  let ?p0 = "\<lparr>cp_run = kc_turns pe 0 (StartRecvLoop c world), cp_nickname = [], cp_joined = False\<rparr>"
  have "run_ok h (cp_run ?p0)" using turn_ok [OF assms(2) h] by simp
  then have "run_ok h (cp_run (on_cli (PromptNickname (kc_nickname pe)) ?p0))"
    by (rule on_cli_ok) (simp add: cli_of_def)
  then have "run_ok h (cp_run (on_cli PrintHelp (on_cli (PromptNickname (kc_nickname pe)) ?p0)))"
    by (rule on_cli_ok) (simp add: cli_of_def put_cli_def)
  then show ?thesis using h(1) cli_lines_ok [OF assms(2) h(1)] by (simp add: client_session_def Let_def)
qed

lemma leave_scope_last: "leave_scope destroy (ls @ [l]) s = Option.bind (destroy l s) (leave_scope destroy ls)"
  by (induction ls; cases "destroy l s") simp_all

lemma finish_client:
  assumes "wrd_stop (kc_rounds pe n)" and "client_begin fp files pe = (started, kp_writer m, c0)"
    and "\<not> cc_isConnected c" and "\<not> cc_recvThread c" and "cc_tcpClientSocket c = None" and "cc_wsaSession c = None"
    and "c = cr_client (cp_run (kp_cli m))"
  obtains m' where "leave_scope (destroy_client_local fp pe)
      [Local_clientWriter, Local_clientDefer (Defer_new Fn_StopWriter), Local_client] m = Some m'"
    and "kp_cli m' = kp_cli m" and "kp_events m' = kp_events m @ [Ev_WriterStopped]"
    and "\<not> kw_running (kp_writer m')" and "\<not> kw_worker (kp_writer m')"
    and "started \<and> mcfg_enabled (Client_FromEnvironment (kc_getenv pe)) \<longrightarrow> man_finishedAt (kw_manifest (kp_writer m')) \<noteq> None"
proof -
  note b = client_begin_fields [OF assms(2)]
  then obtain w where w: "stop_client_writer fp pe m = Some (m\<lparr>kp_writer := w\<rparr>)" "\<not> kw_running w" "\<not> kw_worker w"
      "mcfg_enabled (kw_config (kp_writer m)) \<and> kw_worker (kp_writer m) \<longrightarrow> man_finishedAt (kw_manifest w) \<noteq> None"
    using stop_client_writer_outcome [OF assms(1)] by blast
  let ?m = "m\<lparr>kp_writer := w, kp_events := kp_events m @ [Ev_WriterStopped]\<rparr>"
  have "on_program_client (ChatClient_destroy (kc_now pe)) m = m"
    using assms(3-7) by (simp add: ChatClient_destroy_def)
  then have "leave_scope (destroy_client_local fp pe)
      [Local_clientWriter, Local_clientDefer (Defer_new Fn_StopWriter), Local_client] m = Some ?m"
    using w stop_client_writer_again [of ?m fp pe] by (simp add: Defer_new_def Defer_destroy_def)
  then show ?thesis using that [of ?m] w b by simp
qed

lemma refused_connection:
  assumes "ChatClient_Connect env ip port (ChatClient_new b tmo con) = (False, c)"
  shows "\<not> cc_isConnected c \<and> \<not> cc_recvThread c \<and> cc_tcpClientSocket c = None \<and> cc_wsaSession c = None"
  using assms by (auto simp: ChatClient_Connect_def ChatClient_new_def Let_def split: sum.splits prod.splits)


text \<open>A client whose user ends the input at once.\<close>

definition quiet_schedule :: "bool list" where
  "quiet_schedule = [True, True, True, False, True]"

lemma quiet_run:
  assumes "cr_main r = Main_Idle" and "cr_recv r = Recv_TestStop" and "cc_recvThread (cr_client r)"
  shows "\<exists>r'. run_schedule api recv cb t quiet_schedule r = Some r' \<and> cr_main r' = Main_Returned"
  using assms by (simp add: quiet_schedule_def main_turn_def recv_turn_def disconnect_exchange_def)

definition demo_client_program :: "unit ClientProgramEnv" where
  "demo_client_program =
     \<lparr>kc_getenv = (\<lambda>_. None), kc_debug = True, kc_terminal = True, kc_api = tiny_api, kc_send = (\<lambda>_ _ w. (-1, w)),
      kc_recv = closed_recv, kc_names = \<lparr>en_message = (\<lambda>_. []), en_error = (\<lambda>_. [])\<rparr>, kc_connect = demo_connect,
      kc_nickname = None, kc_input = [], kc_turns = (\<lambda>_. id),
      kc_disconnect = run_schedule tiny_api closed_recv (onPacketReceived \<lparr>en_message = (\<lambda>_. []), en_error = (\<lambda>_. [])\<rparr>) 20 quiet_schedule,
      kc_now = 30, kc_calls = (\<lambda>_. []), kc_writerStart = demo_start, kc_rounds = demo_rounds,
      kc_writerStop = \<lparr>wz_now = 9, wz_capture = demo_capture, wz_manifest = \<lparr>fe_open = True, fe_good = True\<rparr>, wz_summaryOpen = True\<rparr>\<rparr>"

lemma put_cli_recv [simp]: "cr_recv (cp_run (put_cli cli p)) = cr_recv (cp_run p)" "cr_main (cp_run (put_cli cli p)) = cr_main (cp_run p)"
  by (simp_all add: put_cli_def)


section \<open>The echo client\<close>

definition echo_message :: "nat \<Rightarrow> byte list" where
  "echo_message i = map of_char (the (vformat ''Hello from echo clientSocket! #{}'' [render_nat (i + 1)]))"

definition echo_client_main ::
  "int \<Rightarrow> ConnectEnv \<Rightarrow> 'w send_fn \<Rightarrow> 'w recv_fn \<Rightarrow> 'w \<Rightarrow> (EchoClient \<times> 'w) outcome" where
  "echo_client_main startup env send recv w =
     (let ec = echo_log (EL_Info ''hello, echo clientSocket 1!'') EchoClient_new in
      case EchoClient_Connect startup env 8080 ec of
        (False, c) \<Rightarrow> Exit (-1) (EchoClient_destroy (echo_log (EL_Error ''echo clientSocket connect failed.'') c), w)
      | (True, c) \<Rightarrow>
          case fold (\<lambda>i. EchoClient_Send send recv (echo_message i)) [0..<5] (c, w) of
            (c1, w1) \<Rightarrow> Exit 0 (EchoClient_destroy (snd (EchoClient_Disconnect c1)), w1))"

lemma echo_sends:
  assumes "ec_tcpClientSocket c = Some s" and "tcp_IsConnected s" and "ec_packetStream c = Some \<lparr>ps_maxFrameSize = maxFrameSize\<rparr>"
    and "send_contract send wire" and "send_progress send" and "recv_contract recv wire"
    and "\<forall>i \<in> set is. length (msg i) \<le> maxFrameSize" and "wire w = []"
    and "fold (\<lambda>i. EchoClient_Send send recv (msg i)) is (c, w) = (c', w')"
  shows "wire w' = [] \<and> c' = c\<lparr>ec_log := ec_log c @ concat (map (\<lambda>i. [EL_Sent (msg i), EL_Received (msg i)]) is)\<rparr>"
  using assms
proof (induction "is" arbitrary: c w)
  case (Cons i "is")
  obtain w1 where w1: "SendFrame send s (msg i) w = (Inr (), w1)" "wire w1 = encode_frame (msg i)"
    using SendFrame_wire [OF assms(4,5,2), of "msg i" w] Cons.prems(8) by auto
  obtain w2 where w2: "RecvFrame recv s \<lparr>ps_maxFrameSize = maxFrameSize\<rparr> [] w1 = (Inr (length (msg i)), msg i, w2)" "wire w2 = []"
    using RecvFrame_frame [OF assms(6,2), of "\<lparr>ps_maxFrameSize = maxFrameSize\<rparr>" "msg i" w1 "[]" "[]"] w1(2) Cons.prems(7)
    by (auto simp: maxFrameSize_def)
  let ?c = "echo_log (EL_Received (msg i)) (echo_log (EL_Sent (msg i)) c)"
  have "EchoClient_Send send recv (msg i) (c, w) = (?c, w2)"
    using Cons.prems(1-3) by (simp add: EchoClient_Send_def w1 w2 Let_def)
  then show ?case using Cons.IH [of ?c w2] Cons.prems w2(2) by simp
qed simp

lemma echo_message_short:
  assumes "i < 5"
  shows "length (echo_message i) \<le> maxFrameSize"
proof -
  have "\<forall>i \<in> {0, 1, 2, 3, 4}. length (echo_message i) = 32"
    by (simp add: echo_message_def render_nat.simps)
  moreover have "i \<in> {0, 1, 2, 3, 4}" using assms by auto
  ultimately have "length (echo_message i) = 32" by blast
  then show ?thesis by (simp add: maxFrameSize_def)
qed

text \<open>C35: a run of the echo client against a peer that returns the bytes it gets.  However
  \<open>send\<close> and \<open>recv\<close> cut the stream, it returns 0, its log shows each of the five messages
  sent and then received unchanged, in order, nothing is left on the wire, and the
  socket and the Winsock session are released exactly once, although \<open>Disconnect\<close> is
  called by \<open>main\<close> and again by the destructor.\<close>

theorem echo_client_main_echoes:
  assumes "startup = 0" and "env_socket env \<noteq> InvalidSocket" and "env_pton env = 1" and "env_connect env \<noteq> SocketError"
    and "send_contract send wire" and "send_progress send" and "recv_contract recv wire" and "wire w = []"
  shows "\<exists>c w'. echo_client_main startup env send recv w = Exit 0 (c, w') \<and> wire w' = []
    \<and> filter (\<lambda>l. case l of EL_Sent _ \<Rightarrow> True | EL_Received _ \<Rightarrow> True | EL_Error _ \<Rightarrow> True | _ \<Rightarrow> False) (ec_log c)
      = concat (map (\<lambda>i. [EL_Sent (echo_message i), EL_Received (echo_message i)]) [0..<5])
    \<and> count_list (ec_os c) (OsCloseSocket (env_socket env)) = 1 \<and> count_list (ec_os c) OsWSACleanup = 1"
proof -
  let ?ec = "echo_log (EL_Info ''hello, echo clientSocket 1!'') EchoClient_new"
  obtain c where c: "EchoClient_Connect startup env 8080 ?ec = (True, c)"
    and log: "filter (\<lambda>l. case l of EL_Sent _ \<Rightarrow> True | EL_Received _ \<Rightarrow> True | EL_Error _ \<Rightarrow> True | _ \<Rightarrow> False) (ec_log c) = []"
    and os: "count_list (ec_os c) (OsCloseSocket (env_socket env)) = 0" "count_list (ec_os c) OsWSACleanup = 0"
    using assms(1-4)
    by (simp add: EchoClient_Connect_def EchoClient_Disconnect_def EchoClient_new_def tcp_Connect_def tcp_Close_def
        WsaSession_Create_def WsaSession_Initialize_def IsValidPort_def Let_def)
  obtain s where s: "ec_tcpClientSocket c = Some s" "tcp_IsConnected s" "ec_packetStream c = Some \<lparr>ps_maxFrameSize = maxFrameSize\<rparr>"
      "ec_wsaSession c = Some \<lparr>ws_isInitialized = True\<rparr>" "tcp_socketHandle s = env_socket env"
    using EchoClient_Connect_ready [OF c] by auto
  obtain c1 w1 where f: "fold (\<lambda>i. EchoClient_Send send recv (echo_message i)) [0..<5] (c, w) = (c1, w1)" by fastforce
  have c1: "wire w1 = []" "c1 = c\<lparr>ec_log := ec_log c @ concat (map (\<lambda>i. [EL_Sent (echo_message i), EL_Received (echo_message i)]) [0..<5])\<rparr>"
    using echo_sends [OF s(1-3) assms(5-7) _ assms(8) f] echo_message_short by auto
  have "filter (\<lambda>l. case l of EL_Sent _ \<Rightarrow> True | EL_Received _ \<Rightarrow> True | EL_Error _ \<Rightarrow> True | _ \<Rightarrow> False)
      (concat (map (\<lambda>i. [EL_Sent (m i), EL_Received (m i)]) is)) = concat (map (\<lambda>i. [EL_Sent (m i), EL_Received (m i)]) is)" for m "is"
    by (induction "is") simp_all
  then show ?thesis
    using c c1 s(1,2,4,5) assms(2) log os f
    by (simp add: echo_client_main_def EchoClient_destroy_def EchoClient_Disconnect_def tcp_Close_def tcp_IsConnected_def
        WsaSession_Cleanup_def)
qed

lemma echo_client_main_echoes_witness:
  "\<exists>c w'. echo_client_main 0 \<lparr>env_socket = 5, env_pton = 1, env_connect = 0\<rparr> byte_send byte_recv [] = Exit 0 (c, w')
    \<and> count_list (ec_os c) (OsCloseSocket 5) = 1"
  using echo_client_main_echoes [OF refl _ _ _ byte_transport, of "\<lparr>env_socket = 5, env_pton = 1, env_connect = 0\<rparr>" "[]"]
  by (auto simp: InvalidSocket_def SocketError_def)

end
