(* ===== verification/SendPath.thy ===== *)
theory SendPath
  imports ChatHandlers
begin

text \<open>
  What happens to the bytes of \<open>Client::PostSend\<close> (network/src/client/windows/Client.cpp)
  after \<open>WSASend\<close> has returned.

  A connection has one send buffer and one overlapped structure.  \<open>WSASend\<close> may report
  that the request is pending (\<open>ERROR_IO_PENDING\<close>); until such a request is completed, the
  system reads the buffer that was passed, and the program must leave it alone.  The step
  relation below has the calls of the program and the moments at which the system takes a
  copy of a buffer and puts bytes on the wire.  A request that returns success has been
  copied.  Requests reach the wire in the order of the calls.
\<close>

section \<open>Requests and the wire\<close>

datatype send_request = InUse nat | Copied "byte list"

record send_path =
  sp_client :: Client
  sp_requests :: "send_request list"
  sp_wire :: "byte list"
  sp_posted :: "byte list"

text \<open>What the system would send for a request if it looked now.\<close>

fun content :: "Client \<Rightarrow> send_request \<Rightarrow> byte list" where
  "content c (InUse n) = take n (so_buf (cl_send c))"
| "content c (Copied bs) = bs"

definition posted :: "int \<Rightarrow> Client \<Rightarrow> send_request" where
  "posted result c = (let n = unat (so_len (cl_send c)) in
     if result = SocketError then InUse n else Copied (take n (so_buf (cl_send c))))"

definition awaited :: "send_path \<Rightarrow> bool" where
  "awaited s = list_all (\<lambda>r. case r of Copied _ \<Rightarrow> True | InUse _ \<Rightarrow> False) (sp_requests s)"

text \<open>\<open>careful\<close>: whether the program posts only when no earlier request is in use.\<close>

inductive send_step :: "bool \<Rightarrow> send_path \<Rightarrow> send_path \<Rightarrow> bool" for careful where
  post: "PostSend r e data (sp_client s) = (Inr (), c, outs) \<Longrightarrow> (careful \<Longrightarrow> awaited s) \<Longrightarrow>
    length data \<le> sendBufferSize \<Longrightarrow>
    send_step careful s (s\<lparr>sp_client := c, sp_requests := sp_requests s @ [posted r c], sp_posted := sp_posted s @ data\<rparr>)"
| copy: "k < length (sp_requests s) \<Longrightarrow>
    send_step careful s (s\<lparr>sp_requests := (sp_requests s)[k := Copied (content (sp_client s) (sp_requests s ! k))]\<rparr>)"
| transmit: "sp_requests s = Copied bs # rest \<Longrightarrow>
    send_step careful s (s\<lparr>sp_requests := rest, sp_wire := sp_wire s @ bs\<rparr>)"

inductive_simps send_step_iff: "send_step careful s s'"

definition path_start :: "Client \<Rightarrow> send_path" where
  "path_start c = \<lparr>sp_client = c, sp_requests = [], sp_wire = [], sp_posted = []\<rparr>"

section \<open>A careful program\<close>

lemma PostSend_buffer:
  assumes "client_inv c" and "length data \<le> sendBufferSize" and "PostSend r e data c = (res, c', outs)"
  shows "so_buf (cl_send c') = data @ drop (length data) (so_buf (cl_send c))" "unat (so_len (cl_send c')) = length data"
    "client_inv c'"
proof -
  have n: "unat (of_nat (length data) :: uint32) = length data"
    using assms(2) by (intro unat_of_nat32) (simp add: sendBufferSize_def)
  show "so_buf (cl_send c') = data @ drop (length data) (so_buf (cl_send c))" "unat (so_len (cl_send c')) = length data"
    using assms n by (auto simp: PostSend_def Let_def client_inv_def write_at_def split: if_splits)
  show "client_inv c'" using client_inv_PostSend [OF assms(1), of r e data] assms(3) by simp
qed

definition path_inv :: "send_path \<Rightarrow> bool" where
  "path_inv s \<longleftrightarrow> client_inv (sp_client s)
     \<and> sp_wire s @ concat (map (content (sp_client s)) (sp_requests s)) = sp_posted s"

lemma content_copied:
  "list_all (\<lambda>r. case r of Copied _ \<Rightarrow> True | InUse _ \<Rightarrow> False) rs \<Longrightarrow> map (content c) rs = map (content c') rs"
  by (induction rs) (auto split: send_request.splits)

lemma careful_step_inv:
  assumes "send_step True s s'" and "path_inv s"
  shows "path_inv s'"
  using assms(1)
proof cases
  case (post r e data c outs)
  have inv: "client_inv (sp_client s)" using assms(2) by (simp add: path_inv_def)
  note buf = PostSend_buffer [OF inv post(4,2)]
  have "content c (posted r c) = data" by (simp add: posted_def Let_def buf)
  moreover have same: "map (content c) (sp_requests s) = map (content (sp_client s)) (sp_requests s)"
    using content_copied post(3) by (simp add: awaited_def)
  ultimately show ?thesis using assms(2) buf(3) by (simp add: path_inv_def post(1) same)
next
  case (copy k)
  have "map (content c) (rs[k := Copied (content c (rs ! k))]) = map (content c) rs" if "k < length rs" for c rs
    using that by (simp add: map_update) (metis list_update_id nth_map)
  then show ?thesis using assms(2) copy by (simp add: path_inv_def)
next
  case (transmit bs rest)
  then show ?thesis using assms(2) by (simp add: path_inv_def)
qed

text \<open>If every send waits until the buffer of the one before is free, the wire carries what
  was posted, in order, and all of it once nothing is outstanding.\<close>

lemma careful_run:
  assumes "(send_step True)\<^sup>*\<^sup>* (path_start c) s" and "client_inv c"
  shows "sp_posted s = sp_wire s @ concat (map (content (sp_client s)) (sp_requests s))"
proof -
  have "path_inv (path_start c)" using assms(2) by (simp add: path_inv_def path_start_def)
  with assms(1) have "path_inv s" by (induction rule: rtranclp_induct) (auto intro: careful_step_inv)
  then show ?thesis by (simp add: path_inv_def)
qed

section \<open>A program that does not wait\<close>

definition posted_client :: "byte list \<Rightarrow> Client \<Rightarrow> Client" where
  "posted_client data c = fst (snd (PostSend 0 (WsaOther 0) data c))"

lemma PostSend_client: "PostSend r e data c = (res, c', outs) \<Longrightarrow> c' = posted_client data c"
  by (auto simp: posted_client_def PostSend_def Let_def split: if_splits)

lemma PostSend_pending:
  obtains outs where "PostSend SocketError ERROR_IO_PENDING data c = (Inr (), posted_client data c, outs)"
proof -
  obtain res c' outs where p: "PostSend SocketError ERROR_IO_PENDING data c = (res, c', outs)" by (metis prod_cases3)
  moreover have "res = Inr ()" using p by (auto simp: PostSend_def Let_def split: if_splits)
  ultimately show ?thesis using that PostSend_client [OF p] by metis
qed

text \<open>Two requests in a row, both pending: the system reads the buffer for the first one
  when the second has overwritten it.\<close>

lemma post_pending:
  assumes "client_inv (sp_client s)" and "length f \<le> sendBufferSize"
  shows "send_step False s (s\<lparr>sp_client := posted_client f (sp_client s), sp_requests := sp_requests s @ [InUse (length f)],
      sp_posted := sp_posted s @ f\<rparr>)"
    and "so_buf (cl_send (posted_client f (sp_client s))) = f @ drop (length f) (so_buf (cl_send (sp_client s)))"
    and "client_inv (posted_client f (sp_client s))"
proof -
  obtain outs where p: "PostSend SocketError ERROR_IO_PENDING f (sp_client s) = (Inr (), posted_client f (sp_client s), outs)"
    by (rule PostSend_pending)
  note b = PostSend_buffer [OF assms p]
  show "send_step False s (s\<lparr>sp_client := posted_client f (sp_client s), sp_requests := sp_requests s @ [InUse (length f)],
      sp_posted := sp_posted s @ f\<rparr>)"
    using send_step.post [OF p _ assms(2), of False] b(2) by (simp add: posted_def)
  show "so_buf (cl_send (posted_client f (sp_client s))) = f @ drop (length f) (so_buf (cl_send (sp_client s)))"
    "client_inv (posted_client f (sp_client s))" using b by simp_all
qed

lemma two_pending_sends:
  assumes "client_inv c" and "length f1 \<le> sendBufferSize" and "length f2 \<le> sendBufferSize"
  shows "\<exists>s. (send_step False)\<^sup>*\<^sup>* (path_start c) s \<and> sp_requests s = [] \<and> sp_posted s = f1 @ f2
    \<and> sp_client s = posted_client f2 (posted_client f1 c)
    \<and> sp_wire s = take (length f1) (f2 @ drop (length f2) f1) @ f2"
proof -
  define c1 where "c1 = posted_client f1 c"
  define c2 where "c2 = posted_client f2 c1"
  define w where "w = take (length f1) (so_buf (cl_send c2))"
  define st where "st = (\<lambda>rs wire. \<lparr>sp_client = c2, sp_requests = rs, sp_wire = wire, sp_posted = f1 @ f2\<rparr>)"
  note p1 = post_pending [of "path_start c" f1]
  have b1: "so_buf (cl_send c1) = f1 @ drop (length f1) (so_buf (cl_send c))" "client_inv c1"
    using p1 assms(1,2) by (simp_all add: path_start_def c1_def)
  let ?s1 = "\<lparr>sp_client = c1, sp_requests = [InUse (length f1)], sp_wire = [], sp_posted = f1\<rparr>"
  have b2: "so_buf (cl_send c2) = f2 @ drop (length f2) (so_buf (cl_send c1))"
    using post_pending [of ?s1 f2] b1(2) assms(3) by (simp add: c2_def)
  have "send_step False (path_start c) ?s1" using p1 assms(1,2) by (simp add: path_start_def c1_def)
  moreover have "send_step False ?s1 (st [InUse (length f1), InUse (length f2)] [])"
    using post_pending(1) [of ?s1 f2] b1(2) assms(3) by (simp add: c2_def st_def)
  moreover have "send_step False (st [InUse (length f1), InUse (length f2)] []) (st [Copied w, InUse (length f2)] [])"
    using send_step.copy [of 0 "st [InUse (length f1), InUse (length f2)] []"] by (simp add: st_def w_def)
  moreover have "send_step False (st [Copied w, InUse (length f2)] []) (st [Copied w, Copied f2] [])"
    using send_step.copy [of 1 "st [Copied w, InUse (length f2)] []"] by (simp add: st_def b2)
  moreover have "send_step False (st [Copied w, Copied f2] []) (st [Copied f2] w)"
    using send_step.transmit [of "st [Copied w, Copied f2] []"] by (simp add: st_def)
  moreover have "send_step False (st [Copied f2] w) (st [] (w @ f2))"
    using send_step.transmit [of "st [Copied f2] w"] by (simp add: st_def)
  ultimately have "(send_step False)\<^sup>*\<^sup>* (path_start c) (st [] (w @ f2))"
    by (meson converse_rtranclp_into_rtranclp rtranclp.rtrancl_refl)
  moreover have "w = take (length f1) (f2 @ drop (length f2) f1)" by (simp add: w_def b1 b2)
  ultimately show ?thesis by (intro exI [of _ "st [] (w @ f2)"]) (simp add: st_def c2_def c1_def)
qed

section \<open>The chat room does not wait\<close>

text \<open>What transmissions leave in the client object of a slot.\<close>

lemma framed_length: "sendable env p \<Longrightarrow> length (framed env p) \<le> sendBufferSize"
  using encode_frame_small [of "api_bytes (cv_api env) p"] by (simp add: framed_def sendable_def sendBufferSize_def)

lemma Session_Send_client:
  assumes "ss_tcpClient ses < length (sl_clientPool s)"
  shows "client_of (Session_Send env p ses s) i =
    (if i = ss_tcpClient ses \<and> sockets s i \<noteq> InvalidSocket \<and> sendable env p
     then posted_client (framed env p) (client_of s i) else client_of s i)"
proof (cases "sendable env p")
  case True
  let ?buf = "api_bytes (cv_api env) p"
  have frame: "encode_be32 (of_nat (length ?buf)) @ ?buf = framed env p"
    using True encode_frame_small [of ?buf] by (simp add: framed_def sendable_def sendBufferSize_def)
  have "\<not> length ?buf > 2 ^ 32 - 1" "\<not> 4 + length ?buf > sendBufferSize"
    using True by (auto simp: sendable_def sendBufferSize_def)
  then show ?thesis
    using True assms frame
    by (auto simp: Session_Send_def Let_def Client_IsConnected_def sockets_def post_send_def nth_list_update
        dest!: PostSend_client split: prod.splits)
next
  case False
  then have "4 + length (api_bytes (cv_api env) p) > sendBufferSize" by (simp add: sendable_def)
  then show ?thesis using False by (simp add: Session_Send_def Let_def)
qed

lemma broadcast_client:
  assumes "\<forall>u \<in> set us. in_pool s u" and "sockets s i \<noteq> InvalidSocket" and "sendable env p"
  shows "client_of (fold (\<lambda>u s. if skip u then s else User_Send env p u s) us s) i
    = (posted_client (framed env p) ^^ length (filter (\<lambda>u. \<not> skip u \<and> ss_tcpClient (us_session u) = i) us)) (client_of s i)"
  using assms
proof (induction us arbitrary: s)
  case (Cons u us)
  let ?s = "User_Send env p u s"
  have q: "quiet s ?s"
    using Session_Send_effect(1) [of "us_session u" s env p] Cons.prems(1) by (simp add: User_Send_def in_pool_def)
  have c: "client_of ?s i = (if i = ss_tcpClient (us_session u) then posted_client (framed env p) (client_of s i) else client_of s i)"
    using Session_Send_client [of "us_session u" s env p i] Cons.prems by (simp add: User_Send_def in_pool_def)
  have "\<forall>v \<in> set us. in_pool ?s v" "sockets ?s i \<noteq> InvalidSocket"
    using Cons.prems q by (simp_all add: in_pool_def quiet_def)
  then show ?case
    using Cons.IH [of s] Cons.IH [of ?s] Cons.prems c
    by (cases "ss_tcpClient (us_session u) = i") (auto simp: funpow_swap1)
qed simp

text \<open>The frame a member gets for a chat message of user \<open>u\<close>.\<close>

definition chat_frame :: "ChatEnv \<Rightarrow> User \<Rightarrow> Packet \<Rightarrow> Payload \<Rightarrow> chat_server \<Rightarrow> byte list" where
  "chat_frame env u packet payload s =
     framed env (makeChatMessageBroadcast (ucast (us_id u)) (us_userName u) (sm_message payload)
       (cv_now env (length (sl_events s))) (pk_sequence packet))"

abbreviation chat_sendable :: "ChatEnv \<Rightarrow> User \<Rightarrow> Packet \<Rightarrow> Payload \<Rightarrow> chat_server \<Rightarrow> bool" where
  "chat_sendable env u packet payload s \<equiv>
     sendable env (makeChatMessageBroadcast (ucast (us_id u)) (us_userName u) (sm_message payload)
       (cv_now env (length (sl_events s))) (pk_sequence packet))"

lemma chat_message_client:
  assumes "chat_inv (length (sl_clientPool s)) (sl_app s)"
    and "GetUserByClient (sockets s) client (ch_users (sl_app s)) = Some u"
    and "GetRoom (us_roomId u) (ch_rooms (sl_app s)) = Some k"
    and "length (filter (\<lambda>v. us_id v \<noteq> us_id u \<and> ss_tcpClient (us_session v) = i) (rm_users (room_at (sl_app s) k))) = 1"
    and "sockets s i \<noteq> InvalidSocket" and "chat_sendable env u packet payload s"
  shows "client_of (ChatMessageHandler_Handle env client packet payload s) i
    = posted_client (chat_frame env u packet payload s) (client_of s i)"
proof -
  have "k < length (mg_rooms (ch_rooms (sl_app s)))"
    using assms(3) by (auto simp: GetRoom_def find_Some_iff)
  then have "\<forall>v \<in> set (rm_users (room_at (sl_app s) k)). in_pool s v"
    using members_in_pool [OF assms(1)] by blast
  from broadcast_client [OF this assms(5,6), of "\<lambda>v. us_id v = us_id u"] assms(2-4)
  show ?thesis by (simp add: ChatMessageHandler_Handle_def BroadcastChatMessage_def Let_def chat_frame_def)
qed

text \<open>C39: two chat messages of one user handled in a row, as in one tick, are written to the
  same send buffer of every other member, without waiting for the first request to
  complete.  The system may then still be reading the buffer for the first one: there is
  a run in which the member's wire carries the beginning of the second frame in place of
  the first one, so with frames of equal length the second message twice and the first
  one never.  A program that waits for the buffer has only runs that carry both.\<close>

theorem messages_in_a_row_overwritten:
  assumes "chat_inv (length (sl_clientPool s)) (sl_app s)" and "lifecycle_inv s" and "i < length (sl_clientPool s)"
    and "GetUserByClient (sockets s) client (ch_users (sl_app s)) = Some u"
    and "GetRoom (us_roomId u) (ch_rooms (sl_app s)) = Some k"
    and "length (filter (\<lambda>v. us_id v \<noteq> us_id u \<and> ss_tcpClient (us_session v) = i) (rm_users (room_at (sl_app s) k))) = 1"
    and "sockets s i \<noteq> InvalidSocket"
    and "ChatMessageHandler_Handle env client packet1 payload1 s = s1"
    and "ChatMessageHandler_Handle env client packet2 payload2 s1 = s2"
    and "chat_sendable env u packet1 payload1 s" and "chat_sendable env u packet2 payload2 s1"
    and "chat_frame env u packet1 payload1 s = f1" and "chat_frame env u packet2 payload2 s1 = f2"
  shows "(\<exists>w. (send_step False)\<^sup>*\<^sup>* (path_start (client_of s i)) w \<and> sp_client w = client_of s2 i \<and> sp_requests w = []
      \<and> sp_posted w = f1 @ f2 \<and> sp_wire w = take (length f1) (f2 @ drop (length f2) f1) @ f2
      \<and> (length f1 = length f2 \<longrightarrow> sp_wire w = f2 @ f2))
    \<and> (\<forall>w. (send_step True)\<^sup>*\<^sup>* (path_start (client_of s i)) w \<and> sp_requests w = [] \<longrightarrow> sp_wire w = sp_posted w)"
proof -
  have inv: "client_inv (client_of s i)" using pool_member [OF assms(2,3)] by (simp add: pooled_client_ok_def)
  have same: "sl_app s1 = sl_app s" "sockets s1 = sockets s" "length (sl_clientPool s1) = length (sl_clientPool s)"
    using ChatMessageHandler_effect [OF assms(1,4,8)] by (simp_all add: same_server_def)
  have "client_of s1 i = posted_client f1 (client_of s i)"
    using chat_message_client [OF assms(1,4-7,10)] by (simp add: assms(8,12))
  moreover have "client_of s2 i = posted_client f2 (client_of s1 i)"
    using chat_message_client [where s = s1 and client = client and u = u and k = k and i = i and env = env and packet = packet2 and payload = payload2] assms(1,4-7,11) same by (simp add: assms(9,13))
  moreover have "length f1 \<le> sendBufferSize" "length f2 \<le> sendBufferSize"
    using framed_length [OF assms(10)] framed_length [OF assms(11)] by (simp_all add: chat_frame_def flip: assms(12,13))
  ultimately show ?thesis using two_pending_sends [OF inv, of f1 f2] careful_run [OF _ inv] by fastforce
qed

definition other_user :: User where
  "other_user = \<lparr>us_session = \<lparr>ss_tcpClient = 1, ss_sessionId = 1\<rparr>, us_id = 1, us_userName = ''bob'', us_roomId = 0\<rparr>"

lemma messages_in_a_row_overwritten_witness:
  "\<exists>w. (send_step False)\<^sup>*\<^sup>* (path_start (client_of (demo_server [demo_user, other_user]) 1)) w \<and> sp_requests w = []
    \<and> sp_wire w = [0, 0, 0, 1, 2, 0, 0, 0, 1, 2]"
proof -
  let ?s = "demo_server [demo_user, other_user]" and ?p = "makeSendMessageRequest 0 ''ann'' ''hi'' 7"
  let ?l = "SendMessageRequest 0 ''ann'' ''hi''"
  have inv: "chat_inv (length (sl_clientPool ?s)) (sl_app ?s)"
    by (simp add: chat_inv_def rooms_ok_def users_ok_def members_ok_def sessions_ok_def demo_chat_def members_def
        user_manager.consistent_def ids_ok_def IsRoomExist_def demo_user_def other_user_def)
  have slot: "pooled_client_ok ((Client_UseCallbacks BuildClientCallbacks Client_new)\<lparr>cl_socket := h\<rparr>)"
      "\<not> cl_connectionEventCounted ((Client_UseCallbacks BuildClientCallbacks Client_new)\<lparr>cl_socket := h\<rparr>)" for h
    using client_inv_socket [OF client_inv_UseCallbacks [OF client_inv_new, of all_callbacks], of h]
    by (simp_all add: pooled_client_ok_def BuildClientCallbacks_def Client_UseCallbacks_def Client_new_def)
  then have life: "lifecycle_inv ?s"
    by (simp add: lifecycle_inv_def demo_server_def idle_server_def counted_def reports_exact_def)
  have u: "GetUserByClient (sockets ?s) 0 (ch_users (sl_app ?s)) = Some demo_user"
    by (simp add: GetUserByClient_def IsSameClient_def IsSameSession_def demo_chat_def demo_user_def other_user_def)
  have r: "GetRoom (us_roomId demo_user) (ch_rooms (sl_app ?s)) = Some 0"
    by (simp add: GetRoom_def demo_chat_def demo_user_def)
  have f: "framed demo_env (makeChatMessageBroadcast a b c d e) = [0, 0, 0, 1, 2]" "sendable demo_env (makeChatMessageBroadcast a b c d e)"
    for a b c d e
    by (simp_all add: framed_def sendable_def demo_env_def tiny_api_def packet_factory_defs encode_frame_def encode_be32_def
        sendBufferSize_def)
  show ?thesis
    using messages_in_a_row_overwritten [OF inv life _ u r _ _ refl refl, where i = 1 and env = demo_env and ?packet1.0 = ?p and ?payload1.0 = ?l and ?packet2.0 = ?p and ?payload2.0 = ?l]
    by (auto simp: chat_frame_def f demo_chat_def demo_user_def other_user_def InvalidSocket_def)
qed

end
