(* ===== verification/AcceptRace.thy ===== *)
theory AcceptRace
  imports ChatServer EchoPrograms
begin

text \<open>
  \<open>ServerLifeCycle::SetupClient\<close> (network/src/ServerLifecycle.cpp) on several worker
  threads.  Each worker of the completion port that gets a completed accept looks for a
  free slot of the client pool (\<open>FindAvailableClient\<close>) and then writes the accepted socket
  into it; nothing keeps a second worker from looking in between.  The step relation has
  the two halves of \<open>SetupClient\<close> as steps of their own, or, when \<open>locked\<close>, as one step.
\<close>

section \<open>Workers\<close>

datatype accept_worker = Accepted SocketHandle | Found SocketHandle "addr option" | Settled SocketHandle

type_synonym 'a workers = "accept_worker list \<times> 'a ServerLifeCycle"

inductive setup_step :: "bool \<Rightarrow> 'a Receiver \<Rightarrow> 'a workers \<Rightarrow> 'a workers \<Rightarrow> bool" for locked rv where
  find: "\<not> locked \<Longrightarrow> k < length ws \<Longrightarrow> ws ! k = Accepted h \<Longrightarrow>
    setup_step locked rv (ws, s) (ws[k := Found h (FindAvailableClient s)], s)"
| claim: "k < length ws \<Longrightarrow> ws ! k = Found h client \<Longrightarrow>
    setup_step locked rv (ws, s) (ws[k := Settled h], claim_slot (Some rv) env h client s)"
| both: "k < length ws \<Longrightarrow> ws ! k = Accepted h \<Longrightarrow>
    setup_step locked rv (ws, s) (ws[k := Settled h], SetupClient (Some rv) env h s)"

definition slots :: "'a ServerLifeCycle \<Rightarrow> SocketHandle list" where
  "slots s = map cl_socket (sl_clientPool s)"

definition closed_handles :: "LifecycleEvent list \<Rightarrow> SocketHandle set" where
  "closed_handles es = {h. ClosedSocket h \<in> set es \<or> Forwarded (CallOs (OsCloseSocket h)) \<in> set es}"

lemma closed_handles_simps [simp]:
  "closed_handles (es @ es') = closed_handles es \<union> closed_handles es'"
  "closed_handles [ClosedSocket h] = {h}"
  by (auto simp: closed_handles_def)

lemma callbacks_closed:
  "closed_handles (sl_events (fold client_callback outs s))
     = closed_handles (sl_events s) \<union> {h. CallOs (OsCloseSocket h) \<in> set outs}"
proof (induction outs arbitrary: s)
  case (Cons e outs)
  have "closed_handles (sl_events (client_callback e s)) = closed_handles (sl_events s) \<union> {h. e = CallOs (OsCloseSocket h)}"
    by (cases e) (auto simp: event_def Let_def closed_handles_def)
  with Cons show ?case by auto
qed simp

lemma put_client_closed:
  "closed_handles (sl_events (put_client i c outs s))
     = closed_handles (sl_events s) \<union> {h. CallOs (OsCloseSocket h) \<in> set outs}"
  by (simp add: put_client_def callbacks_closed)

lemma client_op_sockets:
  assumes "i < length (sl_clientPool s)"
  shows "slots (snd (post_recv r e i s)) = slots s"
    "closed_handles (sl_events (snd (post_recv r e i s))) = closed_handles (sl_events s)"
    "slots (mark_established i s) = slots s"
    "closed_handles (sl_events (mark_established i s)) = closed_handles (sl_events s)"
    "slots s ! i \<noteq> InvalidSocket \<Longrightarrow> slots (close_client i s) = (slots s)[i := InvalidSocket]"
    "slots s ! i \<noteq> InvalidSocket \<Longrightarrow>
      closed_handles (sl_events (close_client i s)) = insert (slots s ! i) (closed_handles (sl_events s))"
proof -
  have same: "(slots s)[i := cl_socket (client_of s i)] = slots s" using assms by (simp add: slots_def flip: map_update)
  note defs = slots_def [of "put_client _ _ _ _"] put_client_closed map_update slots_def [of s, symmetric] same emit_def
  show "slots (snd (post_recv r e i s)) = slots s"
    "closed_handles (sl_events (snd (post_recv r e i s))) = closed_handles (sl_events s)"
    by (auto simp: post_recv_def PostRecv_def Let_def defs)
  show "slots (mark_established i s) = slots s"
    "closed_handles (sl_events (mark_established i s)) = closed_handles (sl_events s)"
    by (auto simp: mark_established_def MarkConnectionEstablished_def EmitConnectedEvent_def defs)
  show "slots (close_client i s) = (slots s)[i := InvalidSocket]"
    "closed_handles (sl_events (close_client i s)) = insert (slots s ! i) (closed_handles (sl_events s))"
    if "slots s ! i \<noteq> InvalidSocket"
    using that assms
    by (auto simp: close_client_def Client_Close_def EmitDisconnectedEvent_def slots_def put_client_closed map_update emit_def)
qed

section \<open>A receiver that leaves accepted clients alone\<close>

locale passive_accept =
  fixes rv :: "'a Receiver"
  assumes accept_pool: "sl_clientPool (rv_OnAccept rv i s) = sl_clientPool s"
    and accept_events: "sl_events (rv_OnAccept rv i s) = sl_events s"
    and accept_count: "sl_connectedClientCount (rv_OnAccept rv i s) = sl_connectedClientCount s"
    and accept_iocp: "sl_iocp (rv_OnAccept rv i s) = sl_iocp s"
begin

text \<open>The socket ends up in the slot that was found, or it is closed.\<close>

lemma claim_slot_sockets:
  assumes "i < length (sl_clientPool s)" and "h \<noteq> InvalidSocket" and "s' = claim_slot (Some rv) env h (Some i) s"
  shows "slots s' = (slots s)[i := h] \<and> closed_handles (sl_events s') = closed_handles (sl_events s)
    \<or> slots s' = (slots s)[i := InvalidSocket] \<and> closed_handles (sl_events s') = insert h (closed_handles (sl_events s))"
proof -
  define s1 where "s1 = s\<lparr>sl_clientPool := (sl_clientPool s)[i := (client_of s i)\<lparr>cl_socket := h\<rparr>]\<rparr>"
  have s1: "i < length (sl_clientPool s1)" "slots s1 = (slots s)[i := h]" "slots s1 ! i = h" "sl_events s1 = sl_events s"
    using assms(1) by (simp_all add: s1_def slots_def map_update)
  obtain res s2 where p: "post_recv (se_recv env) (se_recvError env) i s1 = (res, s2)" by fastforce
  have s2: "i < length (sl_clientPool s2)" "slots s2 = (slots s)[i := h]" "slots s2 ! i = h"
      "closed_handles (sl_events s2) = closed_handles (sl_events s)"
    using client_op_sockets(1,2) [OF s1(1), of "se_recv env" "se_recvError env"] client_op_length(2) [of "se_recv env" "se_recvError env" i s1] s1 p
    by simp_all
  have accept: "slots (rv_OnAccept rv i s) = slots s" for s by (simp add: slots_def accept_pool)
  show ?thesis
    using client_op_sockets(5,6) [OF s1(1)] client_op_sockets(5,6) [OF s2(1)] client_op_sockets(3,4) [OF s2(1)] s1 s2 assms(2)
    by (auto simp: assms(3) claim_slot_def Let_def s1_def [symmetric] p accept accept_events split: sum.splits option.splits)
qed

lemma SetupClient_sockets:
  assumes "h \<noteq> InvalidSocket" and "s' = SetupClient (Some rv) env h s"
  shows "h \<in> set (slots s') \<union> closed_handles (sl_events s')"
    and "set (slots s) - {InvalidSocket} \<subseteq> set (slots s')"
    and "closed_handles (sl_events s) \<subseteq> closed_handles (sl_events s')"
proof -
  have "h \<in> set (slots s') \<union> closed_handles (sl_events s') \<and> set (slots s) - {InvalidSocket} \<subseteq> set (slots s')
    \<and> closed_handles (sl_events s) \<subseteq> closed_handles (sl_events s')"
  proof (cases "FindAvailableClient s")
    case None
    then show ?thesis by (auto simp: assms(2) setup_defs event_def slots_def)
  next
    case (Some i)
    note i = FindAvailableClient_Some [OF Some]
    have free: "i < length (slots s)" "slots s ! i = InvalidSocket" using i by (simp_all add: slots_def)
    have keep: "set (slots s) - {InvalidSocket} \<subseteq> set ((slots s)[i := x])" for x
      using free by (auto simp: in_set_conv_nth) (metis nth_list_update_neq)
    show ?thesis
      using claim_slot_sockets [OF _ assms(1), of i s s' env] i Some free(1) keep [of h] keep [of InvalidSocket]
      by (auto simp: assms(2) SetupClient_def set_update_memI)
  qed
  then show "h \<in> set (slots s') \<union> closed_handles (sl_events s')" "set (slots s) - {InvalidSocket} \<subseteq> set (slots s')"
    "closed_handles (sl_events s) \<subseteq> closed_handles (sl_events s')" by blast+
qed

text \<open>With looking and claiming in one step no accepted socket is lost.\<close>

definition workers_ok :: "'a workers \<Rightarrow> bool" where
  "workers_ok = (\<lambda>(ws, s). \<forall>w \<in> set ws. case w of Accepted h \<Rightarrow> h \<noteq> InvalidSocket | Found _ _ \<Rightarrow> False
     | Settled h \<Rightarrow> h \<noteq> InvalidSocket \<and> h \<in> set (slots s) \<union> closed_handles (sl_events s))"

lemma locked_step:
  assumes "setup_step True rv v v'" and "workers_ok v"
  shows "workers_ok v'"
  using assms(1)
proof cases
  case (claim k ws h client s env)
  then show ?thesis using assms(2) nth_mem [of k ws] by (auto simp: workers_ok_def)
next
  case (both k ws h s env)
  have h: "h \<noteq> InvalidSocket" using assms(2) both nth_mem [of k ws] by (auto simp: workers_ok_def)
  note c = SetupClient_sockets [OF this refl, where s = s and env = env]
  show ?thesis unfolding workers_ok_def both(2) prod.case
  proof
    fix w assume "w \<in> set (ws[k := Settled h])"
    then consider "w = Settled h" | "w \<in> set ws" using set_update_subset_insert by fastforce
    then show "case w of Accepted h \<Rightarrow> h \<noteq> InvalidSocket | Found _ _ \<Rightarrow> False | Settled g \<Rightarrow> g \<noteq> InvalidSocket
        \<and> g \<in> set (slots (SetupClient (Some rv) env h s)) \<union> closed_handles (sl_events (SetupClient (Some rv) env h s))"
    proof cases
      case 1
      then show ?thesis using h c(1) by simp
    next
      case 2
      then show ?thesis using assms(2) c(2,3) by (fastforce simp: workers_ok_def both(1) split: accept_worker.splits)
    qed
  qed
qed simp

lemma locked_run:
  assumes "(setup_step True rv)\<^sup>*\<^sup>* (map Accepted hs, s) (ws, s')" and "InvalidSocket \<notin> set hs" and "Settled h \<in> set ws"
  shows "h \<in> set (slots s') \<union> closed_handles (sl_events s')"
proof -
  have "workers_ok (map Accepted hs, s)" using assms(2) by (auto simp: workers_ok_def)
  with assms(1) have "workers_ok (ws, s')" by (induction rule: rtranclp_induct) (auto intro: locked_step)
  then show ?thesis using assms(3) by (fastforce simp: workers_ok_def)
qed

text \<open>A claim whose calls succeed.\<close>

lemma claim_slot_succeeds:
  assumes "i < length (sl_clientPool s)" and "sl_iocp s = Some m" and "mx_handle m \<noteq> None" and "se_associate env = mx_handle m"
    and "se_recv env \<noteq> SocketError" and "cl_callbacks (client_of s i) = all_callbacks"
    and "s' = claim_slot (Some rv) env h (Some i) s"
  shows "slots s' = (slots s)[i := h]" "closed_handles (sl_events s') = closed_handles (sl_events s)"
    "sl_connectedClientCount s' = sl_connectedClientCount s + of_bool (\<not> cl_connectionEventCounted (client_of s i))"
    "sl_iocp s' = sl_iocp s" "cl_callbacks (client_of s' i) = all_callbacks" "cl_connectionEventCounted (client_of s' i)"
  using assms(1-6)
  by (auto simp: assms(7) claim_slot_def AssociateSocket_def Let_def post_recv_def PostRecv_def mark_established_def
      MarkConnectionEstablished_def EmitConnectedEvent_def accept_pool accept_events accept_count accept_iocp slots_def
      map_update put_client_closed emit_def all_callbacks_def)

lemma unlocked_run:
  assumes "lifecycle_inv s" and "FindAvailableClient s = Some i" and "sl_iocp s = Some m" and "mx_handle m \<noteq> None"
  obtains s' where "(setup_step False rv)\<^sup>*\<^sup>* ([Accepted h1, Accepted h2], s) ([Settled h1, Settled h2], s')"
    "slots s' = (slots s)[i := h2]" "closed_handles (sl_events s') = closed_handles (sl_events s)"
    "sl_connectedClientCount s' = sl_connectedClientCount s + 1"
proof -
  let ?env = "\<lparr>se_associate = mx_handle m, se_recv = 0, se_recvError = ERROR_IO_PENDING\<rparr>"
  define s1 where "s1 = claim_slot (Some rv) ?env h1 (Some i) s"
  define s2 where "s2 = claim_slot (Some rv) ?env h2 (Some i) s1"
  note i = FindAvailableClient_Some [OF assms(2)]
  have c: "cl_callbacks (client_of s i) = all_callbacks" "\<not> cl_connectionEventCounted (client_of s i)"
    using pool_member [OF assms(1)] i by (auto simp: pooled_client_ok_def client_inv_def)
  note r1 = claim_slot_succeeds [OF _ assms(3,4) _ _ c(1) s1_def]
  have l1: "i < length (sl_clientPool s1)"
    using arg_cong [OF r1(1), of length] i by (simp add: slots_def SocketError_def)
  note r2 = claim_slot_succeeds [OF l1 _ assms(4) _ _ _ s2_def]
  have "setup_step False rv ([Accepted h1, Accepted h2], s) ([Found h1 (Some i), Accepted h2], s)"
    using setup_step.find [of False 0 "[Accepted h1, Accepted h2]" h1 rv s] assms(2) by simp
  moreover have "setup_step False rv ([Found h1 (Some i), Accepted h2], s) ([Found h1 (Some i), Found h2 (Some i)], s)"
    using setup_step.find [of False 1 "[Found h1 (Some i), Accepted h2]" h2 rv s] assms(2) by simp
  moreover have "setup_step False rv ([Found h1 (Some i), Found h2 (Some i)], s) ([Settled h1, Found h2 (Some i)], s1)"
    using setup_step.claim [of 0 "[Found h1 (Some i), Found h2 (Some i)]" h1 "Some i" False rv s ?env] by (simp add: s1_def)
  moreover have "setup_step False rv ([Settled h1, Found h2 (Some i)], s1) ([Settled h1, Settled h2], s2)"
    using setup_step.claim [of 1 "[Settled h1, Found h2 (Some i)]" h2 "Some i" False rv s1 ?env] by (simp add: s2_def)
  ultimately have "(setup_step False rv)\<^sup>*\<^sup>* ([Accepted h1, Accepted h2], s) ([Settled h1, Settled h2], s2)"
    by (meson converse_rtranclp_into_rtranclp rtranclp.rtrancl_refl)
  then show ?thesis using that r1 r2 i c assms(3) by (simp add: SocketError_def)
qed

end

interpretation chat_accept: passive_accept "chat_receiver env ns" for env ns
  by unfold_locales (simp_all add: chat_receiver_def Server_OnAccept_def GameLoop_Connect_def on_app_def)

interpretation echo_accept: passive_accept "echo_receiver env" for env
  by unfold_locales (simp_all add: echo_receiver_def Echo_OnAccept_def)

section \<open>Accepted sockets\<close>

text \<open>C40: with the free slot found and taken in two steps, as the source has it, two workers
  of the chat server that complete an accept at the same time can take the same slot:
  both set up their connection, the slot keeps the second socket, and the first one is
  neither in the pool nor closed; the count of connected clients grows by one.  If looking
  and taking were one step, every accepted socket would be in the pool or closed after any
  number of accepts, in any order.  The same holds for the echo server.\<close>

theorem accepted_socket_lost:
  assumes "lifecycle_inv s" and "FindAvailableClient s = Some i" and "sl_iocp s = Some m" and "mx_handle m \<noteq> None"
    and "h1 \<noteq> h2" and "h1 \<noteq> InvalidSocket" and "h1 \<notin> set (slots s) \<union> closed_handles (sl_events s)"
  shows "(\<exists>s'. (setup_step False (chat_receiver env ns))\<^sup>*\<^sup>* ([Accepted h1, Accepted h2], s) ([Settled h1, Settled h2], s')
      \<and> slots s' = (slots s)[i := h2] \<and> h1 \<notin> set (slots s') \<union> closed_handles (sl_events s')
      \<and> GetConnectedClientCount s' = GetConnectedClientCount s + 1)
    \<and> (\<forall>hs ws s'. (setup_step True (chat_receiver env ns))\<^sup>*\<^sup>* (map Accepted hs, s) (ws, s') \<and> InvalidSocket \<notin> set hs \<longrightarrow>
        (\<forall>h. Settled h \<in> set ws \<longrightarrow> h \<in> set (slots s') \<union> closed_handles (sl_events s')))
    \<and> (\<forall>eenv hs ws e e'. (setup_step True (echo_receiver eenv))\<^sup>*\<^sup>* (map Accepted hs, e) (ws, e') \<and> InvalidSocket \<notin> set hs \<longrightarrow>
        (\<forall>h. Settled h \<in> set ws \<longrightarrow> h \<in> set (slots e') \<union> closed_handles (sl_events e')))"
proof (intro conjI)
  obtain s' where r: "(setup_step False (chat_receiver env ns))\<^sup>*\<^sup>* ([Accepted h1, Accepted h2], s) ([Settled h1, Settled h2], s')"
    "slots s' = (slots s)[i := h2]" "closed_handles (sl_events s') = closed_handles (sl_events s)"
    "sl_connectedClientCount s' = sl_connectedClientCount s + 1"
    by (rule chat_accept.unlocked_run [OF assms(1-4)])
  have "h1 \<notin> set (slots s')" using assms(5,7) set_update_subset_insert [of "slots s" i h2] by (auto simp: r(2))
  then show "\<exists>s'. (setup_step False (chat_receiver env ns))\<^sup>*\<^sup>* ([Accepted h1, Accepted h2], s) ([Settled h1, Settled h2], s')
      \<and> slots s' = (slots s)[i := h2] \<and> h1 \<notin> set (slots s') \<union> closed_handles (sl_events s')
      \<and> GetConnectedClientCount s' = GetConnectedClientCount s + 1"
    using r assms(7) by (auto simp: GetConnectedClientCount_def intro!: exI [of _ s'])
qed (use chat_accept.locked_run echo_accept.locked_run in blast)+

lemma accepted_socket_lost_witness:
  "\<exists>s'. slots s' = [12] \<and> (setup_step False (chat_receiver demo_env (\<lambda>_. 0)))\<^sup>*\<^sup>*
     ([Accepted 11, Accepted 12], (idle_server (new_game demo_env 1 2 WithDefaults))\<lparr>
        sl_iocp := Some \<lparr>mx_handle = Some 1, mx_workerThreads = 2, mx_isRunning = True,
          mx_callbacks = lcb_iocp (sl_callbacks (idle_server ())), mx_hasHandler = True\<rparr>,
        sl_clientPool := [Client_UseCallbacks BuildClientCallbacks Client_new]\<rparr>) ([Settled 11, Settled 12], s')"
proof -
  let ?m = "\<lparr>mx_handle = Some 1, mx_workerThreads = 2, mx_isRunning = True,
      mx_callbacks = lcb_iocp (sl_callbacks (idle_server ())), mx_hasHandler = True\<rparr>"
  let ?s = "(idle_server (new_game demo_env 1 2 WithDefaults))\<lparr>sl_iocp := Some ?m,
      sl_clientPool := [Client_UseCallbacks BuildClientCallbacks Client_new]\<rparr>"
  have "client_inv (Client_UseCallbacks BuildClientCallbacks Client_new)" by (rule client_inv_UseCallbacks [OF client_inv_new])
  then have inv: "lifecycle_inv ?s"
    by (simp add: lifecycle_inv_def pooled_client_ok_def idle_server_def counted_def reports_exact_def BuildClientCallbacks_def
        Client_UseCallbacks_def Client_new_def)
  have find: "FindAvailableClient ?s = Some 0"
    by (simp add: FindAvailableClient_def Client_UseCallbacks_def Client_new_def)
  have sl: "slots ?s = [InvalidSocket]" "closed_handles (sl_events (idle_server a)) = {}" for a
    by (simp_all add: slots_def closed_handles_def idle_server_def Client_UseCallbacks_def Client_new_def)
  have "(\<exists>s'. (setup_step False (chat_receiver demo_env (\<lambda>_. 0)))\<^sup>*\<^sup>* ([Accepted 11, Accepted 12], ?s) ([Settled 11, Settled 12], s')
      \<and> slots s' = (slots ?s)[0 := 12] \<and> 11 \<notin> set (slots s') \<union> closed_handles (sl_events s')
      \<and> GetConnectedClientCount s' = GetConnectedClientCount ?s + 1)"
    by (rule accepted_socket_lost [OF inv find, where m = ?m, THEN conjunct1]) (simp_all add: sl [simplified] InvalidSocket_def)
  then show ?thesis by (auto simp: sl [simplified])
qed

end
