(* ===== verification/Spec2Isabelle.thy ===== *)
theory Spec2Isabelle
  imports TomlCompileTime ChatDelivery ClientProgram SendPath AcceptRace
begin

text \<open>
  \<^bold>\<open>A verification development for the highp-mmorpg server\<close>

  The program is a C++ server framework on Windows I/O completion ports (src/network, src/lib,
  src/protocol) with a chat server and client on top (src/exec/chat).  Worker threads take completions
  from the completion port (\<open>IocpIoMultiplexer\<close>), \<open>ServerLifeCycle\<close> turns them into accepts,
  receives and sends on pooled \<open>Client\<close> objects, \<open>PacketDispatcher::Receive\<close> cuts the byte streams
  into length-prefixed frames, validates the FlatBuffers packets and queues commands, and the logic
  thread (\<open>GameLoop::Update\<close>) drains the queue once per tick and runs the packet handlers, which work
  on the sessions, users and rooms and send answers and broadcasts.

  \<^bold>\<open>Theories and sources.\<close>  Each theory opens with a note on its own sources.

  \<^item> \<open>Prelude\<close>: machine types, fact collections, lemmas on lists, words and association lists.
  \<^item> \<open>Platform\<close>, \<open>Errors\<close>: constants of platform.h and Const.h, Winsock error codes; \<open>fn::Result\<close>,
    \<open>ENetworkError\<close>, \<open>EPacketError\<close> and the logging helpers.  Interfaces \<open>releasable\<close> and \<open>fallible\<close>.
  \<^item> \<open>Framing\<close>: \<open>FrameBuffer\<close> (FrameBuffer.cpp) at its 64-bit width, the frame format of
    PacketStream.cpp, and the reference meaning \<open>frames_of\<close> of a byte stream.  Interface
    \<open>byte_buffer\<close>.
  \<^item> \<open>ClientSocket\<close>: \<open>WsaSession\<close>, \<open>TcpClientSocket\<close>, \<open>PacketStream\<close>.
  \<^item> \<open>CommandQueue\<close>: \<open>MPSCCommandQueue\<close>.  Interface \<open>command_queue\<close>.
  \<^item> \<open>Protocol\<close>: the FlatBuffers schemas as datatypes, PacketFactory.h and the clock of time.h.
  \<^item> \<open>Connection\<close>: \<open>net::Client\<close> with its overlapped structures.
  \<^item> \<open>Dispatcher\<close>: \<open>PacketDispatcher\<close>, and its abstract specification \<open>receive_spec\<close>.
  \<^item> \<open>Scope\<close>, \<open>Pools\<close>: \<open>Defer\<close>, \<open>DeferContext\<close>, \<open>DeferredItemHolder\<close>; the three object pools.
    Interfaces \<open>keyed_holder\<close>, \<open>object_pool\<close>, \<open>retiring_pool\<close>.
  \<^item> \<open>Acceptor\<close>, \<open>Multiplexer\<close>: \<open>IocpAcceptor\<close> and \<open>IocpIoMultiplexer\<close>; the worker pool as a step
    relation.
  \<^item> \<open>Toml\<close>, \<open>TomlCompileTime\<close>: the run-time and the compile-time TOML parser, \<open>Config\<close> and
    \<open>NetworkCfg\<close>.
  \<^item> \<open>Lifecycle\<close>: \<open>ServerLifeCycle\<close>.  Interface \<open>session_receiver\<close>.
  \<^item> \<open>ChatSession\<close>, \<open>ChatRoom\<close>, \<open>ChatHandlers\<close>, \<open>ChatServer\<close>: the chat server.  Interface
    \<open>id_manager\<close>; the server's receiver interprets \<open>session_receiver\<close>.
  \<^item> \<open>Sockets\<close>: \<open>SocketOptionBuilder\<close>, \<open>WindowsAsyncSocket\<close> and \<open>MakeDefaultListener\<close> in the state monad
    over the list of system calls.
  \<^item> \<open>MetricWindows\<close>, \<open>Metrics\<close>: the timing windows at the grain of single atomic accesses;
    \<open>AtomicServerMetrics\<close>, \<open>NullServerMetrics\<close> and the callback bundles of ServerMetricsCallbacks.cpp.
  \<^item> \<open>MetricsWiring\<close>: MetricsCallbacksFactory.cpp and the objects \<open>main\<close> assembles.
  \<^item> \<open>MetricsSupport\<close>, \<open>ServerWriter\<close>: ServerMetricsSupport.cpp, the configurations, \<open>RunManifest\<close>; the
    sampler, the summary, the JSON lines and the thread of \<open>ServerMetricsWriter\<close>.
  \<^item> \<open>ClientMetrics\<close>, \<open>ClientWriter\<close>: \<open>AtomicClientMetrics\<close> with its table of pending requests, and
    \<open>ClientMetricsWriter\<close>; the snapshot file is shown to be line-delimited JSON.
  \<^item> \<open>ChatClient\<close>: src/exec/chat/chat-client.  \<open>Client\<close>, the command line, the senders and the receiver as
    functions; \<open>Disconnect\<close> against the receive thread as the step relation \<open>thread_step\<close>.
  \<^item> \<open>ChatRequests\<close>: the request numbers of the client and the answers of the server together.
  \<^item> \<open>EchoPrograms\<close>: src/exec/echo.  The echo server is a second interpretation of \<open>session_receiver\<close>; the echo
    client is a second user of \<open>PacketStream\<close>.
  \<^item> \<open>ChatDelivery\<close>: a chat line from the keyboard of one client through the server to the screens of the others.
  \<^item> \<open>SendPath\<close>, \<open>AcceptRace\<close>: two places where completions run in parallel on shared objects.  What the system
    reads from the send buffer while requests are pending; and \<open>SetupClient\<close> on several workers, in two halves.
    Interface \<open>passive_accept\<close>.
  \<^item> \<open>Logging\<close>: \<open>Logger\<close>, \<open>TextLogger\<close> and \<open>PromptAwareTextLogger\<close>.  Interface \<open>line_logger\<close>.
  \<^item> \<open>ServerProgram\<close>, \<open>ClientProgram\<close>: the four \<open>main\<close> functions as runs.  A run is a function of what the program
    finds outside; leaving a scope destroys the locals in reverse order, and the result is \<open>Exit\<close>, \<open>Crash\<close> or
    \<open>Hang\<close>.
  This theory holds the properties that span components.

  \<^bold>\<open>How the code is modelled.\<close>  A class is a record of its fields, a method a function that returns
  the changed record with its result; a \<open>Result\<close> is a sum with the error on the left; what a method
  does to the outside (callbacks, Winsock calls) is a list of outputs or of events, oldest first.
  Objects reached through \<open>shared_ptr\<close> from several places (the pooled clients, the accept
  structures, the rooms) are named by their index.  Sizes and counters are machine words where the
  code can wrap; undefined behaviour that the code can run into is explicit (\<open>Overrun\<close> in
  \<open>Connection\<close>, \<open>ch_nullDeref\<close> in \<open>ChatHandlers\<close>, the overflow result of the integer parsers).
  Operations under one mutex are atomic; threads are interleavings of operations (\<open>command_queue\<close>,
  \<open>object_pool\<close>, \<open>pool_step\<close>, \<open>server_step\<close>).

  \<^bold>\<open>Parameters.\<close>  The results of operating system calls, the clock, file contents and environment
  variables, and the FlatBuffers library (\<open>PacketApi\<close>: verification, reading, the bytes of a finished
  builder) are arguments of the definitions that use them.  Where a theorem relies on FlatBuffers it
  says so as the hypothesis \<open>api_reads_back\<close>.

  \<^bold>\<open>What the lemmas show.\<close>  \<open>Dispatcher\<close>: receiving implements the framing of the stream for every
  fragmentation, and packets reach their handlers once and in order.  \<open>CommandQueue\<close>, \<open>Pools\<close>,
  \<open>Acceptor\<close>, \<open>Multiplexer\<close>: nothing is lost or handed out twice under any interleaving, and the
  workers end after a shutdown.  \<open>Lifecycle\<close> and \<open>ChatServer\<close>: the invariant \<open>server_inv\<close> with
  \<open>game_ok\<close> is established by starting the server and kept by every completion and every tick.
  \<open>ChatHandlers\<close>: what joining, leaving and talking do, to the byte.  \<open>Toml\<close>: printing and parsing
  are inverse, and the two parsers agree.  \<open>MetricsWiring\<close>: the gauges are exact after every run.
  \<open>MetricWindows\<close>: snapshots lose no observation.  \<open>MetricsSupport\<close>, \<open>ServerWriter\<close>: what is written
  reads back as JSON, or does not, and the writer stops.  \<open>ClientMetrics\<close>: every tracked request is counted
  once.  \<open>ClientWriter\<close>: the snapshot file is well formed.  \<open>ChatClient\<close>: a connection is released once,
  however the threads interleave, and request numbers are distinct until they wrap.  \<open>EchoPrograms\<close>: a
  message comes back byte for byte.  \<open>ChatDelivery\<close>: a line typed by one user appears on the screens of the
  others.  \<open>Logging\<close>: concurrent log calls leave whole lines and the prompt.  \<open>ServerProgram\<close>,
  \<open>ClientProgram\<close>: the programs return, and release what they acquired.  Several theorems state behaviour that is not what the code
  means to do: the frame sizes that pass the check but never fit, the accept completion that overtakes
  its registration, the workers lost to aborted I/O, the pool slot blocked by a departed user, the
  session leaked by a refused stream, the stale bytes of a reused slot, the disconnect reported twice,
  the answer to a chat message that only others get, the second receive of the echo server, the null
  listening socket, the identity taken over by the next connection, the accept sockets nobody closes, the message overwritten in the
  send buffer, and the slot two workers take at once.

  \<^bold>\<open>Bounds.\<close>  Loops are total functions with a termination proof (the receive loop by the buffer
  length, the parsers by the remaining text), except \<open>thread_loop\<close> of the writers, which may wait forever and is
  shown to return once a stop is requested; socket loops take the list of results the system calls
  give.  Ids are assumed not to run out within one tick (\<open>ids_for\<close>): 64 bits for users, 32 for rooms.

  \<^bold>\<open>Not modelled.\<close>  What the server classes log (the loggers themselves are), generated
  FlatBuffers accessors, precompiled headers and
  the playground program; conversions in a format string other than plain \<open>{}\<close>;
  running out of memory; the undefined behaviour after a null pointer, which ends a run as \<open>Crash\<close>.  A completion, a round of
  the logic thread and a packet handler are one step of the interleavings of \<open>ChatServer\<close>; races inside them are only
  visible through the halves \<open>join_prepare\<close> and \<open>join_finish\<close> of joining and in \<open>SendPath\<close> and \<open>AcceptRace\<close>.
\<close>

section \<open>Shutting the chat server down\<close>



text \<open>What is released explicitly and once more by a destructor is released once.  The
  Winsock session, the client's socket, a server connection and the completion port make
  the calls of one release, however often they are asked to; and destroying a lifecycle
  that was stopped changes nothing.\<close>

theorem released_once:
  assumes "0 < n"
  shows "wsa_session.releases n ws = WsaSession_Cleanup ws
    \<and> tcp_socket.releases n sk = tcp_Close sk \<and> tcp_destroy (fst (tcp_Close sk)) = (fst (tcp_Close sk), [])
    \<and> connection.releases n c = Client_Close c
    \<and> multiplexer.releases n m = Multiplexer_Shutdown m
    \<and> Multiplexer_destroy (fst (Multiplexer_Shutdown m)) = (fst (Multiplexer_Shutdown m), [])
    \<and> Lifecycle_destroy last_owner (Stop last_owner' s) = Stop last_owner' s"
  using wsa_session.releases_once [OF assms] tcp_socket.releases_once [OF assms] connection.releases_once [OF assms]
    multiplexer.releases_once [OF assms] tcp_socket.release_again multiplexer.release_again
  by (simp add: tcp_destroy_def Multiplexer_destroy_def Lifecycle_destroy_def Stop_again)

lemma released_once_witness:
  "snd (tcp_socket.releases 2 \<lparr>tcp_hasSession = True, tcp_socketHandle = 5\<rparr>) = [OsShutdown 5, OsCloseSocket 5]
   \<and> snd (multiplexer.releases 2 \<lparr>mx_handle = Some 1, mx_workerThreads = 2, mx_isRunning = True,
        mx_callbacks = \<lparr>mcb_onWorkerDispatchBegin = False, mcb_onWorkerDispatchEnd = False\<rparr>, mx_hasHandler = True\<rparr>)
      = [stop_packet, stop_packet]"
proof -
  have "tcp_socket.releases 2 sk = tcp_Close sk" "multiplexer.releases 2 m = Multiplexer_Shutdown m" for sk m
    using released_once [where n = 2 and ws = "\<lparr>ws_isInitialized = True\<rparr>" and sk = sk and c = Client_new and m = m
        and s = "idle_server ()" and last_owner = "\<lambda>_. True" and last_owner' = "\<lambda>_. True"] by simp_all
  moreover have "replicate 2 stop_packet = [stop_packet, stop_packet]" by (simp add: numeral_2_eq_2)
  ultimately show ?thesis by (simp only:) (simp add: tcp_Close_def Multiplexer_Shutdown_def InvalidSocket_def)
qed

section \<open>Connections that end badly\<close>

text \<open>A connection that ends through \<open>OnDisconnect\<close> is taken out of its room and
  loses its session, but its user stays registered.  Since users are matched with
  clients by the socket of the pool slot, the next connection that gets the slot is
  taken for the departed user: its join request creates no user, reaches no room and
  is not answered, whatever the socket.\<close>

theorem departed_user_blocks_slot:
  assumes "(k, u) \<in> set (um_users (ch_users (gl_chat (sl_app s))))" and "ss_tcpClient (us_session u) = i"
  shows "u \<notin> set (members (ch_rooms (gl_chat (sl_app (GameLoop_Disconnect i s)))))
    \<and> (k, u) \<in> set (um_users (ch_users (gl_chat (sl_app (GameLoop_Disconnect i s)))))
    \<and> (\<forall>s1 :: chat_server. ch_users (sl_app s1) = ch_users (gl_chat (sl_app (GameLoop_Disconnect i s))) \<longrightarrow>
        ch_users (sl_app (JoinRoomHandler_Handle env i packet payload s1)) = ch_users (sl_app s1)
        \<and> members (ch_rooms (sl_app (JoinRoomHandler_Handle env i packet payload s1))) = members (ch_rooms (sl_app s1))
        \<and> sl_events (JoinRoomHandler_Handle env i packet payload s1) = sl_events s1)"
proof (intro conjI allI impI)
  show "u \<notin> set (members (ch_rooms (gl_chat (sl_app (GameLoop_Disconnect i s)))))"
    using assms(2)
    by (auto simp: GameLoop_Disconnect_def KickDisconnected_def KickByDisconnected_def members_def IsSameClient_def
        IsSameSession_def)
  show users: "(k, u) \<in> set (um_users (ch_users (gl_chat (sl_app (GameLoop_Disconnect i s)))))"
    using assms(1) by (simp add: GameLoop_Disconnect_def)
  fix s1 :: chat_server
  assume same: "ch_users (sl_app s1) = ch_users (gl_chat (sl_app (GameLoop_Disconnect i s)))"
  have "IsSameClient (sockets s1) i u" by (simp add: IsSameClient_def IsSameSession_def assms(2))
  then have "GetUserByClient (sockets s1) i (ch_users (sl_app s1)) \<noteq> None"
    using users same unfolding GetUserByClient_None by (metis image_eqI snd_conv)
  then have cu: "CreateUser (sockets s1) i name rid sm (ch_users (sl_app s1)) = (None, ch_users (sl_app s1))" for name rid sm
    by (auto simp: CreateUser_def split: option.splits)
  obtain j rooms where g: "GetOrCreateAvailableRoom (ch_rooms (sl_app s1)) = (j, rooms)" by fastforce
  obtain s2 where p: "join_prepare i payload s1 = ((j, None), s2)" by (simp add: join_prepare_def g cu)
  have "members (snd (GetOrCreateAvailableRoom m)) = members m" for m
    by (simp add: GetOrCreateAvailableRoom_def split: option.split)
  then show "ch_users (sl_app (JoinRoomHandler_Handle env i packet payload s1)) = ch_users (sl_app s1)"
    "members (ch_rooms (sl_app (JoinRoomHandler_Handle env i packet payload s1))) = members (ch_rooms (sl_app s1))"
    "sl_events (JoinRoomHandler_Handle env i packet payload s1) = sl_events s1"
    using join_prepare_refused [OF p] by (simp_all add: JoinRoomHandler_Handle_def p)
qed

lemma departed_user_blocks_slot_witness:
  "(0, demo_user) \<in> set (um_users (ch_users (gl_chat (sl_app (GameLoop_Disconnect 0
     (with_app ((new_game demo_env 1 2 WithDefaults)\<lparr>gl_chat := demo_chat [demo_user]\<rparr>) (demo_server [demo_user])))))))"
  by (rule departed_user_blocks_slot [THEN conjunct2, THEN conjunct1])
     (simp_all add: demo_chat_def demo_user_def)

text \<open>C36: the next connection in the slot of a departed user speaks in that user's name.
  It has not joined, but its chat message is taken from the user that stayed
  registered: the members of the departed user's room get it under the id and the name
  of the departed user.\<close>

theorem departed_identity_reused:
  assumes "(k, u) \<in> set (um_users (ch_users (gl_chat (sl_app s))))" and "ss_tcpClient (us_session u) = i"
    and "ch_users (sl_app s1) = ch_users (gl_chat (sl_app (GameLoop_Disconnect i s)))"
    and "chat_inv (length (sl_clientPool s1)) (sl_app s1)"
    and "\<forall>v \<in> snd ` set (um_users (ch_users (sl_app s1))). v \<noteq> u \<longrightarrow> sockets s1 (ss_tcpClient (us_session v)) \<noteq> sockets s1 i"
    and "s2 = ChatMessageHandler_Handle env i packet payload s1"
  shows "\<exists>j. GetRoom (us_roomId u) (ch_rooms (sl_app s1)) = Some j
    \<and> deliveries (sl_events s2) = deliveries (sl_events s1) @ deliveries_to env
        (makeChatMessageBroadcast (ucast (us_id u)) (us_userName u) (sm_message payload)
          (cv_now env (length (sl_events s1))) (pk_sequence packet))
        (sockets s1) (filter (\<lambda>v. us_id v \<noteq> us_id u) (rm_users (room_at (sl_app s1) j)))"
proof -
  have u: "(k, u) \<in> set (um_users (ch_users (sl_app s1)))"
    using assms(1,3) by (simp add: GameLoop_Disconnect_def)
  have "IsSameClient (sockets s1) i u" by (simp add: IsSameClient_def IsSameSession_def assms(2))
  then obtain v where v: "GetUserByClient (sockets s1) i (ch_users (sl_app s1)) = Some v"
    using u GetUserByClient_None [of "sockets s1" i "ch_users (sl_app s1)"] by fastforce
  have "v = u"
    using GetUserByClient_member [OF v] assms(5) by (force simp: IsSameClient_def IsSameSession_def)
  then show ?thesis
    using ChatMessageHandler_effect [OF assms(4) _ assms(6) [symmetric]] v by simp
qed

definition second_user :: User where
  "second_user = \<lparr>us_session = \<lparr>ss_tcpClient = 1, ss_sessionId = 1\<rparr>, us_id = 1, us_userName = ''bob'', us_roomId = 0\<rparr>"

definition departed_chat :: Chat where
  "departed_chat = (demo_chat [demo_user, second_user])\<lparr>ch_rooms := ch_rooms (demo_chat [second_user])\<rparr>"

lemma departed_chat_inv: "chat_inv 2 departed_chat"
  by (simp add: chat_inv_def rooms_ok_def users_ok_def members_ok_def sessions_ok_def departed_chat_def demo_chat_def members_def
      user_manager.consistent_def ids_ok_def IsRoomExist_def demo_user_def second_user_def)

lemma departed_identity_reused_witness:
  "deliveries (sl_events (ChatMessageHandler_Handle demo_env 0 (makeSendMessageRequest 0 ''eve'' ''hi'' 7)
      (SendMessageRequest 0 ''eve'' ''hi'') (with_app departed_chat (demo_server []))))
    = deliveries_to demo_env (makeChatMessageBroadcast 0 ''ann'' ''hi'' (0, 0) 7) (sockets (demo_server [])) [second_user]"
proof -
  let ?s = "with_app ((new_game demo_env 1 2 WithDefaults)\<lparr>gl_chat := demo_chat [demo_user, second_user]\<rparr>) (demo_server [])"
  let ?s1 = "with_app departed_chat (demo_server [])"
  have s1: "sockets ?s1 = sockets (demo_server [])" "sl_events ?s1 = []" "length (sl_clientPool ?s1) = 2"
    by (simp_all add: with_app_def sockets_def [abs_def] demo_server_def idle_server_def)
  have "GetRoom 0 (ch_rooms departed_chat) = Some j \<Longrightarrow> j = 0" for j
    by (auto simp: GetRoom_def departed_chat_def demo_chat_def split: if_splits)
  moreover have "\<exists>j. GetRoom (us_roomId demo_user) (ch_rooms (sl_app ?s1)) = Some j \<and> deliveries (sl_events (ChatMessageHandler_Handle
      demo_env 0 (makeSendMessageRequest 0 ''eve'' ''hi'' 7) (SendMessageRequest 0 ''eve'' ''hi'') ?s1)) = deliveries (sl_events ?s1)
      @ deliveries_to demo_env (makeChatMessageBroadcast (ucast (us_id demo_user)) (us_userName demo_user) ''hi''
        (cv_now demo_env (length (sl_events ?s1))) 7) (sockets ?s1)
        (filter (\<lambda>v. us_id v \<noteq> us_id demo_user) (rm_users (room_at (sl_app ?s1) j)))"
    using departed_identity_reused [of 0 demo_user ?s 0 ?s1 _ demo_env "makeSendMessageRequest 0 ''eve'' ''hi'' 7"
        "SendMessageRequest 0 ''eve'' ''hi''", OF _ _ _ _ _ refl] departed_chat_inv s1
    by (simp add: departed_chat_def demo_chat_def demo_user_def second_user_def GameLoop_Disconnect_def packet_factory_defs)
  moreover have "sl_events (demo_server []) = []" by (simp add: demo_server_def idle_server_def)
  ultimately show ?thesis
    by (auto simp: s1 demo_env_def departed_chat_def demo_chat_def demo_user_def second_user_def)
qed

text \<open>C27: a client whose stream is refused on a worker thread is closed, its slot is
  free at once, and the receive handler ends without telling the application: rooms,
  sessions and users are exactly as before, the user of the closed connection is
  still a member of its room and its session still points to the slot.\<close>

theorem refused_stream_leaks_session:
  fixes s :: server and i :: addr and ev :: CompletionEvent
  defines "c \<equiv> client_of s i" and "data \<equiv> take (unat (ev_bytesTransferred ev)) (ro_buf (cl_recv (client_of s i)))"
  assumes "ev_target ev = Some i" and "i < length (sl_clientPool s)" and "fb_inv (cl_frameBuf c)"
    and "ev_success ev" and "ev_bytesTransferred ev \<noteq> 0" and "\<not> gl_hasStopped (sl_app s)"
    and "length (Data (cl_frameBuf c)) + length data \<le> maxFrameSize"
    and "frames_of (valid_payload (cv_api env)) (Data (cl_frameBuf c) @ data) = (ps, rest, Refused)"
    and "se_recv senv = SocketError" and "se_recvError senv \<noteq> ERROR_IO_PENDING"
    and "s' = HandleRecv (Some (chat_receiver env ns)) senv ev s"
  shows "cl_socket (client_of s' i) = InvalidSocket \<and> gl_chat (sl_app s') = gl_chat (sl_app s)"
proof -
  define s1 where "s1 = (if lcb_onRecvCompleted (sl_callbacks s)
      then event (RecvCompleted (unat (ev_bytesTransferred ev)) True) s else s)"
  have s1: "sl_clientPool s1 = sl_clientPool s" "sl_app s1 = sl_app s" by (simp_all add: s1_def)
  obtain c' d' outs where r: "Receive (cv_api env) ns i data c (gl_dispatcher (sl_app s)) = (c', d', outs)"
    by (metis prod_cases3)
  have len: "length data < 2 ^ 64"
    using unat_lt32 [of "ev_bytesTransferred ev"] by (simp add: data_def min_def)
  have "client_rel rest (fst (Client_Close c)) c'"
    using Receive_stream [OF assms(5) len r] assms(9,10) by (simp add: receive_spec_def Let_def)
  then have closed: "cl_socket c' = InvalidSocket"
    by (auto simp: client_rel_def Client_Close_def EmitDisconnectedEvent_def)
  define s2 where "s2 = GameLoop_Receive env ns i data s1"
  have s2: "s2 = put_client i c' outs (on_app (\<lambda>g. g\<lparr>gl_dispatcher := d'\<rparr>) s1)"
    using assms(8) r by (simp add: s2_def GameLoop_Receive_def s1 c_def)
  have sock: "cl_socket (client_of s2 i) = InvalidSocket" "i < length (sl_clientPool s2)"
    "gl_chat (sl_app s2) = gl_chat (sl_app s)"
    using closed assms(4) s1 by (simp_all add: s2 put_client_def)
  obtain res s3 where p: "post_recv (se_recv senv) (se_recvError senv) i s2 = (res, s3)" by fastforce
  have res: "\<exists>e. res = Inl e" and s3: "cl_socket (client_of s3 i) = InvalidSocket" "sl_app s3 = sl_app s2"
    using p assms(11,12) sock(1,2) client_op_app(2) [of "se_recv senv" "se_recvError senv" i s2]
    by (auto simp: post_recv_def PostRecv_def Let_def put_client_def)
  have bytes: "unat (ev_bytesTransferred ev) > 0" using assms(7) by (simp add: unat_gt_0)
  have "s' = CloseClient (Some i) s3"
    using assms(3,6,13) bytes p [unfolded s2_def s1_def data_def] res
    by (cases "lcb_onRecvCompleted (sl_callbacks s)")
       (auto simp: HandleRecv_def Let_def chat_receiver_def Server_OnRecv_def)
  then show ?thesis using s3 sock(3) by (simp add: CloseClient_def)
qed

definition demo_bytes :: "byte list \<Rightarrow> FrameBuffer \<Rightarrow> server" where
  "demo_bytes b fb = (idle_server (new_game demo_env 1 2 WithDefaults))\<lparr>
     sl_iocp := Some \<lparr>mx_handle = Some 1, mx_workerThreads = 8, mx_isRunning = True,
                      mx_callbacks = lcb_iocp (sl_callbacks (idle_server ())), mx_hasHandler = True\<rparr>,
     sl_clientPool := [(Client_UseCallbacks BuildClientCallbacks Client_new)\<lparr>cl_socket := 21, cl_frameBuf := fb,
        cl_recv := (cl_recv Client_new)\<lparr>ro_buf := b\<rparr>\<rparr>]\<rparr>"

lemma refused_stream_leaks_session_witness:
  "gl_chat (sl_app (HandleRecv (Some (chat_receiver demo_env (\<lambda>_. 0)))
       \<lparr>se_associate = Some 1, se_recv = SocketError, se_recvError = WSAENOTSOCK\<rparr>
       \<lparr>ev_ioType = Recv, ev_target = Some 0, ev_overlapped = None, ev_bytesTransferred = 4, ev_success = True, ev_errorCode = None\<rparr>
       (demo_bytes [255, 255, 255, 255] FrameBuffer_init)))
     = gl_chat (sl_app (demo_bytes [255, 255, 255, 255] FrameBuffer_init))"
proof -
  have "oversized [255, 255, 255, 255]"
    by (simp add: oversized_def frame_len_def decode_be32_def kHeaderSize_def maxFrameSize_def)
  then have "frames_of v [255, 255, 255, 255] = ([], [255, 255, 255, 255], Refused)" for v
    by (simp add: frames_of_head)
  then show ?thesis
    by (intro refused_stream_leaks_session [where i = 0, THEN conjunct2, OF _ _ _ _ _ _ _ _ _ _ refl])
       (simp_all add: demo_bytes_def fb_inv_init idle_server_def GameLoop_new_def maxFrameSize_def)
qed

text \<open>C28: the frame buffer of a slot survives the connection.  When a slot is closed
  and handed to the next accepted socket, the bytes of the new connection are read as
  the continuation of what the old one had left in the buffer.\<close>

theorem stale_bytes_prefix_next_connection:
  fixes s :: server and i :: addr
  defines "left \<equiv> Data (cl_frameBuf (client_of s i))"
  assumes "i < length (sl_clientPool s)" and "fb_inv (cl_frameBuf (client_of s i))"
    and "FindAvailableClient (close_client i s) = Some i" and "sl_iocp s = Some m" and "mx_handle m \<noteq> None"
    and "se_associate senv = mx_handle m" and "se_recv senv \<noteq> SocketError"
    and "s' = SetupClient (Some (chat_receiver env ns)) senv h (close_client i s)"
    and "length left + length data \<le> maxFrameSize"
    and "Receive (cv_api env) ns i data (client_of s' i) (gl_dispatcher (sl_app s')) = (c', d', outs)"
  shows "cl_socket (client_of s' i) = h
    \<and> (case receive_spec (cv_api env) ns i (left @ data) (client_of s' i) (gl_dispatcher (sl_app s')) of
         (rest, ca, da, outsa) \<Rightarrow> client_rel rest ca c' \<and> d' = da \<and> outs = outsa)"
proof -
  have fb: "cl_frameBuf (client_of (close_client i s) i) = cl_frameBuf (client_of s i)"
    using assms(2) by (auto simp: close_client_def Client_Close_def EmitDisconnectedEvent_def put_client_def)
  have "sl_clientPool (rv_OnAccept (chat_receiver env ns) j t) = sl_clientPool t" for j t
    by (simp add: chat_receiver_def Server_OnAccept_def GameLoop_Connect_def)
  from SetupClient_frameBuf [OF assms(4) _ assms(7,6,8) this, of h]
  have s': "cl_socket (client_of s' i) = h" "cl_frameBuf (client_of s' i) = cl_frameBuf (client_of s i)"
    using fb assms(5,9) by simp_all
  have "length data < 2 ^ 64" using assms(10) by (simp add: maxFrameSize_def)
  from Receive_stream [OF _ this assms(11)] show ?thesis using s' assms(3,10) by (simp add: left_def)
qed

lemma stale_bytes_prefix_next_connection_witness:
  "cl_socket (client_of (SetupClient (Some (chat_receiver demo_env (\<lambda>_. 0)))
       \<lparr>se_associate = Some 1, se_recv = 0, se_recvError = ERROR_IO_PENDING\<rparr> 22
       (close_client 0 (demo_bytes [] FrameBuffer_init))) 0) = 22"
proof -
  let ?s = "demo_bytes [] FrameBuffer_init"
  have find: "FindAvailableClient (close_client 0 ?s) = Some 0"
    by (simp add: FindAvailableClient_def demo_bytes_def close_client_def Client_Close_def EmitDisconnectedEvent_def
        put_client_def Client_UseCallbacks_def Client_new_def idle_server_def)
  let ?s' = "SetupClient (Some (chat_receiver demo_env (\<lambda>_. 0)))
      \<lparr>se_associate = Some 1, se_recv = 0, se_recvError = ERROR_IO_PENDING\<rparr> 22 (close_client 0 ?s)"
  obtain c' d' outs where r: "Receive (cv_api demo_env) (\<lambda>_. 0) 0 [1] (client_of ?s' 0) (gl_dispatcher (sl_app ?s')) = (c', d', outs)"
    by (metis prod_cases3)
  show ?thesis
    by (rule stale_bytes_prefix_next_connection [where i = 0, THEN conjunct1, OF _ _ find _ _ _ _ refl _ r])
       ((simp_all add: demo_bytes_def fb_inv_init maxFrameSize_def SocketError_def)+)
qed

end
